(* ===== verification/Prelude.thy ===== *)
theory Prelude
  imports Main "HOL-Library.Sublist"
begin

text \<open>
  Shared vocabulary of the development.  Errors of the Go code are values: a function that
  returns \<^verbatim>\<open>(T, error)\<close> is modelled with the sum type below, \<^term>\<open>Inl\<close> carrying the
  message of the error.  The collections gather the facts that the component proofs hand to
  the simplifier: \<open>go_strings\<close> for string functions of the standard library,
  \<open>step_defs\<close> for the operations of a component and \<open>table_simps\<close> for list-shaped tables.
\<close>

named_theorems go_strings "facts about the modelled string functions"
named_theorems step_defs "definitions of component operations"
named_theorems table_simps "facts about association-list and row tables"

type_synonym err = string
type_synonym 'a go_result = "err + 'a"

subsection \<open>Lists\<close>

lemma take_length_append_eq [simp]: "take (length xs) (xs @ ys) = xs"
  by simp

lemma list_all_filter_id: "list_all P xs \<Longrightarrow> filter P xs = xs"
  by (induction xs) auto

lemma find_Some_set: "find P xs = Some x \<Longrightarrow> x \<in> set xs \<and> P x"
  by (induction xs) (auto split: if_splits)

lemma find_None_all: "find P xs = None \<longleftrightarrow> (\<forall>x \<in> set xs. \<not> P x)"
  by (induction xs) auto

lemma length_ge3: "2 < length xs \<Longrightarrow> \<exists>a b c ys. xs = a # b # c # ys"
  by (cases xs; cases "tl xs"; cases "tl (tl xs)") auto

text \<open>A left-to-right search that stops at the first hit: the shape of a Go loop with an
  early return.\<close>

fun first_some :: "('a \<Rightarrow> 'b option) \<Rightarrow> 'a list \<Rightarrow> 'b option" where
  "first_some f [] = None"
| "first_some f (x # xs) = (case f x of None \<Rightarrow> first_some f xs | Some y \<Rightarrow> Some y)"

lemma first_some_None: "first_some f xs = None \<longleftrightarrow> (\<forall>x \<in> set xs. f x = None)"
  by (induction xs) (auto split: option.splits)

lemma first_some_append:
  "first_some f (xs @ ys) = (case first_some f xs of None \<Rightarrow> first_some f ys | Some y \<Rightarrow> Some y)"
  by (induction xs) (auto split: option.splits)

lemma first_some_Some_split:
  "first_some f xs = Some y \<longleftrightarrow>
     (\<exists>us x vs. xs = us @ x # vs \<and> f x = Some y \<and> (\<forall>u \<in> set us. f u = None))"
proof
  show "first_some f xs = Some y \<Longrightarrow>
      \<exists>us x vs. xs = us @ x # vs \<and> f x = Some y \<and> (\<forall>u \<in> set us. f u = None)"
  proof (induction xs)
    case (Cons a xs)
    show ?case
    proof (cases "f a")
      case None
      with Cons obtain us x vs where "xs = us @ x # vs" "f x = Some y" "\<forall>u \<in> set us. f u = None"
        by auto
      with None show ?thesis by (intro exI [of _ "a # us"]) auto
    next
      case (Some b)
      with Cons.prems have "b = y" by simp
      with Some show ?thesis by (intro exI [of _ "[]"]) auto
    qed
  qed simp
next
  assume "\<exists>us x vs. xs = us @ x # vs \<and> f x = Some y \<and> (\<forall>u \<in> set us. f u = None)"
  then obtain us x vs where "xs = us @ x # vs" "f x = Some y" "first_some f us = None"
    by (auto simp: first_some_None)
  then show "first_some f xs = Some y"
    by (simp add: first_some_append)
qed

lemma first_some_cong [fundef_cong]:
  "xs = ys \<Longrightarrow> (\<And>x. x \<in> set ys \<Longrightarrow> f x = g x) \<Longrightarrow> first_some f xs = first_some g ys"
  by (induction xs arbitrary: ys) (auto split: option.splits)

lemma first_some_hit: "x \<in> set xs \<Longrightarrow> f x = Some y \<Longrightarrow> \<exists>z. first_some f xs = Some z"
  by (metis first_some_None not_None_eq option.distinct(1))

text \<open>The same loop where a lookup may also fail: the first error or hit ends it.\<close>

fun first_hit :: "('a \<Rightarrow> 'b option go_result) \<Rightarrow> 'a list \<Rightarrow> 'b option go_result" where
  "first_hit f [] = Inr None"
| "first_hit f (x # xs) = (case f x of
     Inl e \<Rightarrow> Inl e
   | Inr (Some y) \<Rightarrow> Inr (Some y)
   | Inr None \<Rightarrow> first_hit f xs)"

lemma first_hit_total:
  "(\<And>x. x \<in> set xs \<Longrightarrow> f x = Inr (g x)) \<Longrightarrow> first_hit f xs = Inr (first_some g xs)"
  by (induction xs) (auto split: option.splits)

lemma first_hit_Some:
  "first_hit f xs = Inr (Some y) \<longleftrightarrow>
     (\<exists>us x vs. xs = us @ x # vs \<and> f x = Inr (Some y) \<and> (\<forall>u \<in> set us. f u = Inr None))"
proof
  show "first_hit f xs = Inr (Some y) \<Longrightarrow>
      \<exists>us x vs. xs = us @ x # vs \<and> f x = Inr (Some y) \<and> (\<forall>u \<in> set us. f u = Inr None)"
  proof (induction xs)
    case (Cons a xs)
    show ?case
    proof (cases "f a = Inr None")
      case True
      with Cons obtain us x vs where "xs = us @ x # vs" "f x = Inr (Some y)" "\<forall>u \<in> set us. f u = Inr None"
        by auto
      with True show ?thesis by (intro exI [of _ "a # us"]) auto
    next
      case False
      with Cons.prems have "f a = Inr (Some y)" by (auto split: sum.splits option.splits)
      then show ?thesis by (intro exI [of _ "[]"]) auto
    qed
  qed simp
next
  assume "\<exists>us x vs. xs = us @ x # vs \<and> f x = Inr (Some y) \<and> (\<forall>u \<in> set us. f u = Inr None)"
  then obtain us x vs where xs: "xs = us @ x # vs" and x: "f x = Inr (Some y)"
    and us: "\<forall>u \<in> set us. f u = Inr None" by blast
  from us x show "first_hit f xs = Inr (Some y)" unfolding xs by (induction us) auto
qed

lemma first_hit_None: "first_hit f xs = Inr None \<longleftrightarrow> (\<forall>x \<in> set xs. f x = Inr None)"
  by (induction xs) (auto split: sum.splits option.splits)

subsection \<open>Options and sums\<close>

lemma isl_iff: "isl r \<longleftrightarrow> (\<exists>e. r = Inl e)"
  by (cases r) auto

end
