(* ===== verification/Go_Unicode.thy ===== *)
theory Go_Unicode
  imports Prelude
begin

text \<open>
  Runes and UTF-8.  A Go string is a sequence of bytes, here a HOL \<^typ>\<open>string\<close> whose
  characters are bytes; a rune is an \<^verbatim>\<open>int32\<close> code point, here an \<^typ>\<open>int\<close>.
  This theory models the parts of the standard library's \<^verbatim>\<open>unicode/utf8\<close> and
  \<^verbatim>\<open>unicode\<close> packages that the repository calls: decoding a string into runes as
  \<^verbatim>\<open>for range\<close> and \<^verbatim>\<open>[]rune(s)\<close> do, encoding a rune, \<^verbatim>\<open>unicode.ToLower\<close>
  (simple case mapping) and \<^verbatim>\<open>unicode.IsDigit\<close> (category Nd), with the tables of
  Unicode 15 written out as ranges.
\<close>

type_synonym rune = int

definition byte_of :: "char \<Rightarrow> int" where
  "byte_of c = of_char c"

lemma byte_of_range [simp]: "0 \<le> byte_of c" "byte_of c < 256"
proof -
  have "byte_of c = int (of_char c)" by (simp add: byte_of_def of_nat_of_char)
  then show "0 \<le> byte_of c" "byte_of c < 256"
    using nat_of_char_less_256 [of c] by linarith+
qed

lemma byte_of_inject [simp]: "byte_of c = byte_of d \<longleftrightarrow> c = d"
  by (simp add: byte_of_def)

definition is_ascii :: "string \<Rightarrow> bool" where
  "is_ascii s \<longleftrightarrow> list_all (\<lambda>c. byte_of c < 128) s"

lemma is_ascii_simps [simp]:
  "is_ascii []"
  "is_ascii (c # s) \<longleftrightarrow> byte_of c < 128 \<and> is_ascii s"
  "is_ascii (s @ t) \<longleftrightarrow> is_ascii s \<and> is_ascii t"
  by (auto simp: is_ascii_def)

subsection \<open>Decoding\<close>

text \<open>\<^verbatim>\<open>utf8.RuneError\<close>: what a byte that starts no valid encoding decodes to, one byte at
  a time.\<close>

definition rune_error :: rune where
  "rune_error = 65533"

definition cont_byte :: "char \<Rightarrow> bool" where
  "cont_byte c \<longleftrightarrow> 128 \<le> byte_of c \<and> byte_of c \<le> 191"

definition decode_rune :: "string \<Rightarrow> rune \<times> nat" where
  "decode_rune s = (case s of
      [] \<Rightarrow> (rune_error, 0)
    | c0 # cs \<Rightarrow>
       let b0 = byte_of c0 in
       if b0 < 128 then (b0, 1)
       else (case cs of
          [] \<Rightarrow> (rune_error, 1)
        | c1 # cs1 \<Rightarrow>
           let b1 = byte_of c1 in
           if 194 \<le> b0 \<and> b0 \<le> 223 then
             (if cont_byte c1 then ((b0 - 192) * 64 + (b1 - 128), 2) else (rune_error, 1))
           else (case cs1 of
              [] \<Rightarrow> (rune_error, 1)
            | c2 # cs2 \<Rightarrow>
               let b2 = byte_of c2 in
               if 224 \<le> b0 \<and> b0 \<le> 239 then
                 (if (if b0 = 224 then 160 else 128) \<le> b1 \<and> b1 \<le> (if b0 = 237 then 159 else 191)
                     \<and> cont_byte c2
                  then ((b0 - 224) * 4096 + (b1 - 128) * 64 + (b2 - 128), 3)
                  else (rune_error, 1))
               else (case cs2 of
                  [] \<Rightarrow> (rune_error, 1)
                | c3 # _ \<Rightarrow>
                   if 240 \<le> b0 \<and> b0 \<le> 244
                      \<and> (if b0 = 240 then 144 else 128) \<le> b1 \<and> b1 \<le> (if b0 = 244 then 143 else 191)
                      \<and> cont_byte c2 \<and> cont_byte c3
                   then ((b0 - 240) * 262144 + (b1 - 128) * 4096 + (b2 - 128) * 64
                           + (byte_of c3 - 128), 4)
                   else (rune_error, 1)))))"

fun runes :: "string \<Rightarrow> rune list" where
  "runes [] = []"
| "runes (c # cs) =
     (if byte_of c < 128 then byte_of c # runes cs
      else (case decode_rune (c # cs) of (r, n) \<Rightarrow> r # runes (drop (n - 1) cs)))"

lemma decode_rune_ascii: "byte_of c < 128 \<Longrightarrow> decode_rune (c # cs) = (byte_of c, 1)"
  by (simp add: decode_rune_def)

lemma decode_rune_nonascii:
  "128 \<le> byte_of c \<Longrightarrow> 128 \<le> fst (decode_rune (c # cs))"
  unfolding decode_rune_def rune_error_def Let_def cont_byte_def
  by (auto split: list.splits)

lemma runes_ascii: "is_ascii s \<Longrightarrow> runes s = map byte_of s"
  by (induction s) auto

lemma runes_ascii_append: "is_ascii s \<Longrightarrow> runes (s @ t) = map byte_of s @ runes t"
  by (induction s) auto

lemma length_runes: "length (runes s) \<le> length s"
proof (induction s rule: runes.induct)
  case (2 c cs)
  show ?case
  proof (cases "byte_of c < 128")
    case True
    with 2 show ?thesis by simp
  next
    case False
    obtain r n where d: "decode_rune (c # cs) = (r, n)" by fastforce
    from 2(2) [OF False d [symmetric]] have "length (runes (drop (n - 1) cs)) \<le> length cs"
      by (simp add: le_diff_conv)
    with False d show ?thesis by simp
  qed
qed simp

lemma runes_eq_Nil [simp]: "runes s = [] \<longleftrightarrow> s = []"
  by (cases s) (auto split: prod.splits)

text \<open>The ASCII bytes of a string are exactly its runes below 128.\<close>

lemma runes_all_small: "list_all (\<lambda>r. r < 128) (runes s) \<Longrightarrow> is_ascii s"
proof (induction s rule: runes.induct)
  case (2 c cs)
  show ?case
  proof (cases "byte_of c < 128")
    case True
    with 2 show ?thesis by simp
  next
    case False
    obtain r n where d: "decode_rune (c # cs) = (r, n)" by fastforce
    with decode_rune_nonascii [of c cs] False have "128 \<le> r" by simp
    with 2(3) False d show ?thesis by simp
  qed
qed simp

subsection \<open>Encoding\<close>

definition encode_rune :: "rune \<Rightarrow> string" where
  "encode_rune r0 =
     (let r = (if r0 < 0 \<or> 1114111 < r0 \<or> (55296 \<le> r0 \<and> r0 \<le> 57343) then rune_error else r0) in
      if r < 128 then [char_of r]
      else if r < 2048 then [char_of (192 + r div 64), char_of (128 + r mod 64)]
      else if r < 65536 then
        [char_of (224 + r div 4096), char_of (128 + r div 64 mod 64), char_of (128 + r mod 64)]
      else [char_of (240 + r div 262144), char_of (128 + r div 4096 mod 64),
            char_of (128 + r div 64 mod 64), char_of (128 + r mod 64)])"

definition encode_runes :: "rune list \<Rightarrow> string" where
  "encode_runes rs = concat (map encode_rune rs)"

lemma encode_rune_ascii: "0 \<le> r \<Longrightarrow> r < 128 \<Longrightarrow> encode_rune r = [char_of r]"
  by (simp add: encode_rune_def)

lemma encode_rune_byte [simp]: "byte_of c < 128 \<Longrightarrow> encode_rune (byte_of c) = [c]"
  by (simp add: encode_rune_ascii) (simp add: byte_of_def)

lemma encode_runes_ascii: "is_ascii s \<Longrightarrow> encode_runes (map byte_of s) = s"
  by (induction s) (auto simp: encode_runes_def)

subsection \<open>Case mapping and digits\<close>

text \<open>Simple lower-case mapping above ASCII: first and last code point, stride, and the
  difference added to a code point of the range.\<close>

definition lower_ranges :: "(int \<times> int \<times> int \<times> int) list" where
  "lower_ranges =
     [(192, 214, 1, 32), (216, 222, 1, 32), (256, 302, 2, 1), (304, 304, 1, - 199), (306, 310, 2, 1),
      (313, 327, 2, 1), (330, 374, 2, 1), (376, 376, 1, - 121), (377, 381, 2, 1), (385, 385, 1, 210),
      (386, 388, 2, 1), (390, 390, 1, 206), (391, 391, 1, 1), (393, 394, 1, 205), (395, 395, 1, 1),
      (398, 398, 1, 79), (399, 399, 1, 202), (400, 400, 1, 203), (401, 401, 1, 1), (403, 403, 1, 205),
      (404, 404, 1, 207), (406, 406, 1, 211), (407, 407, 1, 209), (408, 408, 1, 1), (412, 412, 1, 211),
      (413, 413, 1, 213), (415, 415, 1, 214), (416, 420, 2, 1), (422, 422, 1, 218), (423, 423, 1, 1),
      (425, 425, 1, 218), (428, 428, 1, 1), (430, 430, 1, 218), (431, 431, 1, 1), (433, 434, 1, 217),
      (435, 437, 2, 1), (439, 439, 1, 219), (440, 440, 1, 1), (444, 444, 1, 1), (452, 452, 1, 2),
      (453, 453, 1, 1), (455, 455, 1, 2), (456, 456, 1, 1), (458, 458, 1, 2), (459, 475, 2, 1),
      (478, 494, 2, 1), (497, 497, 1, 2), (498, 500, 2, 1), (502, 502, 1, - 97), (503, 503, 1, - 56),
      (504, 542, 2, 1), (544, 544, 1, - 130), (546, 562, 2, 1), (570, 570, 1, 10795), (571, 571, 1, 1),
      (573, 573, 1, - 163), (574, 574, 1, 10792), (577, 577, 1, 1), (579, 579, 1, - 195), (580, 580, 1, 69),
      (581, 581, 1, 71), (582, 590, 2, 1), (880, 882, 2, 1), (886, 886, 1, 1), (895, 895, 1, 116),
      (902, 902, 1, 38), (904, 906, 1, 37), (908, 908, 1, 64), (910, 911, 1, 63), (913, 929, 1, 32),
      (931, 939, 1, 32), (975, 975, 1, 8), (984, 1006, 2, 1), (1012, 1012, 1, - 60), (1015, 1015, 1, 1),
      (1017, 1017, 1, - 7), (1018, 1018, 1, 1), (1021, 1023, 1, - 130), (1024, 1039, 1, 80), (1040, 1071, 1, 32),
      (1120, 1152, 2, 1), (1162, 1214, 2, 1), (1216, 1216, 1, 15), (1217, 1229, 2, 1), (1232, 1326, 2, 1),
      (1329, 1366, 1, 48), (4256, 4293, 1, 7264), (4295, 4295, 1, 7264), (4301, 4301, 1, 7264), (5024, 5103, 1, 38864),
      (5104, 5109, 1, 8), (7312, 7354, 1, - 3008), (7357, 7359, 1, - 3008), (7680, 7828, 2, 1), (7838, 7838, 1, - 7615),
      (7840, 7934, 2, 1), (7944, 7951, 1, - 8), (7960, 7965, 1, - 8), (7976, 7983, 1, - 8), (7992, 7999, 1, - 8),
      (8008, 8013, 1, - 8), (8025, 8031, 2, - 8), (8040, 8047, 1, - 8), (8072, 8079, 1, - 8), (8088, 8095, 1, - 8),
      (8104, 8111, 1, - 8), (8120, 8121, 1, - 8), (8122, 8123, 1, - 74), (8124, 8124, 1, - 9), (8136, 8139, 1, - 86),
      (8140, 8140, 1, - 9), (8152, 8153, 1, - 8), (8154, 8155, 1, - 100), (8168, 8169, 1, - 8), (8170, 8171, 1, - 112),
      (8172, 8172, 1, - 7), (8184, 8185, 1, - 128), (8186, 8187, 1, - 126), (8188, 8188, 1, - 9), (8486, 8486, 1, - 7517),
      (8490, 8490, 1, - 8383), (8491, 8491, 1, - 8262), (8498, 8498, 1, 28), (8544, 8559, 1, 16), (8579, 8579, 1, 1),
      (9398, 9423, 1, 26), (11264, 11311, 1, 48), (11360, 11360, 1, 1), (11362, 11362, 1, - 10743), (11363, 11363, 1, - 3814),
      (11364, 11364, 1, - 10727), (11367, 11371, 2, 1), (11373, 11373, 1, - 10780), (11374, 11374, 1, - 10749), (11375, 11375, 1, - 10783),
      (11376, 11376, 1, - 10782), (11378, 11378, 1, 1), (11381, 11381, 1, 1), (11390, 11391, 1, - 10815), (11392, 11490, 2, 1),
      (11499, 11501, 2, 1), (11506, 11506, 1, 1), (42560, 42604, 2, 1), (42624, 42650, 2, 1), (42786, 42798, 2, 1),
      (42802, 42862, 2, 1), (42873, 42875, 2, 1), (42877, 42877, 1, - 35332), (42878, 42886, 2, 1), (42891, 42891, 1, 1),
      (42893, 42893, 1, - 42280), (42896, 42898, 2, 1), (42902, 42920, 2, 1), (42922, 42922, 1, - 42308), (42923, 42923, 1, - 42319),
      (42924, 42924, 1, - 42315), (42925, 42925, 1, - 42305), (42926, 42926, 1, - 42308), (42928, 42928, 1, - 42258), (42929, 42929, 1, - 42282),
      (42930, 42930, 1, - 42261), (42931, 42931, 1, 928), (42932, 42946, 2, 1), (42948, 42948, 1, - 48), (42949, 42949, 1, - 42307),
      (42950, 42950, 1, - 35384), (42951, 42953, 2, 1), (42960, 42960, 1, 1), (42966, 42968, 2, 1), (42997, 42997, 1, 1),
      (65313, 65338, 1, 32), (66560, 66599, 1, 40), (66736, 66771, 1, 40), (66928, 66938, 1, 39), (66940, 66954, 1, 39),
      (66956, 66962, 1, 39), (66964, 66965, 1, 39), (68736, 68786, 1, 64), (71840, 71871, 1, 32), (93760, 93791, 1, 32),
      (125184, 125217, 1, 34)]"

definition lower_rune :: "rune \<Rightarrow> rune" where
  "lower_rune r =
     (if r < 128 then (if 65 \<le> r \<and> r \<le> 90 then r + 32 else r)
      else (case find (\<lambda>(lo, hi, st, d). lo \<le> r \<and> r \<le> hi \<and> (r - lo) mod st = 0) lower_ranges of
              None \<Rightarrow> r
            | Some (lo, hi, st, d) \<Rightarrow> r + d))"

text \<open>The first code point of each block of ten decimal digits above ASCII.\<close>

definition digit_blocks :: "int list" where
  "digit_blocks =
     [1632, 1776, 1984, 2406, 2534, 2662, 2790, 2918, 3046, 3174,
      3302, 3430, 3558, 3664, 3792, 3872, 4160, 4240, 6112, 6160,
      6470, 6608, 6784, 6800, 6992, 7088, 7232, 7248, 42528, 43216,
      43264, 43472, 43504, 43600, 44016, 65296, 66720, 68912, 69734, 69872,
      69942, 70096, 70384, 70736, 70864, 71248, 71360, 71472, 71904, 72016,
      72784, 73040, 73120, 73552, 92768, 92864, 93008, 120782, 120792, 120802,
      120812, 120822, 123200, 123632, 124144, 125264, 130032]"

definition is_digit_rune :: "rune \<Rightarrow> bool" where
  "is_digit_rune r \<longleftrightarrow>
     (if r < 128 then 48 \<le> r \<and> r \<le> 57
      else list_ex (\<lambda>b. b \<le> r \<and> r \<le> b + 9) digit_blocks)"

lemma is_digit_rune_ascii: "r < 128 \<Longrightarrow> is_digit_rune r \<longleftrightarrow> 48 \<le> r \<and> r \<le> 57"
  by (simp add: is_digit_rune_def)

lemma lower_rune_ascii_range: "0 \<le> r \<Longrightarrow> r < 128 \<Longrightarrow> 0 \<le> lower_rune r \<and> lower_rune r < 128"
  by (simp add: lower_rune_def)

end
