(* ===== verification/Go_Strings.thy ===== *)
theory Go_Strings
  imports Go_Unicode
begin

text \<open>
  The functions of Go's \<^verbatim>\<open>strings\<close> package that the repository uses, on byte strings.
  \<open>index_of\<close> is \<^verbatim>\<open>strings.Index\<close> (\<^term>\<open>None\<close> for -1), \<open>split_on\<close> and \<open>join_with\<close>
  are \<^verbatim>\<open>strings.Split\<close> and \<^verbatim>\<open>strings.Join\<close> for a one-byte separator, \<open>trim_space\<close> and
  \<open>to_lower\<close> are \<^verbatim>\<open>strings.TrimSpace\<close> and \<^verbatim>\<open>strings.ToLower\<close> with their Unicode
  meaning.  The lemmas relate them: joining inverts splitting, lower-casing and trimming leave
  strings that are already normal unchanged.
\<close>

subsection \<open>Prefixes, suffixes, substrings\<close>

definition has_prefix :: "string \<Rightarrow> string \<Rightarrow> bool" where
  "has_prefix s p \<longleftrightarrow> take (length p) s = p"

definition has_suffix :: "string \<Rightarrow> string \<Rightarrow> bool" where
  "has_suffix s p \<longleftrightarrow> length p \<le> length s \<and> drop (length s - length p) s = p"

fun index_of :: "string \<Rightarrow> string \<Rightarrow> nat option" where
  "index_of s sub =
     (if has_prefix s sub then Some 0
      else (case s of [] \<Rightarrow> None | _ # t \<Rightarrow> map_option Suc (index_of t sub)))"

declare index_of.simps [simp del]

fun contains :: "string \<Rightarrow> string \<Rightarrow> bool" where
  "contains [] sub \<longleftrightarrow> sub = []"
| "contains (c # s) sub \<longleftrightarrow> has_prefix (c # s) sub \<or> contains s sub"

fun contains_char :: "string \<Rightarrow> char \<Rightarrow> bool" where
  "contains_char s c \<longleftrightarrow> c \<in> set s"

definition count_char :: "string \<Rightarrow> char \<Rightarrow> nat" where
  "count_char s c = length (filter (\<lambda>d. d = c) s)"

definition trim_prefix :: "string \<Rightarrow> string \<Rightarrow> string" where
  "trim_prefix s p = (if has_prefix s p then drop (length p) s else s)"

definition trim_suffix :: "string \<Rightarrow> string \<Rightarrow> string" where
  "trim_suffix s p = (if has_suffix s p then take (length s - length p) s else s)"

lemma has_prefix_iff: "has_prefix s p \<longleftrightarrow> (\<exists>t. s = p @ t)"
  by (metis append_eq_conv_conj append_take_drop_id has_prefix_def)

lemma has_prefix_Nil [simp]: "has_prefix s []"
  by (simp add: has_prefix_def)

lemma has_prefix_simps [simp]:
  "has_prefix [] (d # p) \<longleftrightarrow> False"
  "has_prefix (c # s) (d # p) \<longleftrightarrow> c = d \<and> has_prefix s p"
  by (auto simp: has_prefix_def)

lemma has_suffix_iff: "has_suffix s p \<longleftrightarrow> (\<exists>t. s = t @ p)"
  by (metis append_eq_append_conv append_take_drop_id diff_le_self has_suffix_def
        le_add2 length_append length_drop add_diff_cancel_right' append_eq_conv_conj)

lemma has_suffix_self_append [simp]: "has_suffix (t @ p) p"
  by (auto simp: has_suffix_iff)

lemma contains_iff: "contains s sub \<longleftrightarrow> (\<exists>p q. s = p @ sub @ q)"
proof (induction s)
  case (Cons c s)
  have "contains (c # s) sub \<longleftrightarrow> (\<exists>q. c # s = sub @ q) \<or> (\<exists>p q. s = p @ sub @ q)"
    using Cons by (simp add: has_prefix_iff)
  also have "\<dots> \<longleftrightarrow> (\<exists>p q. c # s = p @ sub @ q)"
    by (metis append_Cons append_Nil append_eq_Cons_conv)
  finally show ?case .
qed simp

lemma contains_Nil [simp]: "contains s []"
  by (cases s) simp_all

lemma contains_append: "contains s sub \<Longrightarrow> contains (u @ s @ v) sub"
  by (metis contains_iff append.assoc)

lemma contains_refl [simp]: "contains s s"
  by (auto simp: contains_iff intro: exI [of _ "[]"])

lemma contains_set: "contains s sub \<Longrightarrow> set sub \<subseteq> set s"
  by (auto simp: contains_iff)

lemma contains_sublist: "contains s sub \<longleftrightarrow> sublist sub s"
  by (simp add: contains_iff sublist_def)

lemma contains_trans: "contains s t \<Longrightarrow> contains t u \<Longrightarrow> contains s u"
  by (auto simp: contains_iff) (metis append.assoc)

lemma contains_singleton: "contains s [c] \<longleftrightarrow> c \<in> set s"
  by (induction s) auto

lemma count_char_simps [simp]:
  "count_char [] c = 0"
  "count_char (d # s) c = (if d = c then Suc (count_char s c) else count_char s c)"
  "count_char (s @ t) c = count_char s c + count_char t c"
  by (auto simp: count_char_def)

lemma count_char_0 [simp]: "count_char s c = 0 \<longleftrightarrow> c \<notin> set s"
  by (auto simp: count_char_def filter_empty_conv)

lemma trim_suffix_notin: "c \<notin> set s \<Longrightarrow> trim_suffix s [c] = s"
  by (auto simp: trim_suffix_def has_suffix_iff)

lemma trim_suffix_char: "trim_suffix s [c] = (if s \<noteq> [] \<and> last s = c then butlast s else s)"
  by (auto simp: trim_suffix_def has_suffix_iff butlast_conv_take)
     (metis append_butlast_last_id)

lemma set_trim_suffix: "set (trim_suffix s p) \<subseteq> set s"
  by (auto simp: trim_suffix_def dest: in_set_takeD)

subsection \<open>Splitting and joining\<close>

fun split_on :: "char \<Rightarrow> string \<Rightarrow> string list" where
  "split_on d [] = [[]]"
| "split_on d (c # cs) =
     (if c = d then [] # split_on d cs
      else (case split_on d cs of [] \<Rightarrow> [[c]] | w # ws \<Rightarrow> (c # w) # ws))"

fun join_with :: "string \<Rightarrow> string list \<Rightarrow> string" where
  "join_with d [] = []"
| "join_with d [w] = w"
| "join_with d (w # v # ws) = w @ d @ join_with d (v # ws)"

lemma split_on_nonempty [simp]: "split_on d s \<noteq> []"
  by (cases s) (auto split: list.splits)

lemma join_split [simp]: "join_with [d] (split_on d s) = s"
proof (induction s)
  case (Cons c s)
  then show ?case
    by (cases "split_on d s"; cases "tl (split_on d s)") auto
qed simp

lemma split_on_notin: "d \<notin> set w \<Longrightarrow> split_on d w = [w]"
  by (induction w) auto

lemma split_on_append: "d \<notin> set w \<Longrightarrow> split_on d (w @ d # s) = w # split_on d s"
  by (induction w) auto

lemma split_on_parts: "w \<in> set (split_on d s) \<Longrightarrow> d \<notin> set w"
  by (induction s arbitrary: w) (fastforce split: if_splits list.splits)+

lemma split_join:
  "ws \<noteq> [] \<Longrightarrow> \<forall>w \<in> set ws. d \<notin> set w \<Longrightarrow> split_on d (join_with [d] ws) = ws"
proof (induction "[d]" ws rule: join_with.induct)
  case (2 w)
  then show ?case by (simp add: split_on_notin)
next
  case (3 w v ws)
  then show ?case by (simp add: split_on_append)
qed simp

lemma length_split_on: "length (split_on d s) = Suc (count_char s d)"
  by (induction s) (auto split: list.splits)

lemma set_split_on: "w \<in> set (split_on d s) \<Longrightarrow> set w \<subseteq> set s"
  by (induction s arbitrary: w) (fastforce split: if_splits list.splits)+

lemma set_join_with: "set (join_with d ws) \<subseteq> set d \<union> (\<Union>w \<in> set ws. set w)"
  by (induction d ws rule: join_with.induct) auto

subsection \<open>White space\<close>

text \<open>\<^verbatim>\<open>unicode.IsSpace\<close> on the front of a string: the number of bytes of the leading
  white-space rune, 0 when the string does not start with one.\<close>

definition space_len :: "string \<Rightarrow> nat" where
  "space_len s = (case s of
      [] \<Rightarrow> 0
    | c # cs \<Rightarrow>
       if byte_of c < 128 then (if (9 \<le> byte_of c \<and> byte_of c \<le> 13) \<or> byte_of c = 32 then 1 else 0)
       else (case decode_rune s of (r, n) \<Rightarrow>
         if r \<in> {133, 160, 5760, 8232, 8233, 8239, 8287, 12288} \<or> (8192 \<le> r \<and> r \<le> 8202) then n else 0))"

text \<open>White-space runes above ASCII as bytes, for trimming at the end of a string.\<close>

definition wide_spaces :: "string list" where
  "wide_spaces = map encode_rune
     [133, 160, 5760, 8192, 8193, 8194, 8195, 8196, 8197, 8198, 8199, 8200, 8201, 8202,
      8232, 8233, 8239, 8287, 12288]"

definition ascii_space :: "char \<Rightarrow> bool" where
  "ascii_space c \<longleftrightarrow> (9 \<le> byte_of c \<and> byte_of c \<le> 13) \<or> byte_of c = 32"

definition space_suffix_len :: "string \<Rightarrow> nat" where
  "space_suffix_len s =
     (if s = [] then 0
      else if byte_of (last s) < 128 then (if ascii_space (last s) then 1 else 0)
      else (case find (has_suffix s) wide_spaces of None \<Rightarrow> 0 | Some w \<Rightarrow> length w))"

fun trim_left_space :: "string \<Rightarrow> string" where
  "trim_left_space [] = []"
| "trim_left_space (c # cs) =
     (if space_len (c # cs) = 0 then c # cs
      else trim_left_space (drop (space_len (c # cs) - 1) cs))"

function trim_right_space :: "string \<Rightarrow> string" where
  "trim_right_space s =
     (if space_suffix_len s = 0 then s
      else trim_right_space (take (length s - space_suffix_len s) s))"
  by pat_completeness auto
termination
proof (relation "measure length", goal_cases)
  case (2 s)
  then have "s \<noteq> []" by (auto simp: space_suffix_len_def)
  with 2 show ?case by simp
qed simp

declare trim_right_space.simps [simp del]

definition trim_space :: "string \<Rightarrow> string" where
  "trim_space s = trim_right_space (trim_left_space s)"

lemma trim_left_space_id: "s = [] \<or> space_len s = 0 \<Longrightarrow> trim_left_space s = s"
  by (cases s) auto

lemma trim_right_space_id: "space_suffix_len s = 0 \<Longrightarrow> trim_right_space s = s"
  by (subst trim_right_space.simps) simp

lemma set_trim_left: "set (trim_left_space s) \<subseteq> set s"
  by (induction s rule: trim_left_space.induct) (auto dest: in_set_dropD)

lemma set_trim_right: "set (trim_right_space s) \<subseteq> set s"
proof (induction s rule: trim_right_space.induct)
  case (1 s)
  then show ?case
    by (subst trim_right_space.simps) (auto dest: in_set_takeD)
qed

lemma set_trim_space: "set (trim_space s) \<subseteq> set s"
  unfolding trim_space_def using set_trim_left set_trim_right by blast

text \<open>An ASCII string without white space is left alone.\<close>

lemma trim_space_id:
  assumes "is_ascii s" and "list_all (\<lambda>c. \<not> ascii_space c) s"
  shows "trim_space s = s"
proof (cases "s = []")
  case False
  with assms have "space_len s = 0"
    by (cases s) (auto simp: space_len_def ascii_space_def)
  moreover from False assms have "space_suffix_len s = 0"
    by (auto simp: space_suffix_len_def is_ascii_def list_all_iff)
  ultimately show ?thesis
    by (simp add: trim_space_def trim_left_space_id trim_right_space_id)
qed (simp add: trim_space_def trim_right_space_id space_suffix_len_def)

lemma trim_space_Nil [simp]: "trim_space [] = []"
  by (rule trim_space_id) auto

subsection \<open>Case\<close>

definition lower_char :: "char \<Rightarrow> char" where
  "lower_char c = (if 65 \<le> byte_of c \<and> byte_of c \<le> 90 then char_of (byte_of c + 32) else c)"

definition to_lower :: "string \<Rightarrow> string" where
  "to_lower s =
     (if is_ascii s then map lower_char s else encode_runes (map lower_rune (runes s)))"

definition upper_free :: "string \<Rightarrow> bool" where
  "upper_free s \<longleftrightarrow> list_all (\<lambda>c. \<not> (65 \<le> byte_of c \<and> byte_of c \<le> 90)) s"

lemma byte_of_lower_char:
  "byte_of (lower_char c) =
     (if 65 \<le> byte_of c \<and> byte_of c \<le> 90 then byte_of c + 32 else byte_of c)"
  by (auto simp: lower_char_def) (simp add: byte_of_def)

lemma to_lower_id: "is_ascii s \<Longrightarrow> upper_free s \<Longrightarrow> to_lower s = s"
  unfolding to_lower_def upper_free_def list_all_iff
  by (simp, rule map_idI) (auto simp: lower_char_def)

lemma to_lower_ascii: "is_ascii s \<Longrightarrow> is_ascii (to_lower s) \<and> upper_free (to_lower s)"
  by (auto simp: to_lower_def upper_free_def is_ascii_def list_all_iff byte_of_lower_char)

lemma to_lower_Nil [simp]: "to_lower [] = []"
  by (simp add: to_lower_def)

lemma length_to_lower: "is_ascii s \<Longrightarrow> length (to_lower s) = length s"
  by (simp add: to_lower_def)

subsection \<open>Quotes in messages\<close>

text \<open>\<^verbatim>\<open>%q\<close> of a text without characters that need escaping.\<close>

definition quoted :: "string \<Rightarrow> string" where
  "quoted s = char_of (34 :: nat) # s @ [char_of (34 :: nat)]"

definition single_quoted :: "string \<Rightarrow> string" where
  "single_quoted s = char_of (39 :: nat) # s @ [char_of (39 :: nat)]"

subsection \<open>Suffixes of a dotted name\<close>

text \<open>The loop \<^verbatim>\<open>for i := range parts { candidate := strings.Join(parts[i:], ".") }\<close> that the
  override table, the whitelist and the threat feed share: the candidates, most specific
  first.\<close>

fun name_suffixes :: "string list \<Rightarrow> string list" where
  "name_suffixes [] = []"
| "name_suffixes (p # ps) = join_with ''.'' (p # ps) # name_suffixes ps"

definition parent_names :: "string \<Rightarrow> string list" where
  "parent_names domain = name_suffixes (split_on CHR ''.'' domain)"

lemma name_suffixes_map:
  "name_suffixes ps = map (\<lambda>i. join_with ''.'' (drop i ps)) [0..<length ps]"
proof (induction ps)
  case (Cons p ps)
  have "[0..<length (p # ps)] = 0 # map Suc [0..<length ps]"
    by (simp add: map_Suc_upt upt_conv_Cons del: upt_Suc)
  then show ?case using Cons by (simp add: comp_def del: upt_Suc)
qed simp

lemma parent_names_hd: "parent_names d = d # tl (parent_names d)"
  unfolding parent_names_def
  by (cases "split_on CHR ''.'' d") (simp_all, metis join_split)

lemma parent_names_self [simp]: "d \<in> set (parent_names d)"
  by (metis parent_names_hd list.set_intros(1))

lemma name_suffixes_iff:
  "x \<in> set (name_suffixes ps) \<longleftrightarrow> (\<exists>us vs. ps = us @ vs \<and> vs \<noteq> [] \<and> x = join_with ''.'' vs)"
  by (induction ps) (auto simp: Cons_eq_append_conv)

lemma join_with_append:
  "us \<noteq> [] \<Longrightarrow> vs \<noteq> [] \<Longrightarrow> join_with d (us @ vs) = join_with d us @ d @ join_with d vs"
  by (induction d us rule: join_with.induct) (auto simp: neq_Nil_conv)

text \<open>A candidate is the name itself or what follows one of its dots.\<close>

theorem parent_names_iff:
  "x \<in> set (parent_names d) \<longleftrightarrow> x = d \<or> has_suffix d (CHR ''.'' # x)"
proof
  assume "x \<in> set (parent_names d)"
  then obtain us vs where s: "split_on CHR ''.'' d = us @ vs" "vs \<noteq> []" "x = join_with ''.'' vs"
    by (auto simp: parent_names_def name_suffixes_iff)
  have d: "d = join_with ''.'' (us @ vs)" by (metis join_split s(1))
  show "x = d \<or> has_suffix d (CHR ''.'' # x)"
  proof (cases "us = []")
    case True
    with d s show ?thesis by simp
  next
    case False
    with d s have "d = join_with ''.'' us @ CHR ''.'' # x" by (simp add: join_with_append)
    then show ?thesis by (auto simp: has_suffix_iff)
  qed
next
  assume "x = d \<or> has_suffix d (CHR ''.'' # x)"
  then show "x \<in> set (parent_names d)"
  proof
    assume "has_suffix d (CHR ''.'' # x)"
    then obtain t where d: "d = t @ CHR ''.'' # x" by (auto simp: has_suffix_iff)
    have "split_on CHR ''.'' d = split_on CHR ''.'' t @ split_on CHR ''.'' x"
      unfolding d by (induction t) (auto split: list.splits)
    then show ?thesis
      unfolding parent_names_def name_suffixes_iff
      by (intro exI [of _ "split_on CHR ''.'' t"] exI [of _ "split_on CHR ''.'' x"]) simp
  qed simp
qed


lemma parent_names_subset: "x \<in> set (parent_names d) \<Longrightarrow> set x \<subseteq> set d"
  unfolding parent_names_iff has_suffix_iff by force

subsection \<open>Fields and replacement\<close>

text \<open>\<^verbatim>\<open>strings.Fields\<close>, with the word read so far.\<close>

fun fields_from :: "string \<Rightarrow> string \<Rightarrow> string list" where
  "fields_from w [] = (if w = [] then [] else [w])"
| "fields_from w (c # cs) =
     (if 0 < space_len (c # cs)
      then (if w = [] then [] else [w]) @ fields_from [] (drop (space_len (c # cs) - 1) cs)
      else fields_from (w @ [c]) cs)"

definition space_fields :: "string \<Rightarrow> string list" where
  "space_fields s = fields_from [] s"

text \<open>\<^verbatim>\<open>strings.FieldsFunc\<close> with a predicate on bytes below \<^verbatim>\<open>utf8.RuneSelf\<close>.\<close>

fun fields_where :: "(char \<Rightarrow> bool) \<Rightarrow> string \<Rightarrow> string \<Rightarrow> string list" where
  "fields_where p w [] = (if w = [] then [] else [w])"
| "fields_where p w (c # cs) =
     (if p c then (if w = [] then [] else [w]) @ fields_where p [] cs else fields_where p (w @ [c]) cs)"

text \<open>\<^verbatim>\<open>strings.ReplaceAll\<close> for a non-empty old string.\<close>

fun replace_all :: "string \<Rightarrow> string \<Rightarrow> string \<Rightarrow> string" where
  "replace_all old new [] = []"
| "replace_all old new (c # cs) =
     (if has_prefix (c # cs) old then new @ replace_all old new (drop (length old - 1) cs)
      else c # replace_all old new cs)"

end
