(* ===== verification/Go_Net.thy ===== *)
theory Go_Net
  imports Go_Strings "HOL-Library.Word"
begin

text \<open>
  The parts of Go's \<^verbatim>\<open>net/url\<close>, \<^verbatim>\<open>net\<close> and \<^verbatim>\<open>strconv\<close> packages that the
  repository uses: \<^verbatim>\<open>url.Parse\<close> with \<^verbatim>\<open>URL.Hostname\<close>, \<^verbatim>\<open>net.ParseIP\<close>,
  \<^verbatim>\<open>net.ParseCIDR\<close> with \<^verbatim>\<open>IPNet.Contains\<close>, \<^verbatim>\<open>strconv.Atoi\<close> and
  \<^verbatim>\<open>strconv.Itoa\<close>.  Of a parsed URL the scheme, the opaque part and the (unescaped) host are
  kept; errors are \<^term>\<open>None\<close>, since the callers only test whether there was one.  An address
  is a 32-bit or a 128-bit word.
\<close>

unbundle bit_operations_syntax

subsection \<open>Characters and cuts\<close>

definition is_dec :: "char \<Rightarrow> bool" where
  "is_dec c \<longleftrightarrow> 48 \<le> byte_of c \<and> byte_of c \<le> 57"

definition is_alpha :: "char \<Rightarrow> bool" where
  "is_alpha c \<longleftrightarrow> (97 \<le> byte_of c \<and> byte_of c \<le> 122) \<or> (65 \<le> byte_of c \<and> byte_of c \<le> 90)"

definition is_hex :: "char \<Rightarrow> bool" where
  "is_hex c \<longleftrightarrow> is_dec c \<or> (97 \<le> byte_of c \<and> byte_of c \<le> 102) \<or> (65 \<le> byte_of c \<and> byte_of c \<le> 70)"

definition hex_val :: "char \<Rightarrow> int" where
  "hex_val c = (if is_dec c then byte_of c - 48
     else if 97 \<le> byte_of c then byte_of c - 87 else byte_of c - 55)"

text \<open>\<^verbatim>\<open>strings.Cut\<close> at a one-byte separator: what precedes its first occurrence and, when
  there is one, what follows it.\<close>

fun cut :: "char \<Rightarrow> string \<Rightarrow> string \<times> string option" where
  "cut d [] = ([], None)"
| "cut d (c # s) = (if c = d then ([], Some s) else (case cut d s of (a, b) \<Rightarrow> (c # a, b)))"

text \<open>Cut at the last occurrence.\<close>

definition cut_last :: "char \<Rightarrow> string \<Rightarrow> (string \<times> string) option" where
  "cut_last d s =
     (case cut d (rev s) of (_, None) \<Rightarrow> None | (b, Some a) \<Rightarrow> Some (rev a, rev b))"

lemma cut_None: "d \<notin> set s \<Longrightarrow> cut d s = (s, None)"
  by (induction s) auto

lemma cut_app: "d \<notin> set a \<Longrightarrow> cut d (a @ d # b) = (a, Some b)"
  by (induction a) auto

lemma cut_Some: "cut d s = (a, Some b) \<longleftrightarrow> s = a @ d # b \<and> d \<notin> set a"
proof
  assume c: "cut d s = (a, Some b)"
  then have "d \<in> set s" using cut_None [of d s] by auto
  then obtain u v where "s = u @ d # v" "d \<notin> set u" by (meson split_list_first)
  with c cut_app [of d u v] show "s = a @ d # b \<and> d \<notin> set a" by simp
qed (simp add: cut_app)

lemma set_fst_cut: "set (fst (cut d s)) \<subseteq> set s"
  by (induction s) (auto simp: split_beta)

lemma cut_last_Some: "cut_last d s = Some (a, b) \<longleftrightarrow> s = a @ d # b \<and> d \<notin> set b"
proof -
  have "cut_last d s = Some (a, b) \<longleftrightarrow> cut d (rev s) = (rev b, Some (rev a))"
    by (cases "cut d (rev s)"; cases "snd (cut d (rev s))") (auto simp: cut_last_def)
  also have "\<dots> \<longleftrightarrow> rev s = rev b @ d # rev a \<and> d \<notin> set b"
    by (simp add: cut_Some)
  also have "rev s = rev b @ d # rev a \<longleftrightarrow> s = a @ d # b"
    by (metis append.assoc append_Cons append_Nil rev.simps(2) rev_append rev_rev_ident)
  finally show ?thesis .
qed

subsection \<open>Decimal numbers\<close>

text \<open>\<^verbatim>\<open>strconv.Atoi\<close>: an optional sign and decimal digits, within 64 bits.\<close>

fun dec_value :: "int \<Rightarrow> string \<Rightarrow> int option" where
  "dec_value acc [] = Some acc"
| "dec_value acc (c # s) = (if is_dec c then dec_value (acc * 10 + (byte_of c - 48)) s else None)"

definition atoi :: "string \<Rightarrow> int option" where
  "atoi s =
     (let (neg, digits) = (case s of
            c # t \<Rightarrow> if c = CHR ''-'' then (True, t) else if c = CHR ''+'' then (False, t) else (False, s)
          | [] \<Rightarrow> (False, s)) in
      if digits = [] then None
      else (case dec_value 0 digits of
          None \<Rightarrow> None
        | Some v \<Rightarrow>
            let n = (if neg then - v else v) in
            if - (2 ^ 63) \<le> n \<and> n \<le> 2 ^ 63 - 1 then Some n else None))"

text \<open>\<^verbatim>\<open>fmt.Sscanf\<close> with the format \<^verbatim>\<open>%d\<close> and a 64-bit target: white space but no line feed is skipped, and what
  follows the digits is ignored.\<close>

definition sscan_int :: "string \<Rightarrow> int go_result" where
  "sscan_int s =
     (let rest = trim_left_space s;
          signed = rest \<noteq> [] \<and> (hd rest = CHR ''-'' \<or> hd rest = CHR ''+'');
          body = (if signed then tl rest else rest);
          digits = takeWhile is_dec body;
          tok = (if signed then hd rest # digits else digits) in
      if char_of (10 :: nat) \<in> set (take (length s - length rest) s) then Inl ''unexpected newline''
      else if body = [] then Inl ''unexpected EOF''
      else if digits = [] then Inl ''expected integer''
      else (case atoi tok of
          None \<Rightarrow> Inl (''strconv.ParseInt: parsing '' @ quoted tok @ '': value out of range'')
        | Some n \<Rightarrow> Inr n))"

fun nat_digits :: "nat \<Rightarrow> string" where
  "nat_digits n =
     (if n < 10 then [char_of (48 + n)] else nat_digits (n div 10) @ [char_of (48 + n mod 10)])"

declare nat_digits.simps [simp del]

text \<open>\<^verbatim>\<open>strconv.Itoa\<close>, also \<^verbatim>\<open>%d\<close>.\<close>

definition itoa :: "int \<Rightarrow> string" where
  "itoa n = (if n < 0 then CHR ''-'' # nat_digits (nat (- n)) else nat_digits (nat n))"

lemma byte_of_digit: "n < 10 \<Longrightarrow> byte_of (char_of (48 + n :: nat)) = 48 + int n"
proof -
  assume "n < 10"
  then have "(of_char (char_of (48 + n :: nat)) :: nat) = 48 + n" by (simp add: of_char_of)
  then show ?thesis unfolding byte_of_def by (metis of_nat_of_char of_nat_add of_nat_numeral)
qed

lemma dec_value_append:
  "dec_value acc (s @ t) = (case dec_value acc s of None \<Rightarrow> None | Some v \<Rightarrow> dec_value v t)"
  by (induction s arbitrary: acc) simp_all

lemma dec_value_digits: "dec_value 0 (nat_digits n) = Some (int n)"
proof (induction n rule: nat_digits.induct)
  case (1 n)
  show ?case
  proof (cases "n < 10")
    case True
    then show ?thesis by (simp add: nat_digits.simps [of n] is_dec_def byte_of_digit)
  next
    case False
    with 1 have "dec_value 0 (nat_digits (n div 10)) = Some (int (n div 10))" by simp
    moreover have "int (n div 10) * 10 + int (n mod 10) = int n"
      by (metis div_mult_mod_eq of_nat_add of_nat_mult of_nat_numeral)
    ultimately show ?thesis
      using False byte_of_digit [of "n mod 10"]
      by (simp add: nat_digits.simps [of n] dec_value_append is_dec_def)
  qed
qed

lemma nat_digits_hd: "nat_digits n \<noteq> [] \<and> is_dec (hd (nat_digits n))"
proof (induction n rule: nat_digits.induct)
  case (1 n)
  then show ?case
    by (cases "n < 10") (simp_all add: nat_digits.simps [of n] is_dec_def byte_of_digit)
qed

text \<open>Numbers survive printing and parsing.\<close>

lemma atoi_itoa:
  assumes "- (2 ^ 63) \<le> n" "n \<le> 2 ^ 63 - 1"
  shows "atoi (itoa n) = Some n"
proof (cases "n < 0")
  case True
  with assms show ?thesis
    using nat_digits_hd [of "nat (- n)"]
    by (simp add: atoi_def itoa_def dec_value_digits Let_def)
next
  case False
  obtain c t where ct: "nat_digits (nat n) = c # t" "is_dec c"
    using nat_digits_hd [of "nat n"] by (cases "nat_digits (nat n)") auto
  then have "c \<noteq> CHR ''-''" "c \<noteq> CHR ''+''" by (auto simp: is_dec_def byte_of_def)
  with assms False ct dec_value_digits [of "nat n"] show ?thesis
    by (simp add: atoi_def itoa_def Let_def)
qed


subsection \<open>IP addresses\<close>

datatype ip = IPv4 "32 word" | IPv6 "128 word"

definition parse_octet :: "string \<Rightarrow> int option" where
  "parse_octet s =
     (if s = [] \<or> (hd s = CHR ''0'' \<and> 1 < length s) then None
      else (case dec_value 0 s of None \<Rightarrow> None | Some v \<Rightarrow> if v \<le> 255 then Some v else None))"

definition parse_v4 :: "string \<Rightarrow> int list option" where
  "parse_v4 s = (case map parse_octet (split_on CHR ''.'' s) of
      [Some a, Some b, Some c, Some d] \<Rightarrow> Some [a, b, c, d]
    | _ \<Rightarrow> None)"

fun hex_value :: "int \<Rightarrow> string \<Rightarrow> int" where
  "hex_value acc [] = acc"
| "hex_value acc (c # s) = hex_value (acc * 16 + hex_val c) s"

text \<open>The group loop of \<^verbatim>\<open>netip.ParseAddr\<close> for IPv6: the number of 16-bit groups still to
  fill, the rest of the text, the position of the ellipsis and the groups read.\<close>

primrec v6_groups :: "nat \<Rightarrow> string \<Rightarrow> nat option \<Rightarrow> int list \<Rightarrow> (int list \<times> nat option) option" where
  "v6_groups 0 s ell acc = (if s = [] then Some (acc, ell) else None)"
| "v6_groups (Suc k) s ell acc =
     (let hex = takeWhile is_hex s; rest = dropWhile is_hex s in
      if hex = [] \<or> 4 < length hex then None
      else if has_prefix rest ''.'' then
        (if (ell = None \<and> length acc \<noteq> 6) \<or> 6 < length acc then None
         else (case parse_v4 s of
             Some [a, b, c, d] \<Rightarrow> Some (acc @ [a * 256 + b, c * 256 + d], ell)
           | _ \<Rightarrow> None))
      else
        (let acc' = acc @ [hex_value 0 hex] in
         case rest of
           [] \<Rightarrow> Some (acc', ell)
         | c # s1 \<Rightarrow>
             if c \<noteq> CHR '':'' \<or> s1 = [] then None
             else if hd s1 = CHR '':'' then
               (if ell \<noteq> None then None
                else if tl s1 = [] then Some (acc', Some (length acc'))
                else v6_groups k (tl s1) (Some (length acc')) acc')
             else v6_groups k s1 ell acc'))"

definition v6_expand :: "int list \<times> nat option \<Rightarrow> int list option" where
  "v6_expand p = (case p of (gs, ell) \<Rightarrow>
     (case ell of
        None \<Rightarrow> if length gs = 8 then Some gs else None
      | Some i \<Rightarrow> if length gs < 8 then Some (take i gs @ replicate (8 - length gs) 0 @ drop i gs)
                   else None))"

definition parse_v6 :: "string \<Rightarrow> int list option" where
  "parse_v6 s =
     (if has_prefix s ''::'' then
        (if length s = 2 then Some (replicate 8 0)
         else Option.bind (v6_groups 8 (drop 2 s) (Some 0) []) v6_expand)
      else Option.bind (v6_groups 8 s None []) v6_expand)"

definition word_of_groups :: "int \<Rightarrow> int list \<Rightarrow> 'a::len word" where
  "word_of_groups base gs = word_of_int (foldl (\<lambda>acc g. acc * base + g) 0 gs)"

text \<open>\<^verbatim>\<open>netip.ParseAddr\<close> with its zone, decided by the first of \<^verbatim>\<open>. : %\<close> in the text.\<close>

definition parse_addr :: "string \<Rightarrow> (ip \<times> string) option" where
  "parse_addr s = (case find (\<lambda>c. c \<in> {CHR ''.'', CHR '':'', CHR ''%''}) s of
      None \<Rightarrow> None
    | Some c \<Rightarrow>
        if c = CHR ''.'' then map_option (\<lambda>bs. (IPv4 (word_of_groups 256 bs), [])) (parse_v4 s)
        else if c = CHR '':'' then
          (case cut CHR ''%'' s of
             (a, None) \<Rightarrow> map_option (\<lambda>gs. (IPv6 (word_of_groups 65536 gs), [])) (parse_v6 a)
           | (a, Some z) \<Rightarrow>
               if z = [] then None
               else map_option (\<lambda>gs. (IPv6 (word_of_groups 65536 gs), z)) (parse_v6 a))
        else None)"

text \<open>\<^verbatim>\<open>IP.To4\<close>: an IPv4-mapped address counts as its IPv4 address.\<close>

definition v4_mapped :: "128 word \<Rightarrow> bool" where
  "v4_mapped a \<longleftrightarrow> drop_bit 32 a = 0xffff"

fun to4 :: "ip \<Rightarrow> ip" where
  "to4 (IPv4 a) = IPv4 a"
| "to4 (IPv6 a) = (if v4_mapped a then IPv4 (ucast a) else IPv6 a)"

definition parse_ip :: "string \<Rightarrow> ip option" where
  "parse_ip s = (case parse_addr s of Some (a, []) \<Rightarrow> Some (to4 a) | _ \<Rightarrow> None)"

text \<open>\<^verbatim>\<open>net.IPNet\<close>: network number and prefix length.\<close>

datatype ipnet = Net4 "32 word" nat | Net6 "128 word" nat

definition prefix_mask :: "nat \<Rightarrow> nat \<Rightarrow> 'a::len word" where
  "prefix_mask width n = push_bit (width - n) (mask n)"

definition parse_cidr :: "string \<Rightarrow> ipnet option" where
  "parse_cidr s = (case cut CHR ''/'' s of
      (_, None) \<Rightarrow> None
    | (addr, Some m) \<Rightarrow>
        (case parse_addr addr of
           Some (IPv4 a, []) \<Rightarrow>
             (case (if m = [] then None else dec_value 0 m) of
                Some n \<Rightarrow> if n \<le> 32 then Some (Net4 (a AND prefix_mask 32 (nat n)) (nat n)) else None
              | None \<Rightarrow> None)
         | Some (IPv6 a, []) \<Rightarrow>
             (case (if m = [] then None else dec_value 0 m) of
                Some n \<Rightarrow> if n \<le> 128 then Some (Net6 (a AND prefix_mask 128 (nat n)) (nat n)) else None
              | None \<Rightarrow> None)
         | _ \<Rightarrow> None))"

text \<open>\<^verbatim>\<open>IPNet.Contains\<close>; an IPv6 network whose number is IPv4-mapped is compared as IPv4,
  with the last four bytes of its mask.\<close>

fun net_contains :: "ipnet \<Rightarrow> ip \<Rightarrow> bool" where
  "net_contains (Net4 nn n) a = (case to4 a of
      IPv4 x \<Rightarrow> nn AND prefix_mask 32 n = x AND prefix_mask 32 n
    | IPv6 _ \<Rightarrow> False)"
| "net_contains (Net6 nn n) a =
     (if v4_mapped nn then
        (case to4 a of
           IPv4 x \<Rightarrow> (let m = ucast (prefix_mask 128 n :: 128 word) in ucast nn AND m = x AND m)
         | IPv6 _ \<Rightarrow> False)
      else (case to4 a of
           IPv4 _ \<Rightarrow> False
         | IPv6 x \<Rightarrow> nn AND prefix_mask 128 n = x AND prefix_mask 128 n))"

subsection \<open>URLs\<close>

definition ctl_byte :: "char \<Rightarrow> bool" where
  "ctl_byte c \<longleftrightarrow> byte_of c < 32 \<or> byte_of c = 127"

text \<open>\<^verbatim>\<open>getScheme\<close>: the text before the first colon when it has the shape of a scheme,
  \<^term>\<open>None\<close> for the missing-scheme error.\<close>

fun scheme_scan :: "string \<Rightarrow> string \<Rightarrow> (string \<times> string) option" where
  "scheme_scan pre [] = Some ([], pre)"
| "scheme_scan pre (c # s) =
     (if is_alpha c then scheme_scan (pre @ [c]) s
      else if is_dec c \<or> c \<in> {CHR ''+'', CHR ''-'', CHR ''.''} then
        (if pre = [] then Some ([], c # s) else scheme_scan (pre @ [c]) s)
      else if c = CHR '':'' then (if pre = [] then None else Some (pre, s))
      else Some ([], pre @ c # s))"

definition bracket :: char where "bracket = CHR ''[''"

definition host_plain :: "char \<Rightarrow> bool" where
  "host_plain c \<longleftrightarrow> is_alpha c \<or> is_dec c \<or>
     c \<in> set (''!$&()*+,;=:[]<>-_.~'' @ [char_of (34::nat), char_of (39::nat)])"

datatype url_mode = Host_mode | Zone_mode | Other_mode

text \<open>\<^verbatim>\<open>unescape\<close> with its checks in the modes used here.\<close>

fun unescape :: "url_mode \<Rightarrow> string \<Rightarrow> string option" where
  "unescape m [] = Some []"
| "unescape m (c # s) =
     (if c = CHR ''%'' then
        (case s of
           a # b # t \<Rightarrow>
             (if \<not> is_hex a \<or> \<not> is_hex b then None
              else
                (let v = char_of (hex_val a * 16 + hex_val b); is25 = (a = CHR ''2'' \<and> b = CHR ''5'') in
                 if m = Host_mode \<and> hex_val a < 8 \<and> \<not> is25 then None
                 else if m = Zone_mode \<and> \<not> is25 \<and> v \<noteq> CHR '' '' \<and> \<not> host_plain v then None
                 else map_option ((#) v) (unescape m t)))
         | _ \<Rightarrow> None)
      else if m \<noteq> Other_mode \<and> byte_of c < 128 \<and> \<not> host_plain c then None
      else map_option ((#) c) (unescape m s))"

definition valid_optional_port :: "string \<Rightarrow> bool" where
  "valid_optional_port p \<longleftrightarrow> p = [] \<or> (hd p = CHR '':'' \<and> list_all is_dec (tl p))"

definition valid_userinfo :: "string \<Rightarrow> bool" where
  "valid_userinfo s \<longleftrightarrow> list_all (\<lambda>c. is_alpha c \<or> is_dec c \<or>
     c \<in> set (''-._:~!$&()*+,;=%@'' @ [char_of (39::nat)])) s"

definition parse_host :: "string \<Rightarrow> string \<Rightarrow> string option" where
  "parse_host scheme host = (case cut_last bracket host of
      Some (b # _, _) \<Rightarrow> None
    | Some ([], inside) \<Rightarrow>
        (case cut_last CHR '']'' inside of
           None \<Rightarrow> None
         | Some (name, port) \<Rightarrow>
             if \<not> valid_optional_port port then None
             else
               (case (case index_of name ''%25'' of
                        None \<Rightarrow> unescape Host_mode name
                      | Some z \<Rightarrow>
                          Option.bind (unescape Host_mode (take z name)) (\<lambda>h.
                            map_option (\<lambda>y. h @ y) (unescape Zone_mode (drop z name)))) of
                  None \<Rightarrow> None
                | Some h \<Rightarrow>
                    (case parse_addr h of
                       Some (IPv6 _, _) \<Rightarrow> Some (''['' @ h @ '']'' @ port)
                     | _ \<Rightarrow> None)))
    | None \<Rightarrow>
        (case (if scheme = ''http'' \<or> scheme = ''https''
               then (case cut CHR '':'' host of (_, None) \<Rightarrow> [] | (_, Some p) \<Rightarrow> CHR '':'' # p)
               else (case cut_last CHR '':'' host of None \<Rightarrow> [] | Some (_, p) \<Rightarrow> CHR '':'' # p)) of
           port \<Rightarrow> if valid_optional_port port then unescape Host_mode host else None))"

definition parse_authority :: "string \<Rightarrow> string \<Rightarrow> string option" where
  "parse_authority scheme auth = (case cut_last CHR ''@'' auth of
      None \<Rightarrow> parse_host scheme auth
    | Some (user, host) \<Rightarrow>
        (case parse_host scheme host of
           None \<Rightarrow> None
         | Some h \<Rightarrow> if valid_userinfo user \<and> unescape Other_mode user \<noteq> None then Some h else None))"

record url =
  url_scheme :: string
  url_opaque :: string
  url_host :: string

definition url_parse :: "string \<Rightarrow> url option" where
  "url_parse raw =
     (let (u, frag) = cut CHR ''#'' raw;
          frag_ok = (case frag of None \<Rightarrow> True | Some f \<Rightarrow> unescape Other_mode f \<noteq> None) in
      if list_ex ctl_byte u then None
      else if u = ''*'' then
        (if frag_ok then Some \<lparr>url_scheme = [], url_opaque = [], url_host = []\<rparr> else None)
      else (case scheme_scan [] u of
          None \<Rightarrow> None
        | Some (sch, rest0) \<Rightarrow>
            let scheme = to_lower sch;
                rest = fst (cut CHR ''?'' rest0) in
            if \<not> has_prefix rest ''/'' \<and> scheme \<noteq> [] then
              (if frag_ok then Some \<lparr>url_scheme = scheme, url_opaque = rest, url_host = []\<rparr> else None)
            else if \<not> has_prefix rest ''/'' \<and> contains_char (fst (cut CHR ''/'' rest)) CHR '':'' then None
            else if (scheme \<noteq> [] \<or> \<not> has_prefix rest ''///'') \<and> has_prefix rest ''//'' then
              (let (auth, path) = cut CHR ''/'' (drop 2 rest) in
               case parse_authority scheme auth of
                 None \<Rightarrow> None
               | Some h \<Rightarrow>
                   if (case path of None \<Rightarrow> True | Some p \<Rightarrow> unescape Other_mode p \<noteq> None) \<and> frag_ok
                   then Some \<lparr>url_scheme = scheme, url_opaque = [], url_host = h\<rparr> else None)
            else if unescape Other_mode rest \<noteq> None \<and> frag_ok
              then Some \<lparr>url_scheme = scheme, url_opaque = [], url_host = []\<rparr>
            else None))"

text \<open>\<^verbatim>\<open>URL.Hostname\<close>.\<close>

definition url_hostname :: "url \<Rightarrow> string" where
  "url_hostname u =
     (let h = (case cut_last CHR '':'' (url_host u) of
                 Some (a, p) \<Rightarrow> if valid_optional_port (CHR '':'' # p) then a else url_host u
               | None \<Rightarrow> url_host u) in
      if has_prefix h ''['' \<and> has_suffix h '']'' then butlast (tl h) else h)"


lemma cut_last_None: "d \<notin> set s \<Longrightarrow> cut_last d s = None"
  by (simp add: cut_last_def cut_None)

lemma unescape_plain:
  "list_all (\<lambda>c. c \<noteq> CHR ''%'' \<and> (m = Other_mode \<or> 128 \<le> byte_of c \<or> host_plain c)) s \<Longrightarrow>
     unescape m s = Some s"
  by (induction s) auto


subsection \<open>Host and port\<close>

text \<open>\<^verbatim>\<open>net.SplitHostPort\<close>; \<^term>\<open>None\<close> for its errors.\<close>

definition split_host_port :: "string \<Rightarrow> (string \<times> string) option" where
  "split_host_port hostport =
     (case cut_last CHR '':'' hostport of
        None \<Rightarrow> None
      | Some (before, port) \<Rightarrow>
          if has_prefix hostport [bracket] then
            (case cut CHR '']'' (tl hostport) of
               (_, None) \<Rightarrow> None
             | (inside, Some rest) \<Rightarrow>
                 if rest = CHR '':'' # port \<and> bracket \<notin> set inside \<and> bracket \<notin> set port \<and> CHR '']'' \<notin> set port
                 then Some (inside, port) else None)
          else if CHR '':'' \<in> set before \<or> bracket \<in> set hostport \<or> CHR '']'' \<in> set hostport then None
          else Some (before, port))"

lemma split_host_port_no_colon: "CHR '':'' \<notin> set s \<Longrightarrow> split_host_port s = None"
  by (simp add: split_host_port_def cut_last_None)

lemma split_host_port_plain:
  assumes "CHR '':'' \<notin> set h" "CHR '':'' \<notin> set p" "{bracket, CHR '']''} \<inter> set (h @ p) = {}"
  shows "split_host_port (h @ CHR '':'' # p) = Some (h, p)"
proof -
  have c: "cut_last CHR '':'' (h @ CHR '':'' # p) = Some (h, p)"
    using assms(2) by (simp add: cut_last_Some)
  have "\<not> has_prefix (h @ CHR '':'' # p) [bracket]"
    using assms(3) by (cases h) (auto simp: has_prefix_iff bracket_def)
  with assms show ?thesis by (auto simp: split_host_port_def c bracket_def)
qed

end
