(* ===== verification/Config.thy ===== *)
theory Config
  imports Complex_Main Safefile
begin

text \<open>
  \<^verbatim>\<open>internal/config\<close>: typed access to environment variables with fallbacks, secrets read
  from the environment or from a file below the secret root, and the scoring configuration of the
  analyser.  The process environment is a record of what the operating system provides: the value
  of a variable (empty when unset), the working directory and the content of a file opened below
  a root.  Go's \<^verbatim>\<open>int\<close> and \<^verbatim>\<open>time.Duration\<close> are 64-bit; the multiplication that
  turns a number into a duration wraps (\<open>wrap64\<close>).
\<close>

record os_env =
  getenv :: "string \<Rightarrow> string"
  os_cwd :: string
  os_open :: "string \<Rightarrow> string \<Rightarrow> string go_result"

definition wrap64 :: "int \<Rightarrow> int" where
  "wrap64 n = signed_take_bit 63 n"

definition millisecond :: int where "millisecond = 1000000"
definition second :: int where "second = 1000000000"

subsection \<open>env.go\<close>

definition env_string :: "os_env \<Rightarrow> string \<Rightarrow> string \<Rightarrow> string" where
  "env_string os key fallback = (let value = getenv os key in if value = [] then fallback else value)"

definition env_int :: "os_env \<Rightarrow> string \<Rightarrow> int \<Rightarrow> int" where
  "env_int os key fallback =
     (let value = getenv os key in
      if value = [] then fallback
      else (case atoi value of None \<Rightarrow> fallback | Some parsed \<Rightarrow> parsed))"

definition duration_millis :: "os_env \<Rightarrow> string \<Rightarrow> int \<Rightarrow> int" where
  "duration_millis os key fallback =
     (let value = getenv os key in
      if value = [] then fallback
      else (case atoi value of None \<Rightarrow> fallback | Some parsed \<Rightarrow> wrap64 (parsed * millisecond)))"

definition duration_seconds :: "os_env \<Rightarrow> string \<Rightarrow> int \<Rightarrow> int" where
  "duration_seconds os key fallback =
     (let value = getenv os key in
      if value = [] then fallback
      else (case atoi value of None \<Rightarrow> fallback | Some parsed \<Rightarrow> wrap64 (parsed * second)))"

text \<open>\<open>parse\<close> is \<^verbatim>\<open>strconv.ParseFloat\<close>, with its rounding and \<^term>\<open>None\<close> for an error; the special values it
  reads (infinities, \<^verbatim>\<open>NaN\<close>) are no reals and left out.  Where later theories take \<open>rate\<close>, it is this function
  of the environment.\<close>

definition env_float64 :: "(string \<Rightarrow> real option) \<Rightarrow> os_env \<Rightarrow> string \<Rightarrow> real \<Rightarrow> real" where
  "env_float64 parse os key fallback =
     (let value = getenv os key in
      if value = [] then fallback
      else (case parse value of None \<Rightarrow> fallback | Some parsed \<Rightarrow> parsed))"

definition env_bool :: "os_env \<Rightarrow> string \<Rightarrow> bool \<Rightarrow> bool" where
  "env_bool os key fallback =
     (let value = getenv os key in
      if value = [] then fallback
      else if value \<in> {''1'', ''true'', ''yes'', ''on''} then True
      else if value \<in> {''0'', ''false'', ''no'', ''off''} then False
      else fallback)"

definition environment :: "os_env \<Rightarrow> string" where
  "environment os =
     (let value = to_lower (trim_space (getenv os ''SAFE_ROAD_ENV'')) in
      if value = [] then ''local'' else value)"

definition secret_file_root :: "os_env \<Rightarrow> string" where
  "secret_file_root os = env_string os ''SAFE_ROAD_SECRET_FILE_ROOT'' ''./ops/secrets''"

definition feed_file_root :: "os_env \<Rightarrow> string" where
  "feed_file_root os = env_string os ''SAFE_ROAD_FEED_FILE_ROOT'' ''./data''"

definition config_file_root :: "os_env \<Rightarrow> string" where
  "config_file_root os = env_string os ''SAFE_ROAD_CONFIG_FILE_ROOT'' ''./data''"

definition is_production :: "os_env \<Rightarrow> bool" where
  "is_production os \<longleftrightarrow> environment os = ''production'' \<or> environment os = ''prod''"

definition secret_string_e :: "os_env \<Rightarrow> string \<Rightarrow> string go_result" where
  "secret_string_e os key =
     (let value = getenv os key in
      if value \<noteq> [] then Inr value
      else
        let fileKey = key @ ''_FILE'';
            filePath = trim_space (getenv os fileKey) in
        if filePath = [] then Inr []
        else (case read_file_within (os_cwd os) (os_open os) (secret_file_root os) filePath of
            Inl e \<Rightarrow> Inl (''read '' @ fileKey @ '' from '' @ filePath @ '': '' @ e)
          | Inr data \<Rightarrow> Inr (trim_space data)))"

definition secret_string :: "os_env \<Rightarrow> string \<Rightarrow> string \<Rightarrow> string" where
  "secret_string os key fallback =
     (case secret_string_e os key of
        Inl _ \<Rightarrow> fallback
      | Inr value \<Rightarrow> if value = [] then fallback else value)"

subsection \<open>analysis.go\<close>

record analysis_config =
  PunycodeScore :: int
  LongDomainLength :: int
  LongDomainScore :: int
  HyphenCountThreshold :: int
  HyphenScore :: int
  DigitRatioThreshold :: real
  DigitRatioScore :: int
  MixedScriptScore :: int
  Keywords :: "string list"
  KeywordBaseScore :: int
  KeywordMatchScore :: int
  KeywordMultipleBonus :: int
  BrandSpoofingScore :: int
  EntropyThreshold :: real
  EntropyScore :: int

definition default_keywords :: "string list" where
  "default_keywords =
     [''login'', ''secure'', ''verify'', ''account'', ''update'', ''support'', ''wallet'',
      ''dichvucong'', ''congan'', ''vneid'', ''phatnguoi'', ''xulyphat'', ''nganhang'',
      ''xacthuc'', ''cungcap'']"

definition default_analysis_config :: analysis_config where
  "default_analysis_config =
     \<lparr>PunycodeScore = 35, LongDomainLength = 24, LongDomainScore = 15, HyphenCountThreshold = 3,
      HyphenScore = 10, DigitRatioThreshold = 1 / 4, DigitRatioScore = 10, MixedScriptScore = 25,
      Keywords = default_keywords, KeywordBaseScore = 15, KeywordMatchScore = 10,
      KeywordMultipleBonus = 10, BrandSpoofingScore = 50, EntropyThreshold = 39 / 10,
      EntropyScore = 15\<rparr>"

text \<open>The JSON decoder is a parameter; a file that cannot be read or decoded gives the defaults.\<close>

definition load_analysis_config ::
  "os_env \<Rightarrow> (string \<Rightarrow> analysis_config go_result) \<Rightarrow> string \<Rightarrow> analysis_config" where
  "load_analysis_config os unmarshal path =
     (if path = [] then default_analysis_config
      else (case read_file_within (os_cwd os) (os_open os) (config_file_root os) path of
          Inl _ \<Rightarrow> default_analysis_config
        | Inr data \<Rightarrow>
            (case unmarshal data of
               Inl _ \<Rightarrow> default_analysis_config
             | Inr cfg \<Rightarrow> cfg)))"

definition get_keywords :: "analysis_config \<Rightarrow> string list" where
  "get_keywords c =
     (if Keywords c = [] then Keywords default_analysis_config else map to_lower (Keywords c))"

subsection \<open>Facts\<close>

lemma wrap64_id: "- (2 ^ 63) \<le> n \<Longrightarrow> n < 2 ^ 63 \<Longrightarrow> wrap64 n = n"
  by (simp add: wrap64_def signed_take_bit_int_eq_self)

lemma wrap64_range: "- (2 ^ 63) \<le> wrap64 n \<and> wrap64 n < 2 ^ 63"
  using signed_take_bit_int_greater_eq_minus_exp [of 63 n] signed_take_bit_int_less_exp [of 63 n]
  by (simp add: wrap64_def)

lemma get_keywords_nonempty: "get_keywords c \<noteq> []"
  by (simp add: get_keywords_def default_analysis_config_def default_keywords_def)

lemma default_keywords_lower: "map to_lower default_keywords = default_keywords"
  by (simp add: default_keywords_def to_lower_def lower_char_def byte_of_def)

lemma get_keywords_default [simp]: "get_keywords default_analysis_config = default_keywords"
  using default_keywords_lower
  by (simp add: get_keywords_def default_analysis_config_def)

end
