(* ===== verification/Edit_Distance.thy ===== *)
theory Edit_Distance
  imports Complex_Main Prelude
begin

text \<open>
  The one-column dynamic programme that \<^verbatim>\<open>LevenshteinDistance\<close> and
  \<^verbatim>\<open>WeightedLevenshteinDistance\<close> of \<^verbatim>\<open>internal/analysis/brand.go\<close> share, over any
  ordered ring and any substitution cost: \<open>edit_dp unit cost\<close>.  The reference is the cost of the
  cheapest alignment (\<open>align\<close>, a step-by-step reading of how one list is edited into the
  other).  \<open>edit_dp_least\<close> states that the programme computes that minimum, and
  \<open>unit_dp_least_steps\<close> that with unit costs it is the least number of single insertions,
  deletions and substitutions.
\<close>

subsection \<open>The programme\<close>

definition min3 :: "'a::linorder \<Rightarrow> 'a \<Rightarrow> 'a \<Rightarrow> 'a" where
  "min3 a b c = (if a < b then (if a < c then a else c) else if b < c then b else c)"

text \<open>The inner loop: \<open>left\<close> is \<^verbatim>\<open>column[y-1]\<close> as already overwritten, \<open>diag\<close> is
  \<^verbatim>\<open>lastkey\<close>.\<close>

fun edit_row ::
  "'a::linordered_idom \<Rightarrow> ('r \<Rightarrow> 'r \<Rightarrow> 'a) \<Rightarrow> 'r \<Rightarrow> 'r list \<Rightarrow> 'a list \<Rightarrow> 'a \<Rightarrow> 'a \<Rightarrow> 'a list" where
  "edit_row u c b (a # as) (old # olds) left diag =
     (let v = min3 (old + u) (left + u) (diag + c a b) in v # edit_row u c b as olds v old)"
| "edit_row u c b _ _ _ _ = []"

text \<open>One turn of the outer loop, on \<^verbatim>\<open>x\<close> and the column.\<close>

definition edit_column ::
  "'a::linordered_idom \<Rightarrow> ('r \<Rightarrow> 'r \<Rightarrow> 'a) \<Rightarrow> 'r list \<Rightarrow> 'a \<times> 'a list \<Rightarrow> 'r \<Rightarrow> 'a \<times> 'a list" where
  "edit_column u c r1 st b =
     (case st of (x, col) \<Rightarrow> (let x' = x + u in (x', x' # edit_row u c b r1 (tl col) x' x)))"

definition initial_column :: "'a::linordered_idom \<Rightarrow> 'r list \<Rightarrow> 'a list" where
  "initial_column u r1 = 0 # map (\<lambda>y. of_nat y * u) [1..<Suc (length r1)]"

definition edit_dp :: "'a::linordered_idom \<Rightarrow> ('r \<Rightarrow> 'r \<Rightarrow> 'a) \<Rightarrow> 'r list \<Rightarrow> 'r list \<Rightarrow> 'a" where
  "edit_dp u c r1 r2 =
     (if r1 = [] then of_nat (length r2) * u
      else if r2 = [] then of_nat (length r1) * u
      else last (snd (foldl (edit_column u c r1) (0, initial_column u r1) r2)))"

subsection \<open>The reference\<close>

inductive align :: "'a::linordered_idom \<Rightarrow> ('r \<Rightarrow> 'r \<Rightarrow> 'a) \<Rightarrow> 'r list \<Rightarrow> 'r list \<Rightarrow> 'a \<Rightarrow> bool"
  for u :: "'a::linordered_idom" and c :: "'r \<Rightarrow> 'r \<Rightarrow> 'a" where
  align_nil: "align u c [] [] 0"
| align_del: "align u c xs ys k \<Longrightarrow> align u c (x # xs) ys (k + u)"
| align_ins: "align u c xs ys k \<Longrightarrow> align u c xs (y # ys) (k + u)"
| align_sub: "align u c xs ys k \<Longrightarrow> align u c (x # xs) (y # ys) (k + c x y)"

inductive_cases align_ConsE: "align u c xs (y # ys) k"

fun ed :: "'a::linordered_idom \<Rightarrow> ('r \<Rightarrow> 'r \<Rightarrow> 'a) \<Rightarrow> 'r list \<Rightarrow> 'r list \<Rightarrow> 'a" where
  "ed u c [] ys = of_nat (length ys) * u"
| "ed u c (x # xs) [] = of_nat (Suc (length xs)) * u"
| "ed u c (x # xs) (y # ys) =
     min (ed u c xs (y # ys) + u) (min (ed u c (x # xs) ys + u) (ed u c xs ys + c x y))"

lemma min3_min: "min3 a b c = min a (min b c)"
  by (auto simp: min3_def min_def)

lemma ed_Nil2 [simp]: "ed u c xs [] = of_nat (length xs) * u"
  by (cases xs) auto

lemma align_dels: "align u c xs [] (of_nat (length xs) * u)"
  by (induction xs) (auto simp: algebra_simps intro: align_nil dest: align_del)

lemma align_inss: "align u c [] ys (of_nat (length ys) * u)"
  by (induction ys) (auto simp: algebra_simps intro: align_nil dest: align_ins)

lemma ed_align: "align u c xs ys (ed u c xs ys)"
proof (induction u c xs ys rule: ed.induct)
  case (2 u c x xs)
  show ?case using align_dels [of u c "x # xs"] by simp
next
  case (3 u c x xs y ys)
  then show ?case
    by (auto simp: min_def intro: align_del align_ins align_sub)
qed (simp add: align_inss)

lemma ed_least: "align u c xs ys k \<Longrightarrow> ed u c xs ys \<le> k"
proof (induction rule: align.induct)
  case (align_del xs ys k x)
  then show ?case
    by (cases ys) (auto simp: algebra_simps intro: min.coboundedI1)
next
  case (align_ins xs ys k y)
  then show ?case
    by (cases xs) (auto simp: algebra_simps intro: min.coboundedI2 min.coboundedI1)
next
  case (align_sub xs ys k x y)
  then show ?case by (auto intro: min.coboundedI2)
qed simp

lemma align_append: "align u c xs ys k \<Longrightarrow> align u c us vs l \<Longrightarrow> align u c (xs @ us) (ys @ vs) (k + l)"
proof (induction rule: align.induct)
  case (align_del xs ys k x)
  then show ?case using align.align_del [of u c "xs @ us" "ys @ vs" "k + l" x] by (simp add: add_ac)
next
  case (align_ins xs ys k y)
  then show ?case using align.align_ins [of u c "xs @ us" "ys @ vs" "k + l" y] by (simp add: add_ac)
next
  case (align_sub xs ys k x y)
  then show ?case using align.align_sub [of u c "xs @ us" "ys @ vs" "k + l" x y] by (simp add: add_ac)
qed simp

lemma align_one:
  "align u c [x] [] u" "align u c [] [y] u" "align u c [x] [y] (c x y)"
  using align_del [OF align_nil, of u c x] align_ins [OF align_nil, of u c y]
    align_sub [OF align_nil, of u c x y] by simp_all

lemma align_rev: "align u c xs ys k \<Longrightarrow> align u c (rev xs) (rev ys) k"
proof (induction rule: align.induct)
  case (align_del xs ys k x)
  then show ?case using align_append [OF align_del(2) align_one(1) [of u c x]] by simp
next
  case (align_ins xs ys k y)
  then show ?case using align_append [OF align_ins(2) align_one(2) [of u c y]] by simp
next
  case (align_sub xs ys k x y)
  then show ?case using align_append [OF align_sub(2) align_one(3) [of u c x y]] by simp
qed (simp add: align_nil)

lemma ed_rev: "ed u c (rev xs) (rev ys) = ed u c xs ys"
proof (rule antisym)
  show "ed u c (rev xs) (rev ys) \<le> ed u c xs ys"
    by (rule ed_least [OF align_rev [OF ed_align]])
  show "ed u c xs ys \<le> ed u c (rev xs) (rev ys)"
    using ed_least [OF align_rev [OF ed_align [of u c "rev xs" "rev ys"]]] by simp
qed

subsection \<open>The programme computes the reference\<close>

text \<open>The column after reading the prefix \<open>q\<close> of the second list, from row \<open>p\<close> on.\<close>

definition ped :: "'a::linordered_idom \<Rightarrow> ('r \<Rightarrow> 'r \<Rightarrow> 'a) \<Rightarrow> 'r list \<Rightarrow> 'r list \<Rightarrow> 'a" where
  "ped u c p q = ed u c (rev p) (rev q)"

primrec cells :: "'a::linordered_idom \<Rightarrow> ('r \<Rightarrow> 'r \<Rightarrow> 'a) \<Rightarrow> 'r list \<Rightarrow> 'r list \<Rightarrow> 'r list \<Rightarrow> 'a list" where
  "cells u c q p [] = []"
| "cells u c q p (a # as) = ped u c (p @ [a]) q # cells u c q (p @ [a]) as"

lemma ped_simps:
  "ped u c [] q = of_nat (length q) * u"
  "ped u c p [] = of_nat (length p) * u"
  "ped u c (p @ [a]) (q @ [b]) =
     min3 (ped u c (p @ [a]) q + u) (ped u c p (q @ [b]) + u) (ped u c p q + c a b)"
  by (simp_all add: ped_def min3_min min.left_commute)

lemma edit_row_cells:
  "edit_row u c b as (cells u c q p as) (ped u c p (q @ [b])) (ped u c p q)
     = cells u c (q @ [b]) p as"
proof (induction as arbitrary: p)
  case (Cons a as)
  show ?case using Cons [of "p @ [a]"] by (simp add: Let_def ped_simps)
qed simp

lemma last_cells: "last (ped u c p q # cells u c q p as) = ped u c (p @ as) q"
  by (induction as arbitrary: p) auto

lemma initial_cells:
  "cells u c [] p as = map (\<lambda>y. of_nat y * u) [Suc (length p)..<Suc (length p + length as)]"
proof (induction as arbitrary: p)
  case (Cons a as)
  have "[Suc (length p)..<Suc (length p + length (a # as))] =
      Suc (length p) # [Suc (length (p @ [a]))..<Suc (length (p @ [a]) + length as)]"
    by (simp add: upt_conv_Cons del: upt_Suc)
  with Cons [of "p @ [a]"] show ?case by (simp add: ped_simps del: upt_Suc)
qed simp

lemma foldl_edit_column:
  "foldl (edit_column u c r1) (of_nat (length q) * u, of_nat (length q) * u # cells u c q [] r1) r2 =
     (of_nat (length (q @ r2)) * u, of_nat (length (q @ r2)) * u # cells u c (q @ r2) [] r1)"
proof (induction r2 arbitrary: q)
  case (Cons b r2)
  have "edit_column u c r1 (of_nat (length q) * u, of_nat (length q) * u # cells u c q [] r1) b =
      (of_nat (length (q @ [b])) * u, of_nat (length (q @ [b])) * u # cells u c (q @ [b]) [] r1)"
    using edit_row_cells [of u c b r1 q "[]"]
    by (simp add: edit_column_def Let_def ped_simps algebra_simps)
  with Cons [of "q @ [b]"] show ?case by simp
qed simp

theorem edit_dp_ed: "edit_dp u c r1 r2 = ed u c r1 r2"
proof -
  have "last (snd (foldl (edit_column u c r1) (0, initial_column u r1) r2)) = ped u c r1 r2"
    using foldl_edit_column [of u c r1 "[]" r2] last_cells [of u c "[]" r2 r1]
      initial_cells [of u c "[]" r1]
    by (simp add: initial_column_def ped_simps del: upt_Suc)
  then show ?thesis by (auto simp: edit_dp_def ped_def ed_rev)
qed

text \<open>The value is the cost of the cheapest alignment.\<close>

theorem edit_dp_least:
  "align u c r1 r2 (edit_dp u c r1 r2) \<and> (\<forall>k. align u c r1 r2 k \<longrightarrow> edit_dp u c r1 r2 \<le> k)"
  by (simp add: edit_dp_ed ed_align ed_least)

subsection \<open>Bounds\<close>

lemma ed_commute: "ed u (\<lambda>a b. c b a) ys xs = ed u c xs ys"
  by (induction u c xs ys rule: ed.induct) (auto simp: min.left_commute)

lemma ed_mono: "(\<And>a b. c a b \<le> d a b) \<Longrightarrow> ed u c xs ys \<le> ed u d xs ys"
  by (induction u c xs ys rule: ed.induct) (auto simp: min_le_iff_disj intro: add_mono)

lemma ed_nonneg: "0 \<le> u \<Longrightarrow> (\<And>a b. 0 \<le> c a b) \<Longrightarrow> 0 \<le> ed u c xs ys"
  by (induction u c xs ys rule: ed.induct) auto

lemma ed_length_diff:
  assumes "0 \<le> u" "\<And>a b. 0 \<le> c a b"
  shows "of_nat (length ys) * u \<le> ed u c xs ys + of_nat (length xs) * u"
  using assms
proof (induction u c xs ys rule: ed.induct)
  case (3 u c x xs y ys)
  have "of_nat (length ys) * u \<le> ed u c xs ys + of_nat (length xs) * u" using 3 by blast
  then have "of_nat (length ys) * u \<le> ed u c xs ys + c x y + of_nat (length xs) * u"
    using 3(5) [of x y] by (metis add.commute add_increasing add.assoc)
  with 3 show ?case by (auto simp: algebra_simps min_def)
qed (auto simp: algebra_simps)

lemma ed_eq_0:
  assumes "0 < u" "\<And>a b. 0 \<le> c a b" "\<And>a b. c a b = 0 \<longleftrightarrow> a = b"
  shows "ed u c xs ys = 0 \<longleftrightarrow> xs = ys"
  using assms
proof (induction u c xs ys rule: ed.induct)
  case (1 u c ys)
  then show ?case by auto
next
  case (2 u c x xs)
  have "0 < (of_nat (Suc (length xs)) :: 'a)" by (simp only: of_nat_0_less_iff)
  then have "0 < of_nat (Suc (length xs)) * u" using 2(1) by (rule mult_pos_pos)
  then have "of_nat (Suc (length xs)) * u \<noteq> 0" by (rule less_imp_neq [symmetric])
  then show ?case by (simp only: ed.simps list.distinct simp_thms)
next
  case (3 u c x xs y ys)
  have nn: "0 \<le> ed u c xs (y # ys)" "0 \<le> ed u c (x # xs) ys" "0 \<le> ed u c xs ys" "0 \<le> c x y"
    using 3 ed_nonneg by (metis less_imp_le)+
  then have "ed u c (x # xs) (y # ys) = 0 \<longleftrightarrow> ed u c xs ys = 0 \<and> c x y = 0"
    using 3(4) by (auto simp: min_def add_nonneg_eq_0_iff)
  with 3 show ?case by auto
qed

lemma ed_upper:
  assumes "0 \<le> u" "\<And>a b. c a b \<le> u"
  shows "ed u c xs ys \<le> of_nat (max (length xs) (length ys)) * u"
  using assms
proof (induction u c xs ys rule: ed.induct)
  case (3 u c x xs y ys)
  have "ed u c (x # xs) (y # ys) \<le> ed u c xs ys + c x y" by simp
  also have "\<dots> \<le> of_nat (max (length xs) (length ys)) * u + u"
    using 3 by (intro add_mono) auto
  finally show ?case by (simp add: algebra_simps)
qed simp_all

text \<open>The programme commutes with an order-preserving additive map, such as halving.\<close>

lemma ed_hom:
  fixes h :: "'a::linordered_idom \<Rightarrow> 'b::linordered_idom"
  assumes add: "\<And>a b. h (a + b) = h a + h b" and mono: "mono h"
    and unit: "h u = v" and cost: "\<And>a b. h (c a b) = d a b"
  shows "h (ed u c xs ys) = ed v d xs ys"
proof -
  have h0: "h 0 = 0" using add [of 0 0] by simp
  have mult: "h (of_nat n * u) = of_nat n * v" for n
    by (induction n) (simp_all add: h0 add unit distrib_right)
  have hmin: "h (min a b) = min (h a) (h b)" for a b
    using mono by (auto simp: min_def mono_def antisym)
  show ?thesis
    using unit cost mult
  proof (induction u c xs ys rule: ed.induct)
    case (1 u c ys)
    show ?case by (simp only: ed.simps 1(3))
  next
    case (2 u c x xs)
    show ?case by (simp only: ed.simps 2(3))
  next
    case (3 u c x xs y ys)
    show ?case by (simp only: ed.simps hmin add 3(4,5) 3(1-3) [OF 3(4,5,6)])
  qed
qed

subsection \<open>Single edits\<close>

text \<open>One insertion, deletion or substitution.\<close>

inductive edit1 :: "'r list \<Rightarrow> 'r list \<Rightarrow> bool" where
  edit1_del: "edit1 (p @ a # s) (p @ s)"
| edit1_ins: "edit1 (p @ s) (p @ a # s)"
| edit1_sub: "edit1 (p @ a # s) (p @ b # s)"

definition unit_cost :: "'r \<Rightarrow> 'r \<Rightarrow> int" where
  "unit_cost a b = (if a = b then 0 else 1)"

lemma unit_cost_simps [simp]: "unit_cost a a = 0" "a \<noteq> b \<Longrightarrow> unit_cost a b = 1"
  by (simp_all add: unit_cost_def)

lemma unit_cost_range: "0 \<le> unit_cost a b" "unit_cost a b \<le> 1"
  by (simp_all add: unit_cost_def)

lemma edit1_Cons: "edit1 xs ys \<Longrightarrow> edit1 (x # xs) (x # ys)"
  by (induction rule: edit1.induct) (metis append_Cons edit1.intros)+

lemma edits_Cons: "(edit1 ^^ n) xs ys \<Longrightarrow> (edit1 ^^ n) (x # xs) (x # ys)"
  by (induction n arbitrary: ys) (auto intro: edit1_Cons)

text \<open>An alignment is a sequence of single edits.\<close>

lemma align_edits:
  "align 1 unit_cost xs ys k \<Longrightarrow> 0 \<le> k \<and> (\<exists>n \<le> nat k. (edit1 ^^ n) xs ys)"
proof (induction rule: align.induct)
  case align_nil
  show ?case by (auto intro: exI [of _ 0])
next
  case (align_del xs ys k x)
  then obtain n where n: "n \<le> nat k" "(edit1 ^^ n) xs ys" by blast
  then have "(edit1 ^^ Suc n) (x # xs) ys"
    using edit1_del [of "[]" x xs] by (metis append_Nil relpowp_Suc_I2)
  with n align_del show ?case by (intro conjI exI [of _ "Suc n"]) auto
next
  case (align_ins xs ys k y)
  then obtain n where n: "n \<le> nat k" "(edit1 ^^ n) xs ys" by blast
  then have "(edit1 ^^ Suc n) xs (y # ys)"
    using edit1_ins [of "[]" ys y] by (metis append_Nil relpowp_Suc_I)
  with n align_ins show ?case by (intro conjI exI [of _ "Suc n"]) auto
next
  case (align_sub xs ys k x y)
  then obtain n where n: "n \<le> nat k" "(edit1 ^^ n) (x # xs) (x # ys)" by (blast intro: edits_Cons)
  show ?case
  proof (cases "x = y")
    case True
    with n align_sub show ?thesis by (auto simp: unit_cost_def)
  next
    case False
    from n have "(edit1 ^^ Suc n) (x # xs) (y # ys)"
      using edit1_sub [of "[]" x ys y] by (metis append_Nil relpowp_Suc_I)
    with n align_sub False show ?thesis
      by (intro conjI exI [of _ "Suc n"]) (auto simp: unit_cost_def)
  qed
qed

text \<open>One more edit costs an alignment at most one unit.\<close>

lemma align_split:
  "align u c xs zs k \<Longrightarrow> zs = p @ s \<Longrightarrow>
     \<exists>xs1 xs2 k1 k2. xs = xs1 @ xs2 \<and> align u c xs1 p k1 \<and> align u c xs2 s k2 \<and> k = k1 + k2"
proof (induction arbitrary: p rule: align.induct)
  case align_nil
  then show ?case
    by (intro exI [of _ "[]"] exI [of _ 0]) (auto intro: align.align_nil)
next
  case (align_del xs ys k x)
  then obtain xs1 xs2 k1 k2 where
    "xs = xs1 @ xs2" "align u c xs1 p k1" "align u c xs2 s k2" "k = k1 + k2" by blast
  then show ?case
    by (intro exI [of _ "x # xs1"] exI [of _ xs2] exI [of _ "k1 + u"] exI [of _ k2])
       (auto intro: align.align_del)
next
  case (align_ins xs ys k y)
  show ?case
  proof (cases p)
    case Nil
    with align_ins show ?thesis
      by (intro exI [of _ "[]"] exI [of _ xs] exI [of _ 0] exI [of _ "k + u"])
         (auto intro: align.intros)
  next
    case (Cons a p')
    with align_ins obtain xs1 xs2 k1 k2 where
      "xs = xs1 @ xs2" "align u c xs1 p' k1" "align u c xs2 s k2" "k = k1 + k2" by fastforce
    with Cons align_ins.prems show ?thesis
      by (intro exI [of _ xs1] exI [of _ xs2] exI [of _ "k1 + u"] exI [of _ k2])
         (auto intro: align.align_ins)
  qed
next
  case (align_sub xs ys k x y)
  show ?case
  proof (cases p)
    case Nil
    with align_sub show ?thesis
      by (intro exI [of _ "[]"] exI [of _ "x # xs"] exI [of _ 0] exI [of _ "k + c x y"])
         (auto intro: align.intros)
  next
    case (Cons a p')
    with align_sub obtain xs1 xs2 k1 k2 where
      "xs = xs1 @ xs2" "align u c xs1 p' k1" "align u c xs2 s k2" "k = k1 + k2" by fastforce
    with Cons align_sub.prems show ?thesis
      by (intro exI [of _ "x # xs1"] exI [of _ xs2] exI [of _ "k1 + c x y"] exI [of _ k2])
         (auto intro: align.align_sub)
  qed
qed

lemma align_drop_hd:
  "align 1 unit_cost xs zs k \<Longrightarrow> zs = a # s \<Longrightarrow> \<exists>l \<le> k + 1. align 1 unit_cost xs s l"
proof (induction rule: align.induct)
  case (align_del xs ys k x)
  then obtain l where "l \<le> k + 1" "align 1 unit_cost xs s l" by blast
  then show ?case using align.align_del [of 1 unit_cost xs s l x]
    by (intro exI [of _ "l + 1"]) simp
next
  case (align_ins xs ys k y)
  then show ?case by (intro exI [of _ k]) auto
next
  case (align_sub xs ys k x y)
  then have "align 1 unit_cost (x # xs) s (k + 1)" by (auto intro: align.align_del)
  then show ?case using unit_cost_range [of x y] by (intro exI [of _ "k + 1"]) simp
qed simp

lemma align_change_hd:
  "align 1 unit_cost xs zs k \<Longrightarrow> zs = a # s \<Longrightarrow> \<exists>l \<le> k + 1. align 1 unit_cost xs (b # s) l"
proof (induction rule: align.induct)
  case (align_del xs ys k x)
  then obtain l where "l \<le> k + 1" "align 1 unit_cost xs (b # s) l" by blast
  then show ?case using align.align_del [of 1 unit_cost xs "b # s" l x]
    by (intro exI [of _ "l + 1"]) simp
next
  case (align_ins xs ys k y)
  then show ?case using align.align_ins [of 1 unit_cost xs s k b]
    by (intro exI [of _ "k + 1"]) simp
next
  case (align_sub xs ys k x y)
  then have "align 1 unit_cost (x # xs) (b # s) (k + unit_cost x b)" by (auto intro: align.align_sub)
  then show ?case
    using unit_cost_range [of x y] unit_cost_range [of x b]
    by (intro exI [of _ "k + unit_cost x b"]) simp
qed simp

lemma align_edit1:
  assumes "align 1 unit_cost xs ys k" "edit1 ys zs"
  shows "\<exists>l \<le> k + 1. align 1 unit_cost xs zs l"
  using assms(2)
proof cases
  case (edit1_del p a s)
  with align_split [OF assms(1), of p "a # s"] obtain xs1 xs2 k1 k2 where
    sp: "xs = xs1 @ xs2" "align 1 unit_cost xs1 p k1" "align 1 unit_cost xs2 (a # s) k2" "k = k1 + k2"
    by blast
  obtain l where "l \<le> k2 + 1" "align 1 unit_cost xs2 s l"
    using align_drop_hd [OF sp(3) refl] by blast
  moreover from this sp(2) have "align 1 unit_cost xs zs (k1 + l)"
    unfolding sp(1) edit1_del(2) by (intro align_append)
  ultimately show ?thesis using sp(4) by (intro exI [of _ "k1 + l"]) simp
next
  case (edit1_ins p s a)
  with align_split [OF assms(1), of p s] obtain xs1 xs2 k1 k2 where
    sp: "xs = xs1 @ xs2" "align 1 unit_cost xs1 p k1" "align 1 unit_cost xs2 s k2" "k = k1 + k2"
    by blast
  then have "align 1 unit_cost xs zs (k1 + (k2 + 1))"
    unfolding sp(1) edit1_ins(2) by (intro align_append align_ins)
  with sp(4) show ?thesis by (intro exI [of _ "k1 + (k2 + 1)"]) simp
next
  case (edit1_sub p a s b)
  with align_split [OF assms(1), of p "a # s"] obtain xs1 xs2 k1 k2 where
    sp: "xs = xs1 @ xs2" "align 1 unit_cost xs1 p k1" "align 1 unit_cost xs2 (a # s) k2" "k = k1 + k2"
    by blast
  obtain l where "l \<le> k2 + 1" "align 1 unit_cost xs2 (b # s) l"
    using align_change_hd [OF sp(3) refl, of b] by blast
  moreover from this sp(2) have "align 1 unit_cost xs zs (k1 + l)"
    unfolding sp(1) edit1_sub(2) by (intro align_append)
  ultimately show ?thesis using sp(4) by (intro exI [of _ "k1 + l"]) simp
qed

lemma align_same: "align 1 unit_cost xs xs 0"
proof (induction xs)
  case (Cons x xs)
  then show ?case using align_sub [of 1 unit_cost xs xs 0 x x] by simp
qed (rule align_nil)

lemma edits_align: "(edit1 ^^ n) xs ys \<Longrightarrow> \<exists>l \<le> int n. align 1 unit_cost xs ys l"
proof (induction n arbitrary: ys)
  case 0
  then show ?case using align_same by auto
next
  case (Suc n)
  then obtain zs where "(edit1 ^^ n) xs zs" "edit1 zs ys" by auto
  with Suc.IH obtain l where "l \<le> int n" "align 1 unit_cost xs zs l" by blast
  with align_edit1 [of xs zs l ys] \<open>edit1 zs ys\<close> obtain m where
    "m \<le> l + 1" "align 1 unit_cost xs ys m" by blast
  with \<open>l \<le> int n\<close> show ?case by (intro exI [of _ m]) simp
qed

theorem unit_dp_least_steps:
  "\<exists>n. edit_dp 1 unit_cost xs ys = int n \<and> (edit1 ^^ n) xs ys \<and> (\<forall>m. (edit1 ^^ m) xs ys \<longrightarrow> n \<le> m)"
proof -
  let ?d = "ed 1 unit_cost xs ys"
  obtain n where d: "0 \<le> ?d" and n: "n \<le> nat ?d" "(edit1 ^^ n) xs ys"
    using align_edits [OF ed_align [of 1 unit_cost xs ys]] by blast
  have least: "?d \<le> int m" if "(edit1 ^^ m) xs ys" for m
    using edits_align [OF that] ed_least by (metis order_trans)
  from least [OF n(2)] n(1) d have "?d = int n" by linarith
  with n(2) least show ?thesis by (auto simp: edit_dp_ed)
qed

end
