(* ===== verification/Brand.thy ===== *)
theory Brand
  imports Config Edit_Distance
begin

text \<open>
  \<^verbatim>\<open>internal/analysis/brand.go\<close>: the table of trusted brands, the two edit distances, the
  Shannon entropy of a label, the registrable part of a domain, and the search for brand spoofing.
  A Go \<^verbatim>\<open>(bool, string, int)\<close> result is an option of reason and penalty.  Conversion from
  punycode (\<^verbatim>\<open>golang.org/x/net/idna\<close>, not under \<^verbatim>\<open>src/\<close>) is the parameter
  \<open>to_unicode\<close>, \<^term>\<open>None\<close> standing for its error.  \<^verbatim>\<open>float64\<close> values are reals; the
  distances take only multiples of one half, which a float holds exactly.
\<close>

subsection \<open>Tables\<close>

record brand =
  brand_name :: string
  official_domain :: string
  alt_domains :: "string list"

definition mk_brand :: "string \<Rightarrow> string \<Rightarrow> string list \<Rightarrow> brand" where
  "mk_brand n d alts = \<lparr>brand_name = n, official_domain = d, alt_domains = alts\<rparr>"

definition trusted_brands :: "brand list" where
  "trusted_brands =
     [mk_brand ''google'' ''google.com'' [''google.com.vn'', ''google.co.uk'', ''google.com.sg''],
      mk_brand ''binance'' ''binance.com'' [''binance.us'', ''binance.info''],
      mk_brand ''paypal'' ''paypal.com'' [''paypal.me''],
      mk_brand ''facebook'' ''facebook.com'' [''fb.com'', ''messenger.com''],
      mk_brand ''apple'' ''apple.com'' [''icloud.com''],
      mk_brand ''microsoft'' ''microsoft.com'' [''live.com'', ''outlook.com'', ''office.com''],
      mk_brand ''amazon'' ''amazon.com'' [], mk_brand ''netflix'' ''netflix.com'' [],
      mk_brand ''instagram'' ''instagram.com'' [],
      mk_brand ''twitter'' ''twitter.com'' [''x.com''],
      mk_brand ''metamask'' ''metamask.io'' [], mk_brand ''coinbase'' ''coinbase.com'' [],
      mk_brand ''trustwallet'' ''trustwallet.com'' [], mk_brand ''yahoo'' ''yahoo.com'' [],
      mk_brand ''linkedin'' ''linkedin.com'' [],
      mk_brand ''chinhphu'' ''chinhphu.vn'' [''chinhphu.gov.vn''],
      mk_brand ''bocongan'' ''bocongan.gov.vn'' [''mps.gov.vn''],
      mk_brand ''baohiemxahoi'' ''baohiemxahoi.gov.vn'' [''bhxh.gov.vn''],
      mk_brand ''vtv'' ''vtv.vn'' [],
      mk_brand ''vietcombank'' ''vietcombank.com.vn'' [''vietcombank.com''],
      mk_brand ''techcombank'' ''techcombank.com.vn'' [''techcombank.com''],
      mk_brand ''bidv'' ''bidv.com.vn'' [''bidv.com''],
      mk_brand ''vietinbank'' ''vietinbank.vn'' [''vietinbank.co.vn''],
      mk_brand ''mbbank'' ''mbbank.com.vn'' [''mbbank.com''],
      mk_brand ''agribank'' ''agribank.com.vn'' [''agribank.com''],
      mk_brand ''vpbank'' ''vpbank.com.vn'' [''vpbank.com''],
      mk_brand ''acb'' ''acb.com.vn'' [''acb.com''],
      mk_brand ''sacombank'' ''sacombank.com.vn'' [''sacombank.com''],
      mk_brand ''tpbank'' ''tpb.vn'' [''tpbank.com.vn''], mk_brand ''vib'' ''vib.com.vn'' [],
      mk_brand ''hdbank'' ''hdbank.com.vn'' [], mk_brand ''shb'' ''shb.com.vn'' [],
      mk_brand ''scb'' ''scb.com.vn'' []]"

text \<open>\<^verbatim>\<open>homoglyphMap\<close>, by code point.\<close>

definition homoglyph_map :: "(rune \<times> rune) list" where
  "homoglyph_map =
     [(1072, 97), (1073, 98), (1089, 99), (1281, 100), (1077, 101), (102, 102), (103, 103),
      (1211, 104), (1110, 105), (1112, 106), (107, 107), (108, 108), (109, 109), (1087, 110),
      (1086, 111), (1088, 112), (113, 113), (1075, 114), (1109, 115), (1090, 116), (965, 117),
      (1141, 118), (1309, 119), (1093, 120), (1091, 121), (122, 122), (1040, 97), (1042, 98),
      (1057, 99), (1045, 101), (1053, 104), (1030, 105), (1032, 106), (1050, 107),
      (1052, 109), (1054, 111), (1056, 112), (1029, 115), (1058, 116), (1061, 120),
      (1198, 121), (945, 97), (946, 98), (949, 101), (953, 105), (954, 107), (959, 111),
      (961, 112), (964, 116), (967, 120)]"

definition keyboard_adjacency :: "(rune \<times> string) list" where
  "keyboard_adjacency =
     [(97, ''qwsz''), (98, ''vghn''), (99, ''xdfv''), (100, ''ersfxc''), (101, ''wsdr34''),
      (102, ''rtgvcd''), (103, ''tyhbvf''), (104, ''yujnbg''), (105, ''ujko89''),
      (106, ''uikmnh''), (107, ''ijlm09''), (108, ''okp''), (109, ''njk''), (110, ''bhjm''),
      (111, ''iklp90''), (112, ''ol0''), (113, ''w12a''), (114, ''edft45''),
      (115, ''wedxza''), (116, ''rfgy56''), (117, ''yhji78''), (118, ''cfgb''),
      (119, ''qase23''), (120, ''zsdc''), (121, ''tghu67''), (122, ''asx'')]"

definition suspicious_tlds :: "string list" where
  "suspicious_tlds =
     [''xyz'', ''top'', ''cc'', ''info'', ''work'', ''club'', ''fit'', ''vip'', ''cf'',
      ''gq'', ''ga'', ''ml'', ''tk'', ''icu'', ''asia'', ''buzz'', ''bid'']"

subsection \<open>Distances and entropy\<close>

definition levenshtein_distance :: "string \<Rightarrow> string \<Rightarrow> int" where
  "levenshtein_distance s1 s2 = edit_dp 1 unit_cost (runes s1) (runes s2)"

definition adjacent_to :: "rune \<Rightarrow> rune \<Rightarrow> bool" where
  "adjacent_to a b \<longleftrightarrow> (case map_of keyboard_adjacency a of
      None \<Rightarrow> False
    | Some adj \<Rightarrow> b \<in> byte_of ` set adj)"

definition weighted_cost :: "rune \<Rightarrow> rune \<Rightarrow> real" where
  "weighted_cost c1 c2 =
     (if c1 = c2 then 0
      else
        let c1Low = lower_rune c1; c2Low = lower_rune c2 in
        if adjacent_to c1Low c2Low then 1 / 2
        else if adjacent_to c2Low c1Low then 1 / 2
        else 1)"

definition weighted_levenshtein_distance :: "string \<Rightarrow> string \<Rightarrow> real" where
  "weighted_levenshtein_distance s1 s2 = edit_dp 1 weighted_cost (runes s1) (runes s2)"

text \<open>The rune counts over the number of bytes, summed over the distinct runes.\<close>

definition shannon_entropy :: "string \<Rightarrow> real" where
  "shannon_entropy s =
     (if s = [] then 0
      else \<Sum>r\<leftarrow>remdups (runes s).
             (let p = real (count_list (runes s) r) / real (length s) in - (p * log 2 p)))"

subsection \<open>Parts of a domain\<close>

definition double_tlds :: "string list" where
  "double_tlds = [''com'', ''co'', ''net'', ''org'', ''gov'', ''edu'', ''ac'']"

definition get_root_domain :: "string \<Rightarrow> string" where
  "get_root_domain d0 =
     (let domain = to_lower (trim_space d0); parts = split_on CHR ''.'' domain in
      if length parts \<le> 2 then domain
      else (case rev parts of
          lastPart # secondLast # thirdLast # _ \<Rightarrow>
            (if secondLast \<in> set double_tlds \<and> length lastPart = 2
             then thirdLast @ ''.'' @ secondLast @ ''.'' @ lastPart
             else secondLast @ ''.'' @ lastPart)
        | _ \<Rightarrow> domain))"

definition get_main_label :: "string \<Rightarrow> string" where
  "get_main_label domain = hd (split_on CHR ''.'' (get_root_domain domain))"

definition is_vietnam_government_root :: "string \<Rightarrow> bool" where
  "is_vietnam_government_root rootDomain \<longleftrightarrow>
     (let r = to_lower (trim_space rootDomain) in r = ''gov.vn'' \<or> has_suffix r ''.gov.vn'')"

definition to_skeleton :: "string \<Rightarrow> string" where
  "to_skeleton s =
     encode_runes (map (\<lambda>r. case map_of homoglyph_map r of Some m \<Rightarrow> m | None \<Rightarrow> r) (runes s))"

subsection \<open>\<^verbatim>\<open>CheckBrandSpoofing\<close>\<close>

text \<open>What the loop over the brands reads.\<close>

record spoof_input =
  sp_labels :: "string list"
  sp_skeleton_labels :: "string list"
  sp_root :: string
  sp_skeleton_root :: string
  sp_homoglyph :: bool
  sp_bad_tld :: bool
  sp_score :: int

definition is_official :: "string \<Rightarrow> brand \<Rightarrow> bool" where
  "is_official rootDomain b \<longleftrightarrow> rootDomain = official_domain b \<or> rootDomain \<in> set (alt_domains b)"

definition skip_label :: "string list \<Rightarrow> string \<Rightarrow> bool" where
  "skip_label labels label \<longleftrightarrow>
     (1 < length labels \<and> label = labels ! (length labels - 1)) \<or>
     (2 < length labels \<and> label = labels ! (length labels - 2) \<and> label \<in> set double_tlds)"

definition sk_label :: "spoof_input \<Rightarrow> nat \<Rightarrow> string \<Rightarrow> string" where
  "sk_label sp i label =
     (if i < length (sp_skeleton_labels sp) then sp_skeleton_labels sp ! i else label)"

definition tld_penalty :: "spoof_input \<Rightarrow> int \<Rightarrow> int" where
  "tld_penalty sp base = (if sp_bad_tld sp then base + 20 else base)"

definition label_spoof :: "spoof_input \<Rightarrow> brand \<Rightarrow> string \<Rightarrow> string \<Rightarrow> string option" where
  "label_spoof sp b label sk =
     (let name = brand_name b in
      if min (length name) (length sk) < 4 then None
      else if sk = name \<and> label \<noteq> name \<and> sp_homoglyph sp
        then Some (''homoglyph visual spoofing of '' @ name @ '' brand ('' @ label @ '')'')
      else if 0 < weighted_levenshtein_distance sk name \<and> weighted_levenshtein_distance sk name \<le> 3 / 2
        then Some ((if sk \<noteq> label then ''homoglyph keyboard typosquatting of ''
                    else ''keyboard typosquatting of '') @ name @ '' brand ('' @ label @ '')'')
      else if 0 < levenshtein_distance sk name \<and> levenshtein_distance sk name \<le> 2
        then Some (''typosquatting of '' @ name @ '' brand ('' @ label @ '')'')
      else None)"

definition typosquat :: "spoof_input \<Rightarrow> brand \<Rightarrow> nat \<times> string \<Rightarrow> (string \<times> int) option" where
  "typosquat sp b il =
     (case il of (i, label) \<Rightarrow>
       if skip_label (sp_labels sp) label then None
       else map_option (\<lambda>reason. (reason, tld_penalty sp (sp_score sp)))
              (label_spoof sp b label (sk_label sp i label)))"

definition subdomain_abuse :: "spoof_input \<Rightarrow> brand \<Rightarrow> nat \<times> string \<Rightarrow> (string \<times> int) option" where
  "subdomain_abuse sp b il =
     (case il of (i, label) \<Rightarrow>
       (let sk = sk_label sp i label;
            rootPartsCount = length (split_on CHR ''.'' (sp_root sp)) in
        if i + rootPartsCount < length (sp_labels sp) \<and>
           (label = brand_name b \<or> contains label (brand_name b) \<or>
            sk = brand_name b \<or> contains sk (brand_name b))
        then Some (''suspicious brand subdomain usage ('' @ brand_name b @ '')'',
                   tld_penalty sp (sp_score sp - 10))
        else None))"

definition check_brand :: "spoof_input \<Rightarrow> brand \<Rightarrow> (string \<times> int) option" where
  "check_brand sp b =
     (if is_official (sp_root sp) b then None
      else (case first_some (typosquat sp b) (List.enumerate 0 (sp_labels sp)) of
          Some r \<Rightarrow> Some r
        | None \<Rightarrow>
            if contains (sp_root sp) (brand_name b) \<or> contains (sp_skeleton_root sp) (brand_name b)
            then Some (''suspicious usage of trusted brand keyword ('' @ brand_name b @ '')'',
                       tld_penalty sp (sp_score sp))
            else first_some (subdomain_abuse sp b) (List.enumerate 0 (sp_labels sp))))"

definition spoof_input_of :: "(string \<Rightarrow> string option) \<Rightarrow> string \<Rightarrow> int \<Rightarrow> spoof_input" where
  "spoof_input_of to_unicode domain score =
     (let unicodeDomain = (case to_unicode domain of None \<Rightarrow> domain | Some u \<Rightarrow> u);
          rootDomain = get_root_domain domain;
          rootParts = split_on CHR ''.'' rootDomain;
          tld = (if 1 < length rootParts then last rootParts else []) in
      \<lparr>sp_labels = split_on CHR ''.'' domain,
       sp_skeleton_labels = split_on CHR ''.'' (to_skeleton unicodeDomain),
       sp_root = rootDomain,
       sp_skeleton_root = to_skeleton (get_root_domain unicodeDomain),
       sp_homoglyph = (to_skeleton unicodeDomain \<noteq> unicodeDomain),
       sp_bad_tld = (tld \<in> set suspicious_tlds),
       sp_score = score\<rparr>)"

definition check_brand_spoofing ::
  "(string \<Rightarrow> string option) \<Rightarrow> string \<Rightarrow> int \<Rightarrow> (string \<times> int) option" where
  "check_brand_spoofing to_unicode d0 score =
     (let domain = to_lower (trim_space d0) in
      if domain = [] then None
      else if is_vietnam_government_root (get_root_domain domain) then None
      else first_some (check_brand (spoof_input_of to_unicode domain score)) trusted_brands)"


subsection \<open>The distances\<close>

lemma weighted_cost_range: "0 \<le> weighted_cost a b" "weighted_cost a b \<le> 1"
  by (auto simp: weighted_cost_def Let_def)

lemma weighted_cost_0: "weighted_cost a b = 0 \<longleftrightarrow> a = b"
  by (auto simp: weighted_cost_def Let_def)

lemma weighted_cost_commute: "weighted_cost a b = weighted_cost b a"
  by (auto simp: weighted_cost_def Let_def)

lemma unit_as_real: "real_of_int (edit_dp 1 unit_cost xs ys) = ed 1 (\<lambda>a b. if a = b then 0 else 1) xs ys"
  unfolding edit_dp_ed
  by (rule ed_hom) (auto simp: mono_def unit_cost_def)

lemma twice_weighted: "2 * ed 1 weighted_cost xs ys = ed 2 (\<lambda>a b. 2 * weighted_cost a b) xs ys"
  by (rule ed_hom [of "\<lambda>k. 2 * k"]) (auto simp: mono_def)

lemma ed_mono_unit:
  fixes u v :: "'a::linordered_idom"
  shows "u \<le> v \<Longrightarrow> (\<And>a b. c a b \<le> d a b) \<Longrightarrow> ed u c xs ys \<le> ed v d xs ys"
  by (induction v d xs ys rule: ed.induct)
     (auto simp: min_le_iff_disj mult_right_mono algebra_simps intro: add_mono)

text \<open>C26. \<^verbatim>\<open>LevenshteinDistance\<close> computes what its comment promises: the least number of
  single-rune insertions, deletions and substitutions that turn one string into the other.\<close>

theorem levenshtein_is_edit_distance:
  "\<exists>n. levenshtein_distance s t = int n \<and> (edit1 ^^ n) (runes s) (runes t) \<and>
       (\<forall>m. (edit1 ^^ m) (runes s) (runes t) \<longrightarrow> n \<le> m)"
  unfolding levenshtein_distance_def by (rule unit_dp_least_steps)

theorem levenshtein_is_edit_distance_witness:
  "\<exists>n. levenshtein_distance ''ab'' ''b'' = int n \<and> (edit1 ^^ n) (runes ''ab'') (runes ''b'')"
  using levenshtein_is_edit_distance [of "''ab''" "''b''"] by blast

text \<open>The keyboard-weighted distance is the cost of the cheapest alignment, lies between half the
  plain distance and the plain distance, is symmetric, and is 0 only on equal rune sequences.\<close>

lemma weighted_levenshtein_bounds:
  "align 1 weighted_cost (runes s) (runes t) (weighted_levenshtein_distance s t) \<and>
   (\<forall>k. align 1 weighted_cost (runes s) (runes t) k \<longrightarrow> weighted_levenshtein_distance s t \<le> k) \<and>
   of_int (levenshtein_distance s t) / 2 \<le> weighted_levenshtein_distance s t \<and>
   weighted_levenshtein_distance s t \<le> of_int (levenshtein_distance s t) \<and>
   weighted_levenshtein_distance s t = weighted_levenshtein_distance t s \<and>
   (weighted_levenshtein_distance s t = 0 \<longleftrightarrow> runes s = runes t)"
proof (intro conjI allI impI)
  let ?x = "runes s" and ?y = "runes t"
  show "align 1 weighted_cost ?x ?y (weighted_levenshtein_distance s t)"
    by (simp add: weighted_levenshtein_distance_def edit_dp_least)
  show "align 1 weighted_cost ?x ?y k \<Longrightarrow> weighted_levenshtein_distance s t \<le> k" for k
    by (simp add: weighted_levenshtein_distance_def edit_dp_least)
  have "ed 1 (\<lambda>a b. if a = b then 0 else 1) ?x ?y \<le> ed 2 (\<lambda>a b. 2 * weighted_cost a b) ?x ?y"
    by (rule ed_mono_unit) (auto simp: weighted_cost_def Let_def)
  then show "of_int (levenshtein_distance s t) / 2 \<le> weighted_levenshtein_distance s t"
    by (simp add: weighted_levenshtein_distance_def levenshtein_distance_def edit_dp_ed
        unit_as_real [unfolded edit_dp_ed] flip: twice_weighted)
  have "ed 1 weighted_cost ?x ?y \<le> ed 1 (\<lambda>a b. if a = b then 0 else 1) ?x ?y"
    by (rule ed_mono) (auto simp: weighted_cost_def Let_def)
  then show "weighted_levenshtein_distance s t \<le> of_int (levenshtein_distance s t)"
    by (simp add: weighted_levenshtein_distance_def levenshtein_distance_def unit_as_real edit_dp_ed
        unit_as_real [unfolded edit_dp_ed])
  have "(\<lambda>a b. weighted_cost b a) = weighted_cost"
    using weighted_cost_commute by blast
  then show "weighted_levenshtein_distance s t = weighted_levenshtein_distance t s"
    using ed_commute [of 1 weighted_cost ?y ?x]
    by (simp add: weighted_levenshtein_distance_def edit_dp_ed)
  show "weighted_levenshtein_distance s t = 0 \<longleftrightarrow> ?x = ?y"
    unfolding weighted_levenshtein_distance_def edit_dp_ed
    by (rule ed_eq_0) (auto simp: weighted_cost_range weighted_cost_0)
qed

lemma weighted_levenshtein_bounds_witness:
  "weighted_levenshtein_distance ''goohle'' ''google'' \<le> of_int (levenshtein_distance ''goohle'' ''google'')"
  using weighted_levenshtein_bounds [of "''goohle''" "''google''"] by blast

lemma levenshtein_0: "levenshtein_distance s t = 0 \<longleftrightarrow> runes s = runes t"
  unfolding levenshtein_distance_def edit_dp_ed
  by (rule ed_eq_0) (auto simp: unit_cost_def)

lemma levenshtein_nonneg: "0 \<le> levenshtein_distance s t"
  unfolding levenshtein_distance_def edit_dp_ed
  by (rule ed_nonneg) (auto simp: unit_cost_def)

lemma weighted_nonneg: "0 \<le> weighted_levenshtein_distance s t"
  unfolding weighted_levenshtein_distance_def edit_dp_ed
  by (rule ed_nonneg) (auto simp: weighted_cost_range)

lemma weighted_0: "weighted_levenshtein_distance s t = 0 \<longleftrightarrow> runes s = runes t"
  unfolding weighted_levenshtein_distance_def edit_dp_ed
  by (rule ed_eq_0) (auto simp: weighted_cost_range weighted_cost_0)

subsection \<open>Entropy\<close>

lemma entropy_term:
  assumes "0 < n" "1 \<le> c" "c \<le> n"
  defines "p \<equiv> real c / real n"
  shows "0 \<le> - (p * log 2 p) \<and> - (p * log 2 p) \<le> p * log 2 (real n)"
proof -
  have p: "0 < p" "p \<le> 1" "1 / real n \<le> p"
    using assms by (auto simp: divide_right_mono)
  then have "log 2 p \<le> 0" by simp
  moreover have "- log 2 (real n) \<le> log 2 p"
    using p assms(1) by (metis log_le_cancel_iff log_recip inverse_eq_divide one_less_numeral_iff
        semiring_norm(76) zero_less_divide_1_iff of_nat_0_less_iff)
  ultimately show ?thesis
    using p by (auto simp: mult_nonneg_nonpos mult_left_mono simp flip: mult_minus_right)
qed

lemma entropy_bounds:
  "0 \<le> shannon_entropy s \<and> (s \<noteq> [] \<longrightarrow> shannon_entropy s \<le> log 2 (real (length s)))"
proof (cases "s = []")
  case False
  let ?n = "length s" and ?R = "set (runes s)"
  let ?p = "\<lambda>r. real (count_list (runes s) r) / real ?n"
  have H: "shannon_entropy s = (\<Sum>r \<in> ?R. - (?p r * log 2 (?p r)))"
    using False by (simp add: shannon_entropy_def Let_def sum_list_distinct_conv_sum_set)
  have cnt: "1 \<le> count_list (runes s) r \<and> count_list (runes s) r \<le> ?n" if "r \<in> ?R" for r
  proof -
    have "count_list (runes s) r \<noteq> 0" using that by (simp add: count_list_0_iff)
    then show ?thesis using count_le_length [of "runes s" r] length_runes [of s] by linarith
  qed
  have t: "0 \<le> - (?p r * log 2 (?p r)) \<and> - (?p r * log 2 (?p r)) \<le> ?p r * log 2 (real ?n)"
    if "r \<in> ?R" for r
    using entropy_term [of ?n "count_list (runes s) r"] cnt [OF that] False by simp
  have "(\<Sum>r \<in> ?R. ?p r) = real (length (runes s)) / real ?n"
    by (simp add: sum_count_set flip: sum_divide_distrib of_nat_sum)
  also have "\<dots> \<le> 1" using length_runes [of s] False by simp
  finally have "(\<Sum>r \<in> ?R. ?p r) * log 2 (real ?n) \<le> 1 * log 2 (real ?n)"
    using False by (intro mult_right_mono) (auto simp: Suc_leI)
  moreover have "shannon_entropy s \<le> (\<Sum>r \<in> ?R. ?p r * log 2 (real ?n))"
    unfolding H using t by (intro sum_mono) blast
  moreover have "0 \<le> shannon_entropy s"
    unfolding H using t by (intro sum_nonneg) blast
  ultimately show ?thesis by (simp add: sum_distrib_right)
qed (simp add: shannon_entropy_def)

text \<open>The entropy of a label is never negative and at most the binary logarithm of its length in
  bytes, so a label of fewer than 15 bytes never reaches the default threshold of 3.9 although the
  analyser tests labels from 8 bytes on.\<close>

lemma shannon_entropy_bounds:
  "0 \<le> shannon_entropy s \<and> (s \<noteq> [] \<longrightarrow> shannon_entropy s \<le> log 2 (real (length s)))"
  by (rule entropy_bounds)

lemma shannon_entropy_bounds_witness:
  "shannon_entropy ''ab'' \<le> log 2 (real (length ''ab''))"
  using shannon_entropy_bounds [of "''ab''"] by blast

subsection \<open>Skeletons and roots\<close>

lemma homoglyph_range: "map_of homoglyph_map r = Some m \<Longrightarrow> 97 \<le> m \<and> m \<le> 122"
proof -
  assume "map_of homoglyph_map r = Some m"
  then have "(r, m) \<in> set homoglyph_map" by (rule map_of_SomeD)
  moreover have "\<forall>(r, m) \<in> set homoglyph_map. 97 \<le> m \<and> m \<le> 122"
    by (simp add: homoglyph_map_def)
  ultimately show ?thesis by blast
qed

lemma homoglyph_ascii: "r < 128 \<Longrightarrow> map_of homoglyph_map r = Some m \<Longrightarrow> m = r"
proof -
  assume r: "r < 128" "map_of homoglyph_map r = Some m"
  then have "(r, m) \<in> set homoglyph_map" by (blast dest: map_of_SomeD)
  moreover have "\<forall>(r, m) \<in> set homoglyph_map. r < 128 \<longrightarrow> m = r"
    by (simp add: homoglyph_map_def)
  ultimately show ?thesis using r by blast
qed

lemma to_skeleton_ascii: "is_ascii s \<Longrightarrow> to_skeleton s = s"
proof -
  assume a: "is_ascii s"
  have "map (\<lambda>r. case map_of homoglyph_map r of Some m \<Rightarrow> m | None \<Rightarrow> r) (map byte_of s) = map byte_of s"
    using a by (auto simp: is_ascii_def list_all_iff split: option.splits dest: homoglyph_ascii)
  with a show ?thesis by (simp add: to_skeleton_def runes_ascii encode_runes_ascii del: map_map)
qed

definition plain_domain :: "string \<Rightarrow> bool" where
  "plain_domain d \<longleftrightarrow> is_ascii d \<and> upper_free d \<and> list_all (\<lambda>c. \<not> ascii_space c) d"

lemma plain_domain_norm: "plain_domain d \<Longrightarrow> to_lower (trim_space d) = d"
  by (simp add: plain_domain_def trim_space_id to_lower_id)

lemma root_join:
  assumes "plain_domain d" "length (split_on CHR ''.'' d) > 2"
  shows "\<exists>us vs. split_on CHR ''.'' d = us @ vs \<and> length vs \<in> {2, 3} \<and>
           get_root_domain d = join_with ''.'' vs \<and>
           (length vs = 3 \<longrightarrow> vs ! 1 \<in> set double_tlds \<and> length (vs ! 2) = 2)"
proof -
  obtain a b c ps where ps: "rev (split_on CHR ''.'' d) = c # b # a # ps"
    using length_ge3 [of "rev (split_on CHR ''.'' d)"] assms(2) by auto
  then have sp: "split_on CHR ''.'' d = (rev ps @ [a]) @ [b, c]"
    using arg_cong [OF ps, of rev] by simp
  show ?thesis
  proof (cases "b \<in> set double_tlds \<and> length c = 2")
    case True
    with ps sp assms show ?thesis
      by (intro exI [of _ "rev ps"] exI [of _ "[a, b, c]"])
         (simp add: get_root_domain_def plain_domain_norm Let_def)
  next
    case False
    with ps sp assms show ?thesis
      by (intro exI [of _ "rev ps @ [a]"] exI [of _ "[b, c]"])
         (simp add: get_root_domain_def plain_domain_norm Let_def)
  qed
qed

lemma plain_domain_sub: "plain_domain d \<Longrightarrow> set x \<subseteq> set d \<Longrightarrow> plain_domain x"
  by (auto simp: plain_domain_def is_ascii_def upper_free_def list_all_iff)

lemma get_root_domain_short:
  "plain_domain d \<Longrightarrow> length (split_on CHR ''.'' d) \<le> 2 \<Longrightarrow> get_root_domain d = d"
  by (simp add: get_root_domain_def plain_domain_norm Let_def)

text \<open>On a normalised ASCII domain the registrable part is the domain itself or what follows one
  of its dots, and extracting it again changes nothing.\<close>

lemma get_root_domain_parent:
  assumes "plain_domain d"
  shows "get_root_domain d \<in> set (parent_names d) \<and>
         get_root_domain (get_root_domain d) = get_root_domain d"
proof (cases "length (split_on CHR ''.'' d) \<le> 2")
  case True
  with assms show ?thesis by (simp add: get_root_domain_short)
next
  case False
  then obtain us vs where sp: "split_on CHR ''.'' d = us @ vs" and len: "length vs \<in> {2, 3}"
    and root: "get_root_domain d = join_with ''.'' vs"
    and three: "length vs = 3 \<longrightarrow> vs ! 1 \<in> set double_tlds \<and> length (vs ! 2) = 2"
    using root_join [OF assms] by auto
  have ne: "vs \<noteq> []" using len by auto
  have par: "get_root_domain d \<in> set (parent_names d)"
    unfolding parent_names_def name_suffixes_iff using sp ne root by auto
  have nodot: "\<forall>w \<in> set vs. CHR ''.'' \<notin> set w"
    using split_on_parts [of _ "CHR ''.''" d] sp by auto
  have sp2: "split_on CHR ''.'' (get_root_domain d) = vs"
    unfolding root using split_join [OF ne nodot] by simp
  have "set (get_root_domain d) \<subseteq> set d"
    using par by (rule parent_names_subset)
  with assms have pl: "plain_domain (get_root_domain d)" by (rule plain_domain_sub)
  have "get_root_domain (get_root_domain d) = get_root_domain d"
  proof (cases "length vs = 2")
    case True
    with sp2 pl show ?thesis by (simp add: get_root_domain_short)
  next
    case False
    with len obtain a b c where vs: "vs = [a, b, c]"
      by (auto simp: numeral_3_eq_3 length_Suc_conv)
    with three sp2 pl show ?thesis
      by (simp add: get_root_domain_def [of "get_root_domain d"] plain_domain_norm Let_def)
         (simp add: root vs)
  qed
  with par show ?thesis by blast
qed

lemma get_root_domain_parent_witness:
  "get_root_domain ''x.google.com.vn'' \<in> set (parent_names ''x.google.com.vn'') \<and>
   get_root_domain (get_root_domain ''x.google.com.vn'') = get_root_domain ''x.google.com.vn''"
  by (rule get_root_domain_parent)
     (simp add: plain_domain_def upper_free_def ascii_space_def byte_of_def)

subsection \<open>What is flagged\<close>

text \<open>The evidence one brand can give, stated without the loops.\<close>

definition near_brand :: "spoof_input \<Rightarrow> brand \<Rightarrow> string \<Rightarrow> string \<Rightarrow> bool" where
  "near_brand sp b label sk \<longleftrightarrow>
     4 \<le> length (brand_name b) \<and> 4 \<le> length sk \<and>
     ((sk = brand_name b \<and> label \<noteq> brand_name b \<and> sp_homoglyph sp) \<or>
      (runes sk \<noteq> runes (brand_name b) \<and>
       (weighted_levenshtein_distance sk (brand_name b) \<le> 3 / 2 \<or>
        levenshtein_distance sk (brand_name b) \<le> 2)))"

definition brand_evidence :: "spoof_input \<Rightarrow> brand \<Rightarrow> bool" where
  "brand_evidence sp b \<longleftrightarrow>
     (\<exists>i < length (sp_labels sp). \<not> skip_label (sp_labels sp) (sp_labels sp ! i) \<and>
        near_brand sp b (sp_labels sp ! i) (sk_label sp i (sp_labels sp ! i))) \<or>
     contains (sp_root sp) (brand_name b) \<or> contains (sp_skeleton_root sp) (brand_name b) \<or>
     (\<exists>i. i + length (split_on CHR ''.'' (sp_root sp)) < length (sp_labels sp) \<and>
        (contains (sp_labels sp ! i) (brand_name b) \<or>
         contains (sk_label sp i (sp_labels sp ! i)) (brand_name b)))"

lemma label_spoof_iff: "label_spoof sp b label sk \<noteq> None \<longleftrightarrow> near_brand sp b label sk"
  using weighted_nonneg [of sk "brand_name b"] levenshtein_nonneg [of sk "brand_name b"]
    weighted_0 [of sk "brand_name b"] levenshtein_0 [of sk "brand_name b"]
  by (auto simp: label_spoof_def near_brand_def Let_def)

lemma enumerate_All:
  "(\<forall>p \<in> set (List.enumerate 0 xs). P p) \<longleftrightarrow> (\<forall>i < length xs. P (i, xs ! i))"
  by (auto simp: in_set_enumerate_eq)

lemma check_brand_iff:
  "check_brand sp b \<noteq> None \<longleftrightarrow> \<not> is_official (sp_root sp) b \<and> brand_evidence sp b"
proof -
  have "first_some (typosquat sp b) (List.enumerate 0 (sp_labels sp)) = None \<longleftrightarrow>
      (\<forall>i < length (sp_labels sp). \<not> (\<not> skip_label (sp_labels sp) (sp_labels sp ! i) \<and>
         near_brand sp b (sp_labels sp ! i) (sk_label sp i (sp_labels sp ! i))))"
    unfolding first_some_None enumerate_All label_spoof_iff [symmetric]
    by (auto simp: typosquat_def)
  moreover have "first_some (subdomain_abuse sp b) (List.enumerate 0 (sp_labels sp)) = None \<longleftrightarrow>
      \<not> (\<exists>i. i + length (split_on CHR ''.'' (sp_root sp)) < length (sp_labels sp) \<and>
        (contains (sp_labels sp ! i) (brand_name b) \<or>
         contains (sk_label sp i (sp_labels sp ! i)) (brand_name b)))"
    unfolding first_some_None enumerate_All
    by (auto simp: subdomain_abuse_def Let_def)
  ultimately show ?thesis
    by (cases "first_some (typosquat sp b) (List.enumerate 0 (sp_labels sp)) = None";
        cases "first_some (subdomain_abuse sp b) (List.enumerate 0 (sp_labels sp)) = None")
       (unfold check_brand_def brand_evidence_def, force+)
qed

lemma spoofing_found:
  "check_brand_spoofing to_unicode d score \<noteq> None \<longleftrightarrow>
     to_lower (trim_space d) \<noteq> [] \<and>
     \<not> is_vietnam_government_root (get_root_domain (to_lower (trim_space d))) \<and>
     (\<exists>b \<in> set trusted_brands.
        \<not> is_official (get_root_domain (to_lower (trim_space d))) b \<and>
        brand_evidence (spoof_input_of to_unicode (to_lower (trim_space d)) score) b)"
proof -
  have root: "sp_root (spoof_input_of to_unicode x score) = get_root_domain x" for x
    by (simp add: spoof_input_of_def Let_def)
  have "first_some (check_brand sp) bs \<noteq> None \<longleftrightarrow>
      (\<exists>b \<in> set bs. \<not> is_official (sp_root sp) b \<and> brand_evidence sp b)" for sp bs
    unfolding first_some_None check_brand_iff [symmetric] by simp
  then show ?thesis by (simp add: check_brand_spoofing_def Let_def root)
qed

text \<open>C27. A domain is flagged exactly when it is not empty, its root is not below \<^verbatim>\<open>gov.vn\<close>, and some
  trusted brand that does not own the root has a label within the distance limits, its name inside
  the root, or its name inside a label in front of the root.\<close>

theorem check_brand_spoofing_iff:
  "check_brand_spoofing to_unicode d score \<noteq> None \<longleftrightarrow>
     to_lower (trim_space d) \<noteq> [] \<and>
     \<not> is_vietnam_government_root (get_root_domain (to_lower (trim_space d))) \<and>
     (\<exists>b \<in> set trusted_brands.
        \<not> is_official (get_root_domain (to_lower (trim_space d))) b \<and>
        brand_evidence (spoof_input_of to_unicode (to_lower (trim_space d)) score) b)"
  by (rule spoofing_found)

lemma spoofing_penalty:
  assumes "check_brand_spoofing to_unicode d score = Some (reason, penalty)"
  shows "penalty \<in> {score, score - 10, score + 20, score + 10}"
proof -
  have sc: "sp_score (spoof_input_of to_unicode x score) = score" for x
    by (simp add: spoof_input_of_def Let_def)
  have one: "p \<in> {sp_score sp, sp_score sp - 10, sp_score sp + 20, sp_score sp + 10}"
    if "check_brand sp b = Some (r, p)" for sp b r p
    using that
    by (auto simp: check_brand_def typosquat_def subdomain_abuse_def tld_penalty_def Let_def
        first_some_Some_split split: option.splits if_splits)
  show ?thesis
    using assms one [of "spoof_input_of to_unicode (to_lower (trim_space d)) score"]
    by (auto simp: check_brand_spoofing_def Let_def first_some_Some_split sc split: if_splits)
qed

text \<open>The penalty is the configured score, or ten less for a brand used as a subdomain, and twenty
  more under a suspicious top-level domain.\<close>

lemma check_brand_spoofing_penalty:
  assumes "check_brand_spoofing to_unicode d score = Some (reason, penalty)"
  shows "penalty \<in> {score, score - 10, score + 20, score + 10}"
  using assms by (rule spoofing_penalty)

lemma google_xyz:
  "check_brand_spoofing Some ''google.xyz'' 50 =
     Some (''suspicious usage of trusted brand keyword (google)'', 70)"
proof -
  have plain: "plain_domain ''google.xyz''"
    by (simp add: plain_domain_def upper_free_def ascii_space_def byte_of_def)
  then have norm: "to_lower (trim_space ''google.xyz'') = ''google.xyz''" by (rule plain_domain_norm)
  have root: "get_root_domain ''google.xyz'' = ''google.xyz''"
    using plain by (simp add: get_root_domain_short)
  have sk: "to_skeleton ''google.xyz'' = ''google.xyz''"
    by (rule to_skeleton_ascii) (simp add: byte_of_def)
  have gov: "\<not> is_vietnam_government_root ''google.xyz''"
    using norm by (simp add: is_vietnam_government_root_def has_suffix_def Let_def)
  define sp where "sp = spoof_input_of Some ''google.xyz'' 50"
  define g where "g = mk_brand ''google'' ''google.com'' [''google.com.vn'', ''google.co.uk'', ''google.com.sg'']"
  have sp: "sp_labels sp = [''google'', ''xyz'']" "sp_skeleton_labels sp = [''google'', ''xyz'']"
      "sp_root sp = ''google.xyz''" "sp_bad_tld sp" "sp_score sp = 50"
    by (simp_all add: sp_def spoof_input_of_def Let_def root sk suspicious_tlds_def)
  have none: "first_some (typosquat sp g) (List.enumerate 0 (sp_labels sp)) = None"
    using weighted_0 [of "''google''" "''google''"] levenshtein_0 [of "''google''" "''google''"]
    by (simp add: sp typosquat_def skip_label_def sk_label_def label_spoof_def Let_def g_def
        mk_brand_def double_tlds_def)
  have "check_brand sp g = Some (''suspicious usage of trusted brand keyword (google)'', 70)"
    using none by (simp add: check_brand_def sp is_official_def tld_penalty_def) (simp add: g_def mk_brand_def)
  then show ?thesis
    using gov norm root
    by (simp add: check_brand_spoofing_def trusted_brands_def Let_def flip: sp_def g_def)
qed

lemma check_brand_spoofing_penalty_witness:
  "(70 :: int) \<in> {50, 50 - 10, 50 + 20, 50 + 10}"
  by (rule check_brand_spoofing_penalty [OF google_xyz])

text \<open>A bank of the trusted list is reported as a typosquat of another: the search skips a domain only
  for the brand that owns it, and \<^verbatim>\<open>mbbank\<close> is two substitutions away from \<^verbatim>\<open>vpbank\<close>.
  So its own official domain is flagged, whenever the IDNA conversion leaves the ASCII name alone.\<close>

lemma official_bank_domain_flagged:
  assumes "to_unicode ''mbbank.com.vn'' \<in> {None, Some ''mbbank.com.vn''}"
  shows "\<exists>b \<in> set trusted_brands. official_domain b = ''mbbank.com.vn'' \<and>
     check_brand_spoofing to_unicode ''mbbank.com.vn'' score \<noteq> None"
proof -
  let ?d = "''mbbank.com.vn''"
  have plain: "plain_domain ?d"
    by (simp add: plain_domain_def upper_free_def ascii_space_def byte_of_def)
  then have norm: "to_lower (trim_space ?d) = ?d" by (rule plain_domain_norm)
  have root: "get_root_domain ?d = ?d"
    using norm by (simp add: get_root_domain_def Let_def double_tlds_def)
  have gov: "\<not> is_vietnam_government_root ?d"
    using norm by (simp add: is_vietnam_government_root_def has_suffix_def Let_def)
  define vp where "vp = mk_brand ''vpbank'' ''vpbank.com.vn'' [''vpbank.com'']"
  have "levenshtein_distance ''mbbank'' ''vpbank'' = 2"
    by (simp add: levenshtein_distance_def edit_dp_ed byte_of_def unit_cost_def)
  moreover have "runes ''mbbank'' \<noteq> runes ''vpbank''" by (simp add: byte_of_def)
  ultimately have near: "near_brand sp vp ''mbbank'' ''mbbank''" for sp
    by (simp add: near_brand_def vp_def mk_brand_def)
  define sp where "sp = spoof_input_of to_unicode ?d score"
  have sk: "to_skeleton ?d = ?d" by (rule to_skeleton_ascii) (simp add: byte_of_def)
  have sp: "sp_labels sp = [''mbbank'', ''com'', ''vn'']" "sp_skeleton_labels sp = [''mbbank'', ''com'', ''vn'']"
    using assms by (auto simp: sp_def spoof_input_of_def Let_def sk)
  have "brand_evidence sp vp"
    unfolding brand_evidence_def
    by (intro disjI1 exI [of _ 0])
       (use near in \<open>simp add: sp sk_label_def skip_label_def double_tlds_def\<close>)
  moreover have "vp \<in> set trusted_brands" by (simp add: trusted_brands_def vp_def)
  moreover have "\<not> is_official ?d vp" by (simp add: is_official_def vp_def mk_brand_def)
  ultimately have "check_brand_spoofing to_unicode ?d score \<noteq> None"
    unfolding spoofing_found norm root using gov by (auto simp: sp_def)
  moreover have "mk_brand ''mbbank'' ''mbbank.com.vn'' [''mbbank.com''] \<in> set trusted_brands"
    by (simp add: trusted_brands_def)
  ultimately show ?thesis by (intro bexI) (auto simp: mk_brand_def)
qed

lemma official_bank_domain_flagged_witness:
  "\<exists>b \<in> set trusted_brands. official_domain b = ''mbbank.com.vn'' \<and>
     check_brand_spoofing Some ''mbbank.com.vn'' 50 \<noteq> None"
  by (rule official_bank_domain_flagged) simp


end
