(* ===== verification/Analysis.thy ===== *)
theory Analysis
  imports Brand
begin

text \<open>
  \<^verbatim>\<open>internal/analysis/analysis.go\<close>: normalisation of what the user typed into a domain, the
  content category of a domain, and the scoring of its lexical risk.  \<^verbatim>\<open>Analyze\<close> is the
  sequence of its numbered checks on a score and a list of reasons; the thresholds give the
  verdict.  Scores are \<^typ>\<open>int\<close> (the configured values are far from the 64-bit bounds), the
  confidence and the digit ratio are reals.
\<close>

datatype verdict = Invalid | Safe | Suspicious | Malicious

text \<open>Verdicts ordered by severity, an invalid domain below all; the later stages of an assessment
  are stated to move upwards in this order.\<close>

primrec severity :: "verdict \<Rightarrow> nat" where
  "severity Invalid = 0"
| "severity Safe = 1"
| "severity Suspicious = 2"
| "severity Malicious = 3"

instantiation verdict :: linorder
begin

definition less_eq_verdict :: "verdict \<Rightarrow> verdict \<Rightarrow> bool" where
  "less_eq_verdict v w \<longleftrightarrow> severity v \<le> severity w"

definition less_verdict :: "verdict \<Rightarrow> verdict \<Rightarrow> bool" where
  "less_verdict v w \<longleftrightarrow> severity v < severity w"

instance
proof
  fix v w u :: verdict
  show "v < w \<longleftrightarrow> v \<le> w \<and> \<not> w \<le> v" by (auto simp: less_eq_verdict_def less_verdict_def)
  show "v \<le> v" by (simp add: less_eq_verdict_def)
  show "v \<le> w \<Longrightarrow> w \<le> u \<Longrightarrow> v \<le> u" by (simp add: less_eq_verdict_def)
  show "v \<le> w \<Longrightarrow> w \<le> v \<Longrightarrow> v = w" by (cases v; cases w) (auto simp: less_eq_verdict_def)
  show "v \<le> w \<or> w \<le> v" by (auto simp: less_eq_verdict_def)
qed

end

lemma verdict_le_Malicious [simp]: "(v :: verdict) \<le> Malicious"
  by (cases v) (auto simp: less_eq_verdict_def)

lemma Malicious_le [simp]: "Malicious \<le> v \<longleftrightarrow> v = Malicious"
  by (cases v) (auto simp: less_eq_verdict_def)

record result =
  res_domain :: string
  res_verdict :: verdict
  res_confidence :: real
  res_score :: int
  res_reasons :: "string list"
  res_category :: string

definition protected_public_service_reason :: string where
  "protected_public_service_reason =
     ''protected Vietnamese public-service keyword abuse (dichvucong)''"

subsection \<open>\<^verbatim>\<open>ClassifyCategory\<close>\<close>

definition social_domains :: "string list" where
  "social_domains =
     [''facebook.com'', ''fb.com'', ''messenger.com'', ''instagram.com'', ''tiktok.com'',
      ''twitter.com'', ''x.com'', ''youtube.com'', ''youtu.be'', ''reddit.com'',
      ''linkedin.com'', ''pinterest.com'', ''snapchat.com'', ''tumblr.com'',
      ''whatsapp.com'', ''telegram.org'', ''t.me'', ''discord.com'', ''discord.gg'']"

definition ad_domains :: "string list" where
  "ad_domains =
     [''doubleclick.net'', ''adservice.google.com'', ''adnxs.com'', ''adsrvr.org'',
      ''rubiconproject.com'', ''adcolony.com'', ''unityads.com'', ''applovin.com'',
      ''criteo.com'', ''taboola.com'', ''outbrain.com'', ''google-analytics.com'',
      ''scorecardresearch.com'', ''hotjar.com'', ''mixpanel.com'']"

definition adult_tlds :: "string list" where
  "adult_tlds = [''.xxx'', ''.adult'', ''.sexy'', ''.porn'']"

definition adult_keywords :: "string list" where
  "adult_keywords = [''porn'', ''sex'', ''xvideos'', ''xnxx'', ''pornhub'', ''redtube'',
     ''onlyfans'', ''erotic'', ''hentai'', ''jav'']"

definition gambling_keywords :: "string list" where
  "gambling_keywords = [''casino'', ''gamble'', ''lottery'', ''poker'', ''slot'', ''w88'',
     ''fun88'', ''m88'', ''188bet'', ''kubet'', ''bet88'', ''blackjack'', ''roulette'']"

definition gaming_domains :: "string list" where
  "gaming_domains =
     [''roblox.com'', ''minecraft.net'', ''twitch.tv'', ''steamcommunity.com'',
      ''steampowered.com'', ''playstation.com'', ''xbox.com'', ''nintendo.com'',
      ''pubg.com'', ''epicgames.com'', ''riotgames.com'', ''blizzard.com'',
      ''origin.com'', ''ubisoft.com'', ''ea.com'']"

definition gaming_keywords :: "string list" where
  "gaming_keywords = [''gaming'', ''arcade'', ''playgame'']"

definition has_parent :: "string \<Rightarrow> string \<Rightarrow> bool" where
  "has_parent d parent \<longleftrightarrow> d = parent \<or> has_suffix d (''.'' @ parent)"

definition ad_pattern :: "string \<Rightarrow> bool" where
  "ad_pattern domain \<longleftrightarrow>
     has_prefix domain ''ads.'' \<or> has_prefix domain ''ad.'' \<or>
     contains domain ''analytics.'' \<or> contains domain ''tracker.'' \<or>
     contains domain ''telemetry.'' \<or> contains domain ''-analytics'' \<or>
     contains domain ''adserver''"

definition classify_category :: "string \<Rightarrow> string" where
  "classify_category d0 =
     (let domain = to_lower (trim_space d0) in
      if domain = [] then ''uncategorized''
      else if list_ex (has_parent domain) social_domains then ''social_media''
      else if list_ex (has_parent domain) ad_domains then ''advertising''
      else if ad_pattern domain then ''advertising''
      else if list_ex (has_suffix domain) adult_tlds then ''adult''
      else if list_ex (contains domain) adult_keywords then ''adult''
      else if list_ex (contains domain) gambling_keywords then ''gambling''
      else if list_ex (has_parent domain) gaming_domains then ''gaming''
      else if list_ex (contains domain) gaming_keywords then ''gaming''
      else ''uncategorized'')"

subsection \<open>\<^verbatim>\<open>NormalizeDomain\<close>\<close>

text \<open>\<^verbatim>\<open>unicode.IsLetter\<close> and \<^verbatim>\<open>unicode.IsDigit\<close> matter only below
  \<^verbatim>\<open>utf8.RuneSelf\<close>, every rune above it being accepted.\<close>

definition domain_rune :: "rune \<Rightarrow> bool" where
  "domain_rune r \<longleftrightarrow> r = 46 \<or> r = 45 \<or> (97 \<le> r \<and> r \<le> 122) \<or> (65 \<le> r \<and> r \<le> 90) \<or>
     (48 \<le> r \<and> r \<le> 57) \<or> 128 < r"

definition drop_port :: "string \<Rightarrow> string" where
  "drop_port value =
     (if count_char value CHR '':'' = 1
      then (let p = fst (cut CHR '':'' value) in if p \<noteq> [] then p else value)
      else value)"

definition check_domain :: "string \<Rightarrow> string go_result" where
  "check_domain v0 =
     (let value = trim_suffix (drop_port v0) ''.'' in
      if value = [] then Inl ''domain is empty''
      else if list_all domain_rune (runes value) then Inr value
      else Inl ''domain contains invalid characters'')"

definition normalize_domain :: "string \<Rightarrow> string go_result" where
  "normalize_domain input =
     (let value = trim_space (to_lower input) in
      if value = [] then Inl ''domain is empty''
      else if contains value ''://'' then
        (case url_parse value of
           None \<Rightarrow> Inl ''domain could not be parsed from url''
         | Some u \<Rightarrow>
             if url_hostname u = [] then Inl ''domain could not be parsed from url''
             else check_domain (url_hostname u))
      else check_domain value)"

subsection \<open>Lexical measures\<close>

definition digit_ratio :: "string \<Rightarrow> real" where
  "digit_ratio value =
     (if value = [] then 0
      else real (length (filter is_digit_rune (runes value))) / real (length value))"

definition script_runes :: "string \<Rightarrow> rune list" where
  "script_runes value = filter (\<lambda>r. \<not> (r = 46 \<or> r = 45 \<or> is_digit_rune r)) (runes value)"

definition mixed_scripts :: "string \<Rightarrow> bool" where
  "mixed_scripts value \<longleftrightarrow>
     list_ex (\<lambda>r. r \<le> 128) (script_runes value) \<and> list_ex (\<lambda>r. \<not> r \<le> 128) (script_runes value)"

definition suspicious_keyword_stats :: "analysis_config \<Rightarrow> string \<Rightarrow> int \<times> int" where
  "suspicious_keyword_stats cfg value =
     (let keywordCount = int (length (filter (contains value) (get_keywords cfg))) in
      if keywordCount = 0 then (0, 0)
      else (keywordCount,
            KeywordBaseScore cfg + keywordCount * KeywordMatchScore cfg +
            (if 2 \<le> keywordCount then KeywordMultipleBonus cfg else 0)))"

definition is_protected_public_service_abuse :: "string \<Rightarrow> bool" where
  "is_protected_public_service_abuse d0 \<longleftrightarrow>
     (let domain = to_lower (trim_space d0) in
      if domain = [] \<or> \<not> contains domain ''dichvucong'' then False
      else
        (let rootDomain = get_root_domain domain in
         if rootDomain = ''dichvucong.gov.vn'' \<or> has_suffix rootDomain ''.gov.vn'' \<or>
            has_suffix domain ''.gov.vn'' then False
         else contains rootDomain ''dichvucong''))"

subsection \<open>\<^verbatim>\<open>Analyze\<close>\<close>

type_synonym tally = "int \<times> string list"

definition add_if :: "bool \<Rightarrow> int \<Rightarrow> string \<Rightarrow> tally \<Rightarrow> tally" where
  "add_if b points reason t = (if b then (fst t + points, snd t @ [reason]) else t)"

definition check_lexical :: "analysis_config \<Rightarrow> string \<Rightarrow> tally \<Rightarrow> tally" where
  "check_lexical cfg domain t0 =
     (let t1 = add_if (has_prefix domain ''xn--'' \<or> contains domain ''.xn--'')
                 (PunycodeScore cfg) ''punycode detected'' t0;
          t2 = add_if (LongDomainLength cfg < int (length domain))
                 (LongDomainScore cfg) ''domain is long'' t1;
          t3 = add_if (HyphenCountThreshold cfg \<le> int (count_char domain CHR ''-''))
                 (HyphenScore cfg) ''many hyphens'' t2;
          t4 = add_if (DigitRatioThreshold cfg < digit_ratio domain)
                 (DigitRatioScore cfg) ''high digit ratio'' t3
      in add_if (mixed_scripts domain) (MixedScriptScore cfg) ''mixed script characters'' t4)"

definition check_keywords :: "analysis_config \<Rightarrow> string \<Rightarrow> tally \<Rightarrow> tally" where
  "check_keywords cfg domain t =
     (case suspicious_keyword_stats cfg domain of (keywordCount, keywordScore) \<Rightarrow>
        if 0 < keywordScore then
          (fst t + keywordScore,
           snd t @ [''phishing keyword pattern''] @
             (if 2 \<le> keywordCount then [''multiple phishing keywords''] else []))
        else t)"

definition check_public_service :: "string \<Rightarrow> tally \<Rightarrow> tally" where
  "check_public_service domain t =
     (if is_protected_public_service_abuse domain
      then ((if fst t < 75 then 75 else fst t), snd t @ [protected_public_service_reason]) else t)"

definition check_spoofing ::
  "(string \<Rightarrow> string option) \<Rightarrow> analysis_config \<Rightarrow> string \<Rightarrow> tally \<Rightarrow> tally" where
  "check_spoofing to_unicode cfg domain t =
     (case check_brand_spoofing to_unicode domain (BrandSpoofingScore cfg) of
        None \<Rightarrow> t
      | Some (reason, penalty) \<Rightarrow> (fst t + penalty, snd t @ [reason]))"

definition check_entropy :: "analysis_config \<Rightarrow> string \<Rightarrow> tally \<Rightarrow> tally" where
  "check_entropy cfg domain t =
     (let mainLabel = get_main_label domain in
      add_if (8 \<le> length mainLabel \<and> EntropyThreshold cfg < shannon_entropy mainLabel)
        (EntropyScore cfg) ''high lexical entropy'' t)"

definition tally_of ::
  "(string \<Rightarrow> string option) \<Rightarrow> analysis_config \<Rightarrow> string \<Rightarrow> tally" where
  "tally_of to_unicode cfg domain =
     check_entropy cfg domain
       (check_spoofing to_unicode cfg domain
         (check_public_service domain
           (check_keywords cfg domain
             (check_lexical cfg domain (0, [])))))"

definition verdict_of :: "int \<Rightarrow> verdict" where
  "verdict_of score = (if 70 \<le> score then Malicious else if 40 \<le> score then Suspicious else Safe)"

definition risk_category :: "string \<Rightarrow> verdict \<Rightarrow> string list \<Rightarrow> string" where
  "risk_category category v reasons =
     (if category = ''uncategorized'' then
        (if v = Malicious then
           (if list_ex (\<lambda>r. contains (to_lower r) ''phishing'') reasons then ''phishing'' else ''malware'')
         else if v = Suspicious then ''suspicious''
         else category)
      else category)"

definition analyze :: "(string \<Rightarrow> string option) \<Rightarrow> analysis_config \<Rightarrow> string \<Rightarrow> result" where
  "analyze to_unicode cfg input =
     (case normalize_domain input of
        Inl e \<Rightarrow>
          \<lparr>res_domain = trim_space input, res_verdict = Invalid, res_confidence = 1,
           res_score = 100, res_reasons = [e], res_category = ''uncategorized''\<rparr>
      | Inr domain \<Rightarrow>
          (case tally_of to_unicode cfg domain of (score0, reasons) \<Rightarrow>
             let score = (if 100 < score0 then 100 else score0);
                 v = verdict_of score in
             \<lparr>res_domain = domain, res_verdict = v,
              res_confidence = min 1 (45 / 100 + of_int score / 120),
              res_score = score, res_reasons = reasons,
              res_category = risk_category (classify_category domain) v reasons\<rparr>))"

text \<open>The package-level \<^verbatim>\<open>Analyze\<close>.\<close>

definition analyze_default :: "(string \<Rightarrow> string option) \<Rightarrow> string \<Rightarrow> result" where
  "analyze_default to_unicode input = analyze to_unicode default_analysis_config input"

subsection \<open>Normalisation\<close>

lemma domain_rune_ascii:
  assumes "is_ascii v" "list_all domain_rune (runes v)"
  shows "list_all (\<lambda>c. is_alpha c \<or> is_dec c \<or> c = CHR ''.'' \<or> c = CHR ''-'') v"
proof -
  have "is_alpha c \<or> is_dec c \<or> c = CHR ''.'' \<or> c = CHR ''-''"
    if "domain_rune (byte_of c)" "byte_of c < 128" for c
  proof -
    have "byte_of c = 46 \<longleftrightarrow> c = CHR ''.''" "byte_of c = 45 \<longleftrightarrow> c = CHR ''-''"
      using byte_of_inject [of c "CHR ''.''"] byte_of_inject [of c "CHR ''-''"]
      by (simp_all add: byte_of_def)
    with that show ?thesis by (auto simp: domain_rune_def is_alpha_def is_dec_def)
  qed
  with assms show ?thesis
    by (auto simp: runes_ascii list_all_iff is_ascii_def)
qed

lemma check_domain_Inr:
  "check_domain v = Inr d \<Longrightarrow> d = trim_suffix (drop_port v) ''.'' \<and> d \<noteq> [] \<and> list_all domain_rune (runes d)"
  by (auto simp: check_domain_def Let_def split: if_splits)

lemma normalize_Inr:
  assumes "normalize_domain input = Inr d"
  shows "d \<noteq> [] \<and> list_all domain_rune (runes d) \<and> (\<exists>v. check_domain v = Inr d)"
proof -
  obtain v where "check_domain v = Inr d"
    using assms by (auto simp: normalize_domain_def Let_def split: if_splits option.splits)
  then show ?thesis using check_domain_Inr by blast
qed

lemma alpha_dec_bytes:
  "is_alpha c \<or> is_dec c \<or> c = CHR ''.'' \<or> c = CHR ''-'' \<Longrightarrow>
     \<not> ascii_space c \<and> c \<noteq> CHR '':'' \<and> c \<noteq> CHR ''/''"
  by (auto simp: is_alpha_def is_dec_def ascii_space_def byte_of_def)

lemma normal_fixpoint:
  assumes "is_ascii d" "upper_free d" "d \<noteq> []" "list_all domain_rune (runes d)" "\<not> has_suffix d ''.''"
  shows "normalize_domain d = Inr d"
proof -
  have chars: "\<forall>c \<in> set d. \<not> ascii_space c \<and> c \<noteq> CHR '':'' \<and> c \<noteq> CHR ''/''"
    using domain_rune_ascii [OF assms(1,4)] alpha_dec_bytes by (auto simp: list_all_iff)
  then have v: "trim_space (to_lower d) = d"
    using assms(1,2) by (simp add: to_lower_id trim_space_id list_all_iff)
  have "\<not> contains d ''://''"
    using chars contains_set [of d "''://''"] by auto
  moreover have "CHR '':'' \<notin> set d" using chars by auto
  then have "drop_port d = d" by (simp add: drop_port_def cut_None Let_def)
  then have "check_domain d = Inr d"
    using assms by (simp add: check_domain_def trim_suffix_def Let_def)
  ultimately show ?thesis using assms(3) v by (simp add: normalize_domain_def Let_def)
qed

lemma set_drop_port: "set (drop_port v) \<subseteq> set v"
  using set_fst_cut [of "CHR '':''" v] by (simp add: drop_port_def Let_def)

text \<open>Normalisation is a projection: an ASCII lower-case result that does not end in a dot is
  normalised to itself.\<close>

lemma normalize_domain_idempotent:
  assumes "normalize_domain input = Inr d" "is_ascii d" "upper_free d" "\<not> has_suffix d ''.''"
  shows "normalize_domain d = Inr d"
  using assms normalize_Inr by (blast intro: normal_fixpoint)

lemma normalize_a: "normalize_domain ''a.'' = Inr ''a''" "normalize_domain ''a..'' = Inr ''a.''"
  "normalize_domain ''a'' = Inr ''a''"
  by (simp_all add: normalize_domain_def Let_def to_lower_id upper_free_def trim_space_id ascii_space_def
      byte_of_def check_domain_def drop_port_def trim_suffix_char domain_rune_def has_prefix_def)

lemma normalize_domain_idempotent_witness: "normalize_domain ''a'' = Inr ''a''"
  by (rule normalize_domain_idempotent [OF normalize_a(1)])
     (simp_all add: upper_free_def byte_of_def has_suffix_def)

text \<open>One trailing dot is removed, a second one stays: the result of normalising a name with two
  trailing dots is a different name than the one without, so the exact lookups that follow (overrides,
  whitelist, threat feed) miss its entry, and normalising once more changes it again.\<close>

lemma normalize_domain_trailing_dots:
  "normalize_domain ''a..'' = Inr ''a.'' \<and> normalize_domain ''a.'' = Inr ''a''"
  by (simp add: normalize_a)

definition normal_name :: "string \<Rightarrow> bool" where
  "normal_name d \<longleftrightarrow> d \<noteq> [] \<and> is_ascii d \<and> upper_free d \<and> list_all domain_rune (runes d) \<and>
     \<not> has_suffix d ''.''"

lemma normal_chars:
  assumes "normal_name d" "c \<in> set d"
  shows "(is_alpha c \<or> is_dec c \<or> c = CHR ''.'' \<or> c = CHR ''-'') \<and> \<not> ascii_space c \<and> byte_of c < 128 \<and>
    c \<notin> set '':/?#@%[]'' \<and> \<not> ctl_byte c \<and> host_plain c"
proof -
  have "is_alpha c \<or> is_dec c \<or> c = CHR ''.'' \<or> c = CHR ''-''"
    using assms domain_rune_ascii [of d] by (auto simp: normal_name_def list_all_iff)
  then show ?thesis
    by (auto simp: is_alpha_def is_dec_def ascii_space_def byte_of_def ctl_byte_def host_plain_def)
qed


definition url_path :: "string \<Rightarrow> bool" where
  "url_path p \<longleftrightarrow> is_ascii p \<and> upper_free p \<and>
     list_all (\<lambda>c. \<not> ascii_space c \<and> \<not> ctl_byte c \<and> c \<notin> set ''%?#'') p"

lemma check_normal: "normal_name d \<Longrightarrow> check_domain d = Inr d"
proof -
  assume d: "normal_name d"
  then have "CHR '':'' \<notin> set d" using normal_chars [OF d] by force
  with d show ?thesis
    by (simp add: check_domain_def drop_port_def trim_suffix_def cut_None normal_name_def)
qed

lemma parse_host_normal: "normal_name d \<Longrightarrow> parse_host ''https'' d = Some d"
proof -
  assume d: "normal_name d"
  have "\<forall>c \<in> set d. c \<noteq> CHR '':'' \<and> c \<noteq> bracket \<and> c \<noteq> CHR ''%'' \<and> host_plain c"
    using normal_chars [OF d] by (fastforce simp: bracket_def)
  then have n: "bracket \<notin> set d" "CHR '':'' \<notin> set d"
    and pl: "list_all (\<lambda>c. c \<noteq> CHR ''%'' \<and> (Host_mode = Other_mode \<or> 128 \<le> byte_of c \<or> host_plain c)) d"
    by (auto simp: list_all_iff)
  note cut_last_None [OF n(1)] cut_None [OF n(2)] unescape_plain [OF pl]
  then show ?thesis by (simp add: parse_host_def valid_optional_port_def)
qed

lemma url_parse_https:
  assumes "normal_name d" "url_path p"
  shows "url_parse (''https://'' @ d @ ''/'' @ p) =
    Some \<lparr>url_scheme = ''https'', url_opaque = [], url_host = d\<rparr>"
proof -
  let ?u = "''https://'' @ d @ ''/'' @ p"
  have d: "\<forall>c \<in> set d. \<not> ctl_byte c \<and> c \<notin> set '':/?#@%''" using normal_chars [OF assms(1)] by fastforce
  have p: "\<forall>c \<in> set p. \<not> ctl_byte c \<and> c \<notin> set ''%?#''"
    using assms(2) by (auto simp: url_path_def list_all_iff)
  have frag: "cut CHR ''#'' ?u = (?u, None)" by (rule cut_None) (use d p in auto)
  have ctl: "\<not> list_ex ctl_byte ?u" using d p by (auto simp: list_ex_iff ctl_byte_def byte_of_def)
  have scheme: "scheme_scan [] ?u = Some (''https'', ''//'' @ d @ ''/'' @ p)"
    by (simp add: is_alpha_def is_dec_def byte_of_def)
  have q: "fst (cut CHR ''?'' (''//'' @ d @ ''/'' @ p)) = ''//'' @ d @ ''/'' @ p"
    by (subst cut_None) (use d p in auto)
  have slash: "cut CHR ''/'' (d @ ''/'' @ p) = (d, Some p)" 
    by (simp only: append_Cons append_Nil, rule cut_app) (use d in auto)
  have "cut_last CHR ''@'' d = None" by (rule cut_last_None) (use d in auto)
  then have auth: "parse_authority ''https'' d = Some d"
    using parse_host_normal [OF assms(1)] by (simp add: parse_authority_def)
  have "unescape Other_mode p = Some p" using p by (intro unescape_plain) (auto simp: list_all_iff)
  moreover have "to_lower ''https'' = ''https''" by (rule to_lower_id) (simp_all add: upper_free_def byte_of_def)
  ultimately show ?thesis
    using frag ctl scheme q slash auth by (simp add: url_parse_def Let_def)
qed

lemma trim_lower_id:
  "is_ascii v \<Longrightarrow> upper_free v \<Longrightarrow> list_all (\<lambda>c. \<not> ascii_space c) v \<Longrightarrow> trim_space (to_lower v) = v"
  by (simp add: to_lower_id trim_space_id)

lemma upper_free_append [simp]: "upper_free (a @ b) \<longleftrightarrow> upper_free a \<and> upper_free b"
  "upper_free (c # b) \<longleftrightarrow> \<not> (65 \<le> byte_of c \<and> byte_of c \<le> 90) \<and> upper_free b" "upper_free []"
  by (auto simp: upper_free_def)

text \<open>The spellings a user types give the same domain: with a port, with a trailing dot, or
  inside a URL.\<close>

lemma normalize_domain_spellings:
  assumes "normal_name d" "list_all is_dec port" "url_path path"
  shows "normalize_domain d = Inr d \<and> normalize_domain (d @ ''.'') = Inr d \<and>
    normalize_domain (d @ '':'' @ port) = Inr d \<and>
    normalize_domain (''https://'' @ d @ ''/'' @ path) = Inr d"
proof (intro conjI)
  note chars = normal_chars [OF assms(1)]
  have plain: "is_ascii d" "upper_free d" "d \<noteq> []" "list_all (\<lambda>c. \<not> ascii_space c) d"
    "list_all domain_rune (runes d)" "\<not> has_suffix d ''.''"
    using assms(1) chars by (auto simp: normal_name_def list_all_iff)
  have nc: "CHR '':'' \<notin> set d" "CHR ''/'' \<notin> set d" using chars by fastforce+
  have pt: "is_ascii port" "upper_free port" "list_all (\<lambda>c. \<not> ascii_space c) port"
      "CHR '':'' \<notin> set port" "CHR ''/'' \<notin> set port"
    using assms(2) by (auto simp: is_ascii_def upper_free_def list_all_iff is_dec_def ascii_space_def byte_of_def)
  show "normalize_domain d = Inr d" using plain by (intro normal_fixpoint)
  have "\<not> contains (d @ ''.'') ''://''" using contains_set [of "d @ ''.''" "''://''"] nc by auto
  moreover have "check_domain (d @ ''.'') = Inr d"
    using plain nc by (simp add: check_domain_def drop_port_def cut_None trim_suffix_char Let_def)
  moreover have "trim_space (to_lower (d @ ''.'')) = d @ ''.''"
    using plain by (intro trim_lower_id) (auto simp: byte_of_def ascii_space_def)
  ultimately show "normalize_domain (d @ ''.'') = Inr d" by (simp add: normalize_domain_def Let_def)
  have "\<not> contains (d @ '':'' @ port) ''://''"
    using contains_set [of "d @ '':'' @ port" "''://''"] nc pt by auto
  moreover have "drop_port (d @ '':'' @ port) = d"
    using plain nc pt by (simp add: drop_port_def cut_app Let_def)
  then have "check_domain (d @ '':'' @ port) = Inr d"
    using plain by (simp add: check_domain_def trim_suffix_def)
  moreover have "trim_space (to_lower (d @ '':'' @ port)) = d @ '':'' @ port"
    using plain pt by (intro trim_lower_id) (auto simp: byte_of_def ascii_space_def)
  ultimately show "normalize_domain (d @ '':'' @ port) = Inr d"
    by (simp add: normalize_domain_def Let_def)
  let ?u = "''https://'' @ d @ ''/'' @ path"
  have "is_ascii path" "upper_free path" "list_all (\<lambda>c. \<not> ascii_space c) path"
    using assms(3) by (auto simp: url_path_def list_all_iff)
  moreover have "is_ascii ''https://''" "upper_free ''https://''"
    "list_all (\<lambda>c. \<not> ascii_space c) ''https://''" "is_ascii ''/''" "upper_free ''/''"
    "list_all (\<lambda>c. \<not> ascii_space c) ''/''"
    by (simp_all add: byte_of_def ascii_space_def)
  ultimately have "trim_space (to_lower ?u) = ?u"
    using plain by (intro trim_lower_id) (simp_all only: is_ascii_simps upper_free_append list_all_append simp_thms)
  moreover have "contains ?u ''://''"
    unfolding contains_iff by (intro exI [of _ "''https''"] exI [of _ "d @ ''/'' @ path"]) simp
  moreover have "url_hostname \<lparr>url_scheme = ''https'', url_opaque = [], url_host = d\<rparr> = d"
    using nc chars plain
    by (cases d) (auto simp: url_hostname_def cut_last_None Let_def)
  ultimately show "normalize_domain ?u = Inr d"
    using url_parse_https [OF assms(1,3)] check_normal [OF assms(1)] plain
    by (simp add: normalize_domain_def Let_def)
qed

lemma normalize_domain_spellings_witness:
  "normalize_domain ''a'' = Inr ''a'' \<and> normalize_domain (''a'' @ ''.'') = Inr ''a'' \<and>
   normalize_domain (''a'' @ '':'' @ ''80'') = Inr ''a'' \<and>
   normalize_domain (''https://'' @ ''a'' @ ''/'' @ ''x'') = Inr ''a''"
proof -
  have "normal_name ''a''"
    by (simp add: normal_name_def byte_of_def domain_rune_def has_suffix_def)
  moreover have "list_all is_dec ''80''" by (simp add: is_dec_def byte_of_def)
  moreover have "url_path ''x''"
    by (simp add: url_path_def byte_of_def ascii_space_def ctl_byte_def)
  ultimately show ?thesis by (rule normalize_domain_spellings)
qed


subsection \<open>Categories\<close>

text \<open>The category of a domain is one of six, and it never depends on what is in front of a listed
  social-media domain.\<close>

lemma classify_category_cases:
  "classify_category d \<in> {''uncategorized'', ''social_media'', ''advertising'', ''adult'', ''gambling'', ''gaming''} \<and>
   (classify_category d = ''social_media'' \<longleftrightarrow>
      (\<exists>p \<in> set social_domains. p \<in> set (parent_names (to_lower (trim_space d)))))"
proof -
  have ne: "p \<noteq> []" if "p \<in> set social_domains" for p
    using that by (auto simp: social_domains_def)
  have "list_ex (has_parent x) social_domains \<longleftrightarrow> (\<exists>p \<in> set social_domains. p \<in> set (parent_names x))" for x
    by (auto simp: list_ex_iff has_parent_def parent_names_iff)
  moreover have "\<not> (\<exists>p \<in> set social_domains. p \<in> set (parent_names []))"
    using ne by (auto simp: parent_names_iff has_suffix_iff)
  ultimately show ?thesis
    by (simp add: classify_category_def Let_def)
qed

subsection \<open>Scoring\<close>

text \<open>Every configured number of points is non-negative.\<close>

definition nonneg_config :: "analysis_config \<Rightarrow> bool" where
  "nonneg_config cfg \<longleftrightarrow>
     0 \<le> PunycodeScore cfg \<and> 0 \<le> LongDomainScore cfg \<and> 0 \<le> HyphenScore cfg \<and>
     0 \<le> DigitRatioScore cfg \<and> 0 \<le> MixedScriptScore cfg \<and> 10 \<le> BrandSpoofingScore cfg \<and>
     0 \<le> EntropyScore cfg"

lemma nonneg_default [simp]: "nonneg_config default_analysis_config"
  by (simp add: nonneg_config_def default_analysis_config_def)

lemma add_if_mono: "0 \<le> p \<Longrightarrow> fst t \<le> fst (add_if b p r t)"
  by (simp add: add_if_def)

lemma check_mono:
  assumes "nonneg_config cfg"
  shows "fst t \<le> fst (check_lexical cfg d t)" "fst t \<le> fst (check_keywords cfg d t)"
    "fst t \<le> fst (check_public_service d t)" "fst t \<le> fst (check_spoofing u cfg d t)"
    "fst t \<le> fst (check_entropy cfg d t)"
proof -
  show "fst t \<le> fst (check_lexical cfg d t)"
    using assms unfolding check_lexical_def Let_def nonneg_config_def
    by (meson add_if_mono order_trans)
  show "fst t \<le> fst (check_keywords cfg d t)"
    by (auto simp: check_keywords_def split: prod.splits)
  show "fst t \<le> fst (check_public_service d t)" by (simp add: check_public_service_def)
  show "fst t \<le> fst (check_spoofing u cfg d t)"
  proof (cases "check_brand_spoofing u d (BrandSpoofingScore cfg)")
    case (Some rp)
    obtain r p where rp: "rp = (r, p)" by fastforce
    with Some have "p \<in> {BrandSpoofingScore cfg, BrandSpoofingScore cfg - 10,
        BrandSpoofingScore cfg + 20, BrandSpoofingScore cfg + 10}"
      using spoofing_penalty by blast
    with Some rp assms show ?thesis by (auto simp: check_spoofing_def nonneg_config_def)
  qed (simp add: check_spoofing_def)
  show "fst t \<le> fst (check_entropy cfg d t)"
    using assms by (simp add: check_entropy_def Let_def add_if_mono nonneg_config_def)
qed

lemma tally_nonneg: "nonneg_config cfg \<Longrightarrow> 0 \<le> fst (tally_of u cfg d)"
  unfolding tally_of_def using check_mono by (metis (no_types) fst_conv order_trans)

text \<open>C28. What a result means: the verdict is invalid exactly when the input cannot be normalised, with
  score 100 and confidence 1; otherwise the score lies between 0 and 100, the verdict is the one of its
  threshold, and the confidence lies between 0.45 and 1 and grows with the score.\<close>

theorem analyze_result:
  fixes to_unicode :: "string \<Rightarrow> string option" and input :: string
  assumes "nonneg_config cfg"
  defines "r \<equiv> analyze to_unicode cfg input"
  shows "(res_verdict r = Invalid \<longleftrightarrow> isl (normalize_domain input)) \<and>
    (isl (normalize_domain input) \<longrightarrow> res_score r = 100 \<and> res_confidence r = 1) \<and>
    (\<forall>d. normalize_domain input = Inr d \<longrightarrow>
       res_domain r = d \<and> 0 \<le> res_score r \<and> res_score r \<le> 100 \<and>
       (res_verdict r = Malicious \<longleftrightarrow> 70 \<le> res_score r) \<and>
       (res_verdict r = Suspicious \<longleftrightarrow> 40 \<le> res_score r \<and> res_score r < 70) \<and>
       (res_verdict r = Safe \<longleftrightarrow> res_score r < 40) \<and>
       9 / 20 \<le> res_confidence r \<and> res_confidence r \<le> 1 \<and>
       res_confidence r = min 1 (9 / 20 + of_int (res_score r) / 120))"
proof (cases "normalize_domain input")
  case (Inl e)
  then show ?thesis by (simp add: r_def analyze_def)
next
  case (Inr d)
  obtain s rs where t: "tally_of to_unicode cfg d = (s, rs)" by fastforce
  then have "0 \<le> s" using tally_nonneg [OF assms(1), of to_unicode d] by simp
  then show ?thesis
    using Inr t by (auto simp: r_def analyze_def verdict_of_def Let_def min_def)
qed

theorem analyze_result_witness:
  "res_verdict (analyze Some default_analysis_config ''a'') \<noteq> Invalid"
  using analyze_result [OF nonneg_default, of Some "''a''"] by (simp add: normalize_a)

text \<open>A domain that abuses the protected public-service keyword is malicious whatever else it
  looks like, and carries the reason.\<close>

lemma public_service_abuse_malicious:
  assumes "nonneg_config cfg" "normalize_domain input = Inr d" "is_protected_public_service_abuse d"
  shows "res_verdict (analyze to_unicode cfg input) = Malicious \<and>
         protected_public_service_reason \<in> set (res_reasons (analyze to_unicode cfg input))"
proof -
  define t where "t = check_public_service d (check_keywords cfg d (check_lexical cfg d (0, [])))"
  obtain s rs where st: "tally_of to_unicode cfg d = (s, rs)" by fastforce
  have t: "75 \<le> fst t" "protected_public_service_reason \<in> set (snd t)"
    using assms(3) by (simp_all add: t_def check_public_service_def)
  have keep: "set (snd t) \<subseteq> set rs"
    using st by (auto simp: tally_of_def t_def check_entropy_def check_spoofing_def add_if_def Let_def
        split: option.splits if_splits prod.splits)
  have "fst t \<le> s"
    using st check_mono(4,5) [OF assms(1)] unfolding tally_of_def t_def
    by (metis (no_types) fst_conv order_trans)
  with t keep show ?thesis
    using assms(2) st by (auto simp: analyze_def verdict_of_def Let_def)
qed

lemma log2_14: "log 2 14 < 39 / 10"
proof -
  have "log 2 (14 ^ 10) < log 2 (2 ^ 39 :: real)"
    by (subst log_less_cancel_iff) auto
  then have "10 * log 2 14 < 39 * log 2 (2 :: real)"
    by (simp only: log_nat_power zero_less_numeral of_nat_numeral)
  then show ?thesis by simp
qed

lemma dichvucong_xyz:
  "normalize_domain ''dichvucong.xyz'' = Inr ''dichvucong.xyz''"
  "is_protected_public_service_abuse ''dichvucong.xyz''"
proof -
  let ?d = "''dichvucong.xyz''"
  show "normalize_domain ?d = Inr ?d"
    by (rule normal_fixpoint)
       (simp_all add: byte_of_def domain_rune_def has_suffix_def)
  have plain: "plain_domain ?d"
    by (simp add: plain_domain_def ascii_space_def byte_of_def)
  then have "to_lower (trim_space ?d) = ?d" by (rule plain_domain_norm)
  moreover have "get_root_domain ?d = ?d" using plain by (simp add: get_root_domain_short)
  ultimately show "is_protected_public_service_abuse ?d"
    by (simp add: is_protected_public_service_abuse_def has_suffix_def Let_def)
qed

lemma public_service_abuse_malicious_witness:
  "res_verdict (analyze Some default_analysis_config ''dichvucong.xyz'') = Malicious \<and>
   protected_public_service_reason \<in>
     set (res_reasons (analyze Some default_analysis_config ''dichvucong.xyz''))"
  by (rule public_service_abuse_malicious [OF nonneg_default dichvucong_xyz])

text \<open>With the default configuration the entropy test never fires on a label of 8 to 14 bytes, the
  shortest labels it is meant for.\<close>

lemma entropy_silent_on_short_labels:
  assumes "length (get_main_label d) \<le> 14"
  shows "check_entropy default_analysis_config d t = t"
proof -
  let ?l = "get_main_label d"
  have "\<not> 39 / 10 < shannon_entropy ?l" if "8 \<le> length ?l"
  proof -
    have "shannon_entropy ?l \<le> log 2 (real (length ?l))"
      using that entropy_bounds [of ?l] by (cases ?l) auto
    also have "\<dots> \<le> log 2 14"
      using that assms by (subst log_le_cancel_iff) auto
    finally show ?thesis using log2_14 by simp
  qed
  then show ?thesis
    by (auto simp: check_entropy_def add_if_def Let_def default_analysis_config_def)
qed

lemma entropy_silent_on_short_labels_witness:
  "check_entropy default_analysis_config ''a'' (0, []) = (0, [])"
proof -
  have "plain_domain ''a''" by (simp add: plain_domain_def ascii_space_def byte_of_def)
  then have "get_root_domain ''a'' = ''a''" by (simp add: get_root_domain_short)
  then show ?thesis by (intro entropy_silent_on_short_labels) (simp add: get_main_label_def)
qed

end
