(* ===== verification/Redis_Cache.thy ===== *)
theory Redis_Cache
  imports Go_Net
begin

text \<open>
  \<^verbatim>\<open>internal/cache/redis.go\<close>: the wrapper around the Redis client.  The Redis server and the
  go-redis client are not part of the repository: a client is a record of the commands the wrapper
  sends, over a server state of any type \<open>'r\<close>, each of which may fail.  A cache is an option,
  \<^term>\<open>None\<close> when no address is configured.  \<^verbatim>\<open>encoding/json\<close> is a pair of functions per
  type.  The documented behaviour of the server that some theorems need is \<open>redis_strings\<close> and
  \<open>redis_sets\<close>.
\<close>

record 'r redis_client =
  rc_get :: "string \<Rightarrow> 'r \<Rightarrow> string option go_result"
  rc_set :: "string \<Rightarrow> string \<Rightarrow> int \<Rightarrow> 'r \<Rightarrow> 'r \<times> unit go_result"
  rc_incr :: "string \<Rightarrow> 'r \<Rightarrow> 'r \<times> int go_result"
  rc_del :: "string \<Rightarrow> 'r \<Rightarrow> 'r \<times> unit go_result"
  rc_rename :: "string \<Rightarrow> string \<Rightarrow> 'r \<Rightarrow> 'r \<times> unit go_result"
  rc_sadd :: "string \<Rightarrow> string list \<Rightarrow> 'r \<Rightarrow> 'r \<times> int go_result"
  rc_sismember :: "string \<Rightarrow> string \<Rightarrow> 'r \<Rightarrow> bool go_result"
  rc_push_trim :: "string \<Rightarrow> string \<Rightarrow> int \<Rightarrow> 'r \<Rightarrow> 'r \<times> unit go_result"
  rc_lrange :: "string \<Rightarrow> int \<Rightarrow> int \<Rightarrow> 'r \<Rightarrow> string list go_result"
  rc_ping :: "'r \<Rightarrow> unit go_result"

type_synonym 'r redis = "'r redis_client option"

definition err_disabled :: err where
  "err_disabled = ''redis cache disabled''"

definition new_redis :: "(string \<Rightarrow> string \<Rightarrow> int \<Rightarrow> 'r redis_client) \<Rightarrow> string \<Rightarrow> string \<Rightarrow> int \<Rightarrow> 'r redis" where
  "new_redis connect addr password db = (if addr = [] then None else Some (connect addr password db))"

definition redis_enabled :: "'r redis \<Rightarrow> bool" where
  "redis_enabled c \<longleftrightarrow> c \<noteq> None"

definition redis_ping :: "'r redis \<Rightarrow> 'r \<Rightarrow> unit go_result" where
  "redis_ping c s = (case c of None \<Rightarrow> Inl err_disabled | Some k \<Rightarrow> rc_ping k s)"

text \<open>\<^verbatim>\<open>GetJSON\<close>: \<^term>\<open>None\<close> when the key is missing.\<close>

definition get_json :: "(string \<Rightarrow> 'a go_result) \<Rightarrow> 'r redis \<Rightarrow> string \<Rightarrow> 'r \<Rightarrow> 'a option go_result" where
  "get_json dec c key s =
     (case c of
        None \<Rightarrow> Inl err_disabled
      | Some k \<Rightarrow>
          (case rc_get k key s of
             Inl e \<Rightarrow> Inl e
           | Inr None \<Rightarrow> Inr None
           | Inr (Some v) \<Rightarrow> (case dec v of Inl e \<Rightarrow> Inl e | Inr x \<Rightarrow> Inr (Some x))))"

definition set_json ::
  "('a \<Rightarrow> string go_result) \<Rightarrow> 'r redis \<Rightarrow> string \<Rightarrow> 'a \<Rightarrow> int \<Rightarrow> 'r \<Rightarrow> 'r \<times> unit go_result" where
  "set_json enc c key v ttl s =
     (case c of
        None \<Rightarrow> (s, Inl err_disabled)
      | Some k \<Rightarrow> (case enc v of Inl e \<Rightarrow> (s, Inl e) | Inr t \<Rightarrow> rc_set k key t ttl s))"

definition get_string :: "'r redis \<Rightarrow> string \<Rightarrow> 'r \<Rightarrow> string go_result" where
  "get_string c key s =
     (case c of
        None \<Rightarrow> Inl err_disabled
      | Some k \<Rightarrow>
          (case rc_get k key s of Inl e \<Rightarrow> Inl e | Inr None \<Rightarrow> Inr [] | Inr (Some v) \<Rightarrow> Inr v))"

definition set_string :: "'r redis \<Rightarrow> string \<Rightarrow> string \<Rightarrow> int \<Rightarrow> 'r \<Rightarrow> 'r \<times> unit go_result" where
  "set_string c key v ttl s = (case c of None \<Rightarrow> (s, Inl err_disabled) | Some k \<Rightarrow> rc_set k key v ttl s)"

definition increment :: "'r redis \<Rightarrow> string \<Rightarrow> 'r \<Rightarrow> 'r \<times> int go_result" where
  "increment c key s = (case c of None \<Rightarrow> (s, Inl err_disabled) | Some k \<Rightarrow> rc_incr k key s)"

definition get_int64 :: "'r redis \<Rightarrow> string \<Rightarrow> 'r \<Rightarrow> int go_result" where
  "get_int64 c key s =
     (case get_string c key s of
        Inl e \<Rightarrow> Inl e
      | Inr v \<Rightarrow>
          if v = [] then Inr 0
          else (case atoi v of
              None \<Rightarrow> Inl (''strconv.ParseInt: parsing '' @ quoted v @ '': invalid syntax'')
            | Some n \<Rightarrow> Inr n))"

definition redis_delete :: "'r redis \<Rightarrow> string \<Rightarrow> 'r \<Rightarrow> 'r \<times> unit go_result" where
  "redis_delete c key s = (case c of None \<Rightarrow> (s, Inl err_disabled) | Some k \<Rightarrow> rc_del k key s)"

definition redis_rename :: "'r redis \<Rightarrow> string \<Rightarrow> string \<Rightarrow> 'r \<Rightarrow> 'r \<times> unit go_result" where
  "redis_rename c fromKey toKey s =
     (case c of None \<Rightarrow> (s, Inl err_disabled) | Some k \<Rightarrow> rc_rename k fromKey toKey s)"

definition set_add :: "'r redis \<Rightarrow> string \<Rightarrow> string list \<Rightarrow> 'r \<Rightarrow> 'r \<times> int go_result" where
  "set_add c key members s =
     (case c of
        None \<Rightarrow> (s, Inl err_disabled)
      | Some k \<Rightarrow> if members = [] then (s, Inr 0) else rc_sadd k key members s)"

definition set_is_member :: "'r redis \<Rightarrow> string \<Rightarrow> string \<Rightarrow> 'r \<Rightarrow> bool go_result" where
  "set_is_member c key m s = (case c of None \<Rightarrow> Inl err_disabled | Some k \<Rightarrow> rc_sismember k key m s)"

definition push_json ::
  "('a \<Rightarrow> string go_result) \<Rightarrow> 'r redis \<Rightarrow> string \<Rightarrow> 'a \<Rightarrow> int \<Rightarrow> 'r \<Rightarrow> 'r \<times> unit go_result" where
  "push_json enc c key v maxLen s =
     (case c of
        None \<Rightarrow> (s, Inl err_disabled)
      | Some k \<Rightarrow> (case enc v of Inl e \<Rightarrow> (s, Inl e) | Inr t \<Rightarrow> rc_push_trim k key t maxLen s))"

text \<open>\<^verbatim>\<open>ListJSON\<close> with a callback that decodes and appends: items that do not decode are
  skipped.\<close>

definition list_json ::
  "(string \<Rightarrow> 'a go_result) \<Rightarrow> 'r redis \<Rightarrow> string \<Rightarrow> int \<Rightarrow> int \<Rightarrow> 'r \<Rightarrow> 'a list go_result" where
  "list_json dec c key start stop s =
     (case c of
        None \<Rightarrow> Inl err_disabled
      | Some k \<Rightarrow>
          (case rc_lrange k key start stop s of
             Inl e \<Rightarrow> Inl e
           | Inr vs \<Rightarrow> Inr (List.map_filter (\<lambda>v. case dec v of Inl _ \<Rightarrow> None | Inr x \<Rightarrow> Some x) vs)))"

subsection \<open>Documented behaviour of the server\<close>

text \<open>\<^verbatim>\<open>GET\<close> after a successful \<^verbatim>\<open>SET\<close>, before the time to live is over.\<close>

definition redis_strings :: "'r redis_client \<Rightarrow> bool" where
  "redis_strings k \<longleftrightarrow>
     (\<forall>key v ttl s s'. rc_set k key v ttl s = (s', Inr ()) \<longrightarrow>
        rc_get k key s' = Inr (Some v) \<and> (\<forall>key'. key' \<noteq> key \<longrightarrow> rc_get k key' s' = rc_get k key' s))"

text \<open>A client whose commands all succeed on an association list, for the witnesses.\<close>

type_synonym toy = "(string \<times> string) list"

definition toy_client :: "toy redis_client" where
  "toy_client =
     \<lparr>rc_get = (\<lambda>key s. Inr (map_of s key)),
      rc_set = (\<lambda>key v ttl s. ((key, v) # s, Inr ())),
      rc_incr = (\<lambda>key s. (s, Inl [])),
      rc_del = (\<lambda>key s. (filter (\<lambda>p. fst p \<noteq> key) s, Inr ())),
      rc_rename = (\<lambda>a b s. (s, Inl [])),
      rc_sadd = (\<lambda>key ms s. (map (\<lambda>m. (key @ ''/'' @ m, [])) ms @ s, Inr (int (length ms)))),
      rc_sismember = (\<lambda>key m s. Inr (map_of s (key @ ''/'' @ m) \<noteq> None)),
      rc_push_trim = (\<lambda>key v n s. (s, Inl [])),
      rc_lrange = (\<lambda>key a b s. Inr []),
      rc_ping = (\<lambda>s. Inr ())\<rparr>"

lemma toy_strings: "redis_strings toy_client"
  by (auto simp: redis_strings_def toy_client_def)

lemma get_set_json:
  assumes "redis_strings k" "set_json enc (Some k) key v ttl s = (s', Inr ())"
    "\<And>t. enc v = Inr t \<Longrightarrow> dec t = Inr v"
  shows "get_json dec (Some k) key s' = Inr (Some v)"
proof -
  obtain t where t: "enc v = Inr t" "rc_set k key t ttl s = (s', Inr ())"
    using assms(2) by (auto simp: set_json_def split: sum.splits)
  with assms(1) have "rc_get k key s' = Inr (Some t)" unfolding redis_strings_def by blast
  with assms(3) t show ?thesis by (simp add: get_json_def)
qed

lemma set_json_other:
  assumes "redis_strings k" "set_json enc (Some k) key v ttl s = (s', Inr ())" "key' \<noteq> key"
  shows "rc_get k key' s' = rc_get k key' s"
proof -
  obtain t where "rc_set k key t ttl s = (s', Inr ())"
    using assms(2) by (auto simp: set_json_def split: sum.splits)
  with assms show ?thesis unfolding redis_strings_def by blast
qed

end
