(* ===== verification/Osint.thy ===== *)
theory Osint
  imports Analysis Redis_Cache
begin

text \<open>
  \<^verbatim>\<open>internal/osint/osint.go\<close>: the lookup of public warnings about a domain on trusted
  sources.  What the code obtains from outside is the record \<open>osint_env\<close>: the clock with the
  formatter and parser of \<^verbatim>\<open>time.RFC3339Nano\<close>, the resolver, one HTTP exchange, the text of a
  parsed URL, the deadline of the lookup seen before a source, and the JSON codec of a report.  The
  clock stands still during a call.  The state is the report map in memory and the Redis server.  The
  redirect loop of \<^verbatim>\<open>http.Client\<close> is written out, with the trace of the requested URLs, since
  \<^verbatim>\<open>CheckRedirect\<close> is where the code validates each of them.
\<close>

definition byte_string :: "nat list \<Rightarrow> string" where
  "byte_string bs = map char_of bs"

definition type_official_warning :: string where "type_official_warning = ''official_warning''"
definition type_trusted_news_warning :: string where "type_trusted_news_warning = ''trusted_news_warning''"
definition type_safe_browsing_match :: string where "type_safe_browsing_match = ''safe_browsing_match''"

text \<open>The Vietnamese terms are their UTF-8 bytes.\<close>

definition warning_terms :: "string list" where
  "warning_terms =
     [''gia mao'', byte_string [103, 105, 225, 186, 163, 32, 109, 225, 186, 161, 111],
      ''lua dao'', byte_string [108, 225, 187, 171, 97, 32, 196, 145, 225, 186, 163, 111],
      ''phishing'', ''scam'',
      ''mao danh'', byte_string [109, 225, 186, 161, 111, 32, 100, 97, 110, 104],
      ''canh bao'', byte_string [99, 225, 186, 163, 110, 104, 32, 98, 195, 161, 111],
      ''khong truy cap'',
      byte_string [107, 104, 195, 180, 110, 103, 32, 116, 114, 117, 121, 32, 99, 225, 186, 173, 112]]"

definition sensitive_domain_terms :: "string list" where
  "sensitive_domain_terms =
     [''dichvucong'', ''congdichvu'', ''nganhang'', ''bank'', ''thuethunhap'', ''thue'',
      ''baohiem'', ''bhxh'', ''congan'', ''police'', ''dvc'', ''vneid'', ''govvn'']"

record evidence =
  ev_domain :: string
  ev_source_url :: string
  ev_source_title :: string
  ev_source_type :: string
  ev_confidence :: real
  ev_terms :: "string list"
  ev_retrieved :: string

record report =
  rp_domain :: string
  rp_enabled :: bool
  rp_cache_hit :: bool
  rp_checked_at :: string
  rp_expires_at :: string
  rp_should_block :: bool
  rp_impact :: string
  rp_evidence :: "evidence list"
  rp_error :: string
  rp_sources_checked :: int

definition no_evidence :: evidence where
  "no_evidence = \<lparr>ev_domain = [], ev_source_url = [], ev_source_title = [], ev_source_type = [],
     ev_confidence = 0, ev_terms = [], ev_retrieved = []\<rparr>"

definition no_report :: report where
  "no_report = \<lparr>rp_domain = [], rp_enabled = False, rp_cache_hit = False, rp_checked_at = [],
     rp_expires_at = [], rp_should_block = False, rp_impact = [], rp_evidence = [], rp_error = [],
     rp_sources_checked = 0\<rparr>"

subsection \<open>Lists of names\<close>

fun normalize_from :: "string list \<Rightarrow> string list \<Rightarrow> string list" where
  "normalize_from seen [] = []"
| "normalize_from seen (v # vs) =
     (let value = trim_space v in
      if value = [] \<or> value \<in> set seen then normalize_from seen vs
      else value # normalize_from (value # seen) vs)"

definition normalize_list :: "string list \<Rightarrow> string list" where
  "normalize_list values = normalize_from [] values"

definition split_list :: "string \<Rightarrow> string list" where
  "split_list value =
     normalize_list (fields_where (\<lambda>c. c = CHR '','' \<or> byte_of c \<in> {10, 13, 9}) [] value)"

definition default_trusted_domains :: "string list" where
  "default_trusted_domains =
     [''gov.vn'', ''bocongan.gov.vn'', ''mps.gov.vn'', ''baochinhphu.vn'', ''thanhnien.vn'',
      ''tuoitre.vn'', ''vnexpress.net'', ''vietnamnet.vn'', ''nhandan.vn'', ''vtv.vn'', ''vov.vn'']"

subsection \<open>The service\<close>

record 'r osint_options =
  oo_enabled :: bool
  oo_mode :: string
  oo_timeout :: int
  oo_cache_ttl :: int
  oo_trusted :: "string list"
  oo_sources :: "string list"
  oo_redis :: "'r redis"
  oo_redis_timeout :: int
  oo_max_bytes :: int
  oo_allow_private :: bool

record 'r osint_service =
  oi_enabled :: bool
  oi_mode :: string
  oi_timeout :: int
  oi_cache_ttl :: int
  oi_trusted :: "string list"
  oi_sources :: "string list"
  oi_redis :: "'r redis"
  oi_redis_timeout :: int
  oi_max_bytes :: int
  oi_allow_private :: bool

definition new_osint :: "'r osint_options \<Rightarrow> 'r osint_service" where
  "new_osint options =
     (let trusted = normalize_list (oo_trusted options) in
      \<lparr>oi_enabled = oo_enabled options, oi_mode = trim_space (oo_mode options),
       oi_timeout = (if oo_timeout options \<le> 0 then 2 * second else oo_timeout options),
       oi_cache_ttl = (if oo_cache_ttl options \<le> 0 then 6 * 3600 * second else oo_cache_ttl options),
       oi_trusted = (if trusted = [] then default_trusted_domains else trusted),
       oi_sources = normalize_list (oo_sources options),
       oi_redis = oo_redis options,
       oi_redis_timeout = (if oo_redis_timeout options \<le> 0 then 250 * millisecond else oo_redis_timeout options),
       oi_max_bytes = (if oo_max_bytes options \<le> 0 then 512 * 1024 else oo_max_bytes options),
       oi_allow_private = oo_allow_private options\<rparr>)"

datatype http_reply =
    Http_failed err
  | Http_redirect string
  | Http_answer int string "err option"

record osint_env =
  on_now :: int
  on_format :: "int \<Rightarrow> string"
  on_parse_time :: "string \<Rightarrow> int option"
  on_lookup_ip :: "string \<Rightarrow> ip list go_result"
  on_exchange :: "string \<Rightarrow> http_reply"
  on_url_text :: "string \<Rightarrow> string"
  on_cancelled :: "nat \<Rightarrow> err option"
  on_encode :: "report \<Rightarrow> string go_result"
  on_decode :: "string \<Rightarrow> report go_result"

record 'r osint_state =
  om_memory :: "string \<Rightarrow> report option"
  om_redis :: 'r


subsection \<open>Sources\<close>

definition is_gov_vn :: "string \<Rightarrow> bool" where
  "is_gov_vn domain \<longleftrightarrow> domain = ''gov.vn'' \<or> has_suffix domain ''.gov.vn''"

definition is_official_host :: "string \<Rightarrow> bool" where
  "is_official_host host \<longleftrightarrow> is_gov_vn host \<or> contains host ''bocongan'' \<or> contains host ''congan''"

definition source_trust :: "string \<Rightarrow> string \<times> real" where
  "source_trust h =
     (let host = to_lower (trim_space h) in
      if is_official_host host then (type_official_warning, 95 / 100)
      else (type_trusted_news_warning, 88 / 100))"

text \<open>The methods of \<^verbatim>\<open>net.IP\<close>, on the four-byte form where there is one.\<close>

fun blocked4 :: "32 word \<Rightarrow> bool" where
  "blocked4 w \<longleftrightarrow>
     drop_bit 24 w = 127 \<or>
     drop_bit 24 w = 10 \<or> drop_bit 20 w = 2753 \<or> drop_bit 16 w = 49320 \<or>
     drop_bit 16 w = 43518 \<or> drop_bit 8 w = 14680064 \<or> drop_bit 28 w = 14 \<or> w = 0"

fun blocked6 :: "128 word \<Rightarrow> bool" where
  "blocked6 w \<longleftrightarrow>
     w = 1 \<or> drop_bit 121 w = 126 \<or> drop_bit 118 w = 1018 \<or>
     (drop_bit 120 w = 255 \<and> take_bit 4 (drop_bit 112 w) = 2) \<or> drop_bit 120 w = 255 \<or> w = 0"

definition is_blocked_ip :: "ip \<Rightarrow> bool" where
  "is_blocked_ip a \<longleftrightarrow> (case to4 a of IPv4 w \<Rightarrow> blocked4 w | IPv6 w \<Rightarrow> blocked6 w)"

text \<open>The name a trusted entry stands for: without a wildcard, scheme or port.\<close>

definition trusted_name :: "string \<Rightarrow> string" where
  "trusted_name t =
     (let t1 = trim_prefix (to_lower (trim_space t)) ''*.'';
          t2 = (case url_parse t1 of
                  Some u \<Rightarrow> if url_hostname u \<noteq> [] then url_hostname u else t1
                | None \<Rightarrow> t1)
      in case split_host_port t2 of Some (h, _) \<Rightarrow> h | None \<Rightarrow> t2)"

definition is_trusted_host :: "'r osint_service \<Rightarrow> string \<Rightarrow> bool" where
  "is_trusted_host s h =
     (let host = to_lower (trim_space h) in
      list_ex (\<lambda>t. host = trusted_name t \<or> has_suffix host (''.'' @ trusted_name t)) (oi_trusted s))"

definition validate_source :: "osint_env \<Rightarrow> 'r osint_service \<Rightarrow> url \<Rightarrow> err option" where
  "validate_source env s parsed =
     (if url_scheme parsed \<noteq> ''http'' \<and> url_scheme parsed \<noteq> ''https''
      then Some ''unsupported source scheme''
      else
        let host = to_lower (url_hostname parsed) in
        if \<not> is_trusted_host s host then Some (''untrusted source host '' @ quoted host)
        else if oi_allow_private s then None
        else (case on_lookup_ip env host of
            Inl e \<Rightarrow> Some (''resolve source host: '' @ e)
          | Inr ips \<Rightarrow> if list_ex is_blocked_ip ips then Some ''blocked private source address'' else None))"

text \<open>\<^verbatim>\<open>client.Do\<close> with the code's \<^verbatim>\<open>CheckRedirect\<close>: \<open>via\<close> counts the requests already sent.
  The first component lists the URLs requested.\<close>

function (sequential) follow :: "osint_env \<Rightarrow> 'r osint_service \<Rightarrow> nat \<Rightarrow> url \<Rightarrow> string \<Rightarrow>
    url list \<times> (int \<times> string \<times> err option) go_result" where
  "follow env s via u text =
     (case on_exchange env text of
           Http_failed e \<Rightarrow> ([u], Inl e)
         | Http_answer status body fault \<Rightarrow> ([u], Inr (status, body, fault))
         | Http_redirect location \<Rightarrow>
             (case url_parse location of
                None \<Rightarrow> ([u], Inl ''failed to parse Location header'')
              | Some u' \<Rightarrow>
                  if 3 \<le> via then ([u], Inl ''too many redirects'')
                  else (case validate_source env s u' of
                      Some e \<Rightarrow> ([u], Inl e)
                    | None \<Rightarrow>
                        (case follow env s (Suc via) u' location of (tr, r) \<Rightarrow> (u # tr, r)))))"
  by pat_completeness auto

termination
  by (relation "measure (\<lambda>(env, s, via, u, text). 3 - via)") auto

declare follow.simps [simp del]

definition warning_matches :: "string \<Rightarrow> string list" where
  "warning_matches content = remdups (filter (contains (to_lower content)) warning_terms)"

text \<open>\<^verbatim>\<open>titlePattern\<close>: the text between the first \<^verbatim>\<open><title...>\<close> and the \<^verbatim>\<open></title>\<close> after
  it, in any case.\<close>

definition extract_title :: "string \<Rightarrow> string" where
  "extract_title content =
     (case index_of (map lower_char content) ''<title'' of
        None \<Rightarrow> []
      | Some i \<Rightarrow>
          (case cut CHR ''>'' (drop (i + 6) content) of
             (_, None) \<Rightarrow> []
           | (_, Some rest) \<Rightarrow>
               (case index_of (map lower_char rest) ''</title>'' of
                  None \<Rightarrow> []
                | Some j \<Rightarrow>
                    take 180 (replace_all ''&amp;'' ''&''
                      (join_with '' '' (space_fields (take j rest)))))))"

definition mentions :: "string \<Rightarrow> string \<Rightarrow> bool" where
  "mentions domain content \<longleftrightarrow> contains (to_lower content) (to_lower domain) \<and> warning_matches content \<noteq> []"

definition fetch_source ::
  "osint_env \<Rightarrow> 'r osint_service \<Rightarrow> string \<Rightarrow> string \<Rightarrow> url list \<times> evidence go_result" where
  "fetch_source env s domain source =
     (case url_parse (trim_space source) of
        None \<Rightarrow> ([], Inl ''invalid source url'')
      | Some parsed \<Rightarrow>
          if url_hostname parsed = [] then ([], Inl ''invalid source url'')
          else (case validate_source env s parsed of
              Some e \<Rightarrow> ([], Inl e)
            | None \<Rightarrow>
                let text = on_url_text env (trim_space source) in
                (case follow env s 1 parsed text of
                   (tr, Inl e) \<Rightarrow> (tr, Inl e)
                 | (tr, Inr (status, body, fault)) \<Rightarrow>
                     if status < 200 \<or> 299 < status then (tr, Inl (''unexpected status '' @ itoa status))
                     else
                       let content = take (nat (oi_max_bytes s)) body in
                       if fault \<noteq> None \<and> length body < nat (oi_max_bytes s) then (tr, Inl (the fault))
                       else if \<not> mentions domain content then (tr, Inr no_evidence)
                       else (case source_trust (url_hostname parsed) of (sourceType, confidence) \<Rightarrow>
                           (tr, Inr \<lparr>ev_domain = domain, ev_source_url = text,
                              ev_source_title = extract_title content, ev_source_type = sourceType,
                              ev_confidence = confidence, ev_terms = warning_matches content,
                              ev_retrieved = on_format env (on_now env)\<rparr>)))))"


subsection \<open>Lookup and cache\<close>

definition contains_reason :: "string list \<Rightarrow> string \<Rightarrow> bool" where
  "contains_reason reasons needle \<longleftrightarrow> list_ex (\<lambda>r. contains r needle) reasons"

definition has_strong_warning :: "evidence list \<Rightarrow> bool" where
  "has_strong_warning evs \<longleftrightarrow>
     list_ex (\<lambda>item. 85 / 100 \<le> ev_confidence item \<and>
       (ev_source_type item = type_official_warning \<or>
        ev_source_type item = type_trusted_news_warning \<or>
        ev_source_type item = type_safe_browsing_match)) evs"

definition should_lookup :: "string \<Rightarrow> result \<Rightarrow> bool" where
  "should_lookup domain r =
     (case normalize_domain domain of
        Inl _ \<Rightarrow> False
      | Inr normalized \<Rightarrow>
          if is_gov_vn normalized then False
          else if list_ex (contains normalized) sensitive_domain_terms then True
          else res_verdict r = Suspicious \<or> 35 \<le> res_score r)"

definition osint_key :: "string \<Rightarrow> string" where
  "osint_key domain = ''safe-road:osint:evidence:'' @ domain"

definition expired :: "osint_env \<Rightarrow> report \<Rightarrow> bool" where
  "expired env rep =
     (if rp_expires_at rep = [] then False
      else (case on_parse_time env (rp_expires_at rep) of
          None \<Rightarrow> True
        | Some t \<Rightarrow> t < on_now env))"

definition osint_cached ::
  "osint_env \<Rightarrow> 'r osint_service option \<Rightarrow> string \<Rightarrow> 'r osint_state \<Rightarrow> report option" where
  "osint_cached env os domain st =
     (case os of
        None \<Rightarrow> None
      | Some s \<Rightarrow>
          if \<not> oi_enabled s then None
          else (case normalize_domain domain of
              Inl _ \<Rightarrow> None
            | Inr normalized \<Rightarrow>
                let memory =
                  (case om_memory st normalized of
                     None \<Rightarrow> None
                   | Some rep \<Rightarrow> if expired env rep then None else Some rep) in
                (case get_json (on_decode env) (oi_redis s) (osint_key normalized) (om_redis st) of
                   Inr (Some rep) \<Rightarrow>
                     if rp_domain rep \<noteq> [] \<and> \<not> expired env rep then Some rep else memory
                 | _ \<Rightarrow> memory)))"

definition osint_store ::
  "osint_env \<Rightarrow> 'r osint_service \<Rightarrow> string \<Rightarrow> report \<Rightarrow> 'r osint_state \<Rightarrow> 'r osint_state" where
  "osint_store env s domain rep0 st =
     (let rep = (if rp_domain rep0 = [] then rep0\<lparr>rp_domain := domain\<rparr> else rep0);
          st1 = st\<lparr>om_memory := (om_memory st)(domain \<mapsto> rep)\<rparr> in
      if \<not> redis_enabled (oi_redis s) then st1
      else st1\<lparr>om_redis := fst (set_json (on_encode env) (oi_redis s) (osint_key domain) rep
                                 (oi_cache_ttl s) (om_redis st))\<rparr>)"

fun run_sources ::
  "osint_env \<Rightarrow> 'r osint_service \<Rightarrow> string \<Rightarrow> nat \<Rightarrow> report \<Rightarrow> string list \<Rightarrow> report \<times> err option" where
  "run_sources env s domain i rep [] = (rep, None)"
| "run_sources env s domain i rep (source # rest) =
     (case on_cancelled env i of
        Some e \<Rightarrow> (rep\<lparr>rp_error := e\<rparr>, Some e)
      | None \<Rightarrow>
          let rep1 = rep\<lparr>rp_sources_checked := rp_sources_checked rep + 1\<rparr> in
          run_sources env s domain (Suc i)
            (case snd (fetch_source env s domain source) of
               Inl _ \<Rightarrow> rep1
             | Inr ev \<Rightarrow>
                 if ev_source_url ev \<noteq> [] then rep1\<lparr>rp_evidence := rp_evidence rep1 @ [ev]\<rparr> else rep1)
            rest)"

definition fresh_report :: "osint_env \<Rightarrow> 'r osint_service \<Rightarrow> string \<Rightarrow> report" where
  "fresh_report env s normalized =
     no_report\<lparr>rp_domain := normalized, rp_enabled := True,
       rp_checked_at := on_format env (on_now env),
       rp_expires_at := on_format env (on_now env + oi_cache_ttl s)\<rparr>"

definition conclude_report :: "report \<Rightarrow> report" where
  "conclude_report rep =
     (let evs = sort_key (\<lambda>e. - ev_confidence e) (rp_evidence rep);
          block = has_strong_warning evs in
      rep\<lparr>rp_evidence := evs, rp_should_block := block,
          rp_impact := (if block then ''escalate_malicious'' else rp_impact rep)\<rparr>)"

definition osint_lookup ::
  "osint_env \<Rightarrow> 'r osint_service option \<Rightarrow> string \<Rightarrow> bool \<Rightarrow> 'r osint_state \<Rightarrow>
     'r osint_state \<times> report \<times> err option" where
  "osint_lookup env os domain force st =
     (case os of
        None \<Rightarrow> (st, no_report\<lparr>rp_domain := domain\<rparr>, None)
      | Some s \<Rightarrow>
          if \<not> oi_enabled s then (st, no_report\<lparr>rp_domain := domain\<rparr>, None)
          else (case normalize_domain domain of
              Inl e \<Rightarrow>
                (st, no_report\<lparr>rp_domain := trim_space domain, rp_enabled := True, rp_error := e\<rparr>, Some e)
            | Inr normalized \<Rightarrow>
                (case (if force then None else osint_cached env os normalized st) of
                   Some rep \<Rightarrow> (st, rep\<lparr>rp_cache_hit := True\<rparr>, None)
                 | None \<Rightarrow>
                     (case run_sources env s normalized 0 (fresh_report env s normalized) (oi_sources s) of
                        (rep, Some e) \<Rightarrow> (osint_store env s normalized rep st, rep, Some e)
                      | (rep, None) \<Rightarrow>
                          let final = conclude_report rep in
                          (osint_store env s normalized final st, final, None)))))"

definition osint_apply :: "result \<Rightarrow> report \<Rightarrow> result" where
  "osint_apply r rep =
     (if \<not> rp_should_block rep then r
      else r\<lparr>res_score := (if res_score r < 90 then 90 else res_score r),
             res_verdict := Malicious,
             res_confidence := (if res_confidence r < 92 / 100 then 92 / 100 else res_confidence r),
             res_category := ''phishing'',
             res_reasons := (if contains_reason (res_reasons r) ''public warning evidence'' then res_reasons r
               else res_reasons r @ [''public warning evidence: official/trusted source reports phishing''])\<rparr>)"


subsection \<open>Requests stay on validated hosts\<close>

definition validated :: "osint_env \<Rightarrow> 'r osint_service \<Rightarrow> url \<Rightarrow> bool" where
  "validated env s u \<longleftrightarrow> url_scheme u \<in> {''http'', ''https''} \<and>
     is_trusted_host s (to_lower (url_hostname u)) \<and>
     (oi_allow_private s \<or>
      (case on_lookup_ip env (to_lower (url_hostname u)) of
         Inl _ \<Rightarrow> False
       | Inr ips \<Rightarrow> \<not> list_ex is_blocked_ip ips))"

lemma validate_source_None: "validate_source env s u = None \<longleftrightarrow> validated env s u"
  by (auto simp: validate_source_def validated_def Let_def split: sum.splits)

lemma follow_validated:
  "follow env s via u t = (tr, r) \<Longrightarrow> validated env s u \<Longrightarrow> via \<le> 3 \<Longrightarrow>
     list_all (validated env s) tr \<and> length tr + via \<le> 4"
proof (induction env s via u t arbitrary: tr r rule: follow.induct)
  case (1 env s via u t)
  show ?case
  proof (cases "\<exists>location u'. on_exchange env t = Http_redirect location \<and> url_parse location = Some u' \<and>
      via < 3 \<and> validate_source env s u' = None")
    case True
    then obtain location u' where h: "on_exchange env t = Http_redirect location"
      "url_parse location = Some u'" "via < 3" "validate_source env s u' = None" by blast
    obtain tr' r' where f: "follow env s (Suc via) u' location = (tr', r')" by fastforce
    have "list_all (validated env s) tr' \<and> length tr' + Suc via \<le> 4"
      using 1(1) [of location u' tr' r'] h f by (simp add: validate_source_None)
    moreover have "tr = u # tr'" using 1(2) h f by (simp add: follow.simps [of env s via])
    ultimately show ?thesis using 1(3) by simp
  next
    case False
    then have "tr = [u]"
      using 1(2) by (auto simp: follow.simps [of env s via] split: http_reply.splits option.splits if_splits prod.splits)
    with 1 show ?thesis by simp
  qed
qed

lemma fetch_source_trace:
  assumes "fetch_source env s domain source = (tr, r)"
  shows "length tr \<le> 3 \<and> list_all (validated env s) tr"
proof (cases "tr = []")
  case False
  then obtain u r' where u: "validate_source env s u = None"
      "follow env s 1 u (on_url_text env (trim_space source)) = (tr, r')"
    using assms by (auto simp: fetch_source_def Let_def split: option.splits if_splits sum.splits prod.splits)
  from follow_validated [OF u(2)] u(1) show ?thesis by (simp add: validate_source_None)
qed simp

text \<open>C34. A lookup contacts trusted hosts only: every URL it requests, the redirects it follows included,
  has scheme http or https, a host of the trusted list, and (unless private sources are allowed) an
  address list without a blocked address; and there are at most three requests per source.\<close>

theorem fetch_source_validated:
  assumes "fetch_source env s domain source = (tr, r)"
  shows "length tr \<le> 3 \<and>
    list_all (\<lambda>u. url_scheme u \<in> {''http'', ''https''} \<and> is_trusted_host s (to_lower (url_hostname u)) \<and>
      (oi_allow_private s \<or> (case on_lookup_ip env (to_lower (url_hostname u)) of
         Inl _ \<Rightarrow> False
       | Inr ips \<Rightarrow> \<not> list_ex is_blocked_ip ips))) tr"
  using fetch_source_trace [OF assms] by (simp add: list_all_iff validated_def)


definition toy_osint_env :: osint_env where
  "toy_osint_env = \<lparr>on_now = 7, on_format = itoa, on_parse_time = atoi,
     on_lookup_ip = (\<lambda>_. Inr [IPv4 134744072]),
     on_exchange = (\<lambda>t. if t = ''https://gov.vn'' then Http_redirect ''https://www.gov.vn/''
                        else Http_answer 200 ''<title>Canh bao</title> a.vn'' None),
     on_url_text = (\<lambda>t. t), on_cancelled = (\<lambda>_. None),
     on_encode = (\<lambda>_. Inl []), on_decode = (\<lambda>_. Inl [])\<rparr>"

definition toy_osint :: "toy osint_service" where
  "toy_osint = \<lparr>oi_enabled = True, oi_mode = [], oi_timeout = 1, oi_cache_ttl = 5,
     oi_trusted = [''gov.vn''], oi_sources = [''https://gov.vn''], oi_redis = None,
     oi_redis_timeout = 1, oi_max_bytes = 1000, oi_allow_private = False\<rparr>"

lemma toy_fetch: "length (fst (fetch_source toy_osint_env toy_osint ''a.vn'' ''https://gov.vn'')) = 2"
  by code_simp

theorem fetch_source_validated_witness:
  "length (fst (fetch_source toy_osint_env toy_osint ''a.vn'' ''https://gov.vn'')) \<in> {2, 3}"
  using fetch_source_validated [OF prod.collapse [symmetric], of toy_osint_env toy_osint "''a.vn''" "''https://gov.vn''"]
    toy_fetch by auto

subsection \<open>Blocked addresses\<close>

definition ula_number :: "128 word" where "ula_number = push_bit 121 126"
definition link_local_number :: "128 word" where "link_local_number = push_bit 118 1018"
definition multicast_number :: "128 word" where "multicast_number = push_bit 120 255"

definition blocked_networks :: "ipnet list" where
  "blocked_networks =
     [Net4 0x7F000000 8, Net4 0x0A000000 8, Net4 0xAC100000 12, Net4 0xC0A80000 16,
      Net4 0xA9FE0000 16, Net4 0xE0000000 4, Net4 0 32,
      Net6 1 128, Net6 ula_number 7, Net6 link_local_number 10, Net6 multicast_number 8, Net6 0 128]"

lemma blocked_networks_text:
  "map Some blocked_networks = map parse_cidr
     [''127.0.0.0/8'', ''10.0.0.0/8'', ''172.16.0.0/12'', ''192.168.0.0/16'', ''169.254.0.0/16'',
      ''224.0.0.0/4'', ''0.0.0.0/32'', ''::1/128'', ''fc00::/7'', ''fe80::/10'', ''ff00::/8'', ''::/128'']"
  by code_simp

lemma and_prefix_mask:
  fixes x y :: "'a::len word"
  assumes "n \<le> LENGTH('a)"
  shows "x AND prefix_mask LENGTH('a) n = y AND prefix_mask LENGTH('a) n \<longleftrightarrow>
    drop_bit (LENGTH('a) - n) x = drop_bit (LENGTH('a) - n) y"
proof -
  let ?k = "LENGTH('a) - n"
  have bit: "bit (z AND prefix_mask LENGTH('a) n) i \<longleftrightarrow> ?k \<le> i \<and> bit z i" for z :: "'a word" and i
    using assms bit_imp_le_length [of z i]
    by (auto simp: prefix_mask_def bit_and_iff bit_push_bit_iff bit_mask_iff)
  show ?thesis
  proof
    assume a: "x AND prefix_mask LENGTH('a) n = y AND prefix_mask LENGTH('a) n"
    have "bit x (?k + i) = bit y (?k + i)" for i
      using arg_cong [OF a, of "\<lambda>z. bit z (?k + i)"] by (simp add: bit)
    then show "drop_bit ?k x = drop_bit ?k y" by (intro bit_eqI) (simp add: bit_drop_bit_eq)
  next
    assume a: "drop_bit ?k x = drop_bit ?k y"
    have "bit x i = bit y i" if "?k \<le> i" for i
      using arg_cong [OF a, of "\<lambda>z. bit z (i - ?k)"] that by (simp add: bit_drop_bit_eq)
    then show "x AND prefix_mask LENGTH('a) n = y AND prefix_mask LENGTH('a) n"
      by (intro bit_eqI) (auto simp: bit)
  qed
qed


lemma net4_contains:
  assumes "n \<le> 32"
  shows "net_contains (Net4 nn n) a \<longleftrightarrow>
    (case to4 a of IPv4 x \<Rightarrow> drop_bit (32 - n) x = drop_bit (32 - n) nn | IPv6 _ \<Rightarrow> False)"
proof (cases "to4 a")
  case (IPv4 x)
  have "nn AND prefix_mask 32 n = x AND prefix_mask 32 n \<longleftrightarrow> drop_bit (32 - n) nn = drop_bit (32 - n) x"
    using and_prefix_mask [where 'a = 32, of n nn x] assms by (simp only: len_num0 len_num1 len_bit0 len_bit1) simp
  then show ?thesis by (simp only: net_contains.simps IPv4 ip.case eq_commute)
qed simp

lemma net6_contains:
  assumes "n \<le> 128" "\<not> v4_mapped nn"
  shows "net_contains (Net6 nn n) a \<longleftrightarrow>
    (case to4 a of IPv4 _ \<Rightarrow> False | IPv6 x \<Rightarrow> drop_bit (128 - n) x = drop_bit (128 - n) nn)"
proof (cases "to4 a")
  case (IPv6 x)
  have "nn AND prefix_mask 128 n = x AND prefix_mask 128 n \<longleftrightarrow> drop_bit (128 - n) nn = drop_bit (128 - n) x"
    using and_prefix_mask [where 'a = 128, of n nn x] assms by (simp only: len_num0 len_num1 len_bit0 len_bit1) simp
  then show ?thesis by (simp only: net_contains.simps IPv6 ip.case assms if_False eq_commute)
qed (simp add: assms)

lemma link_local_multicast4: "drop_bit 8 (w :: 32 word) = 14680064 \<Longrightarrow> drop_bit 28 w = 14"
proof -
  assume "drop_bit 8 w = 14680064"
  then have "drop_bit 20 (drop_bit 8 w) = drop_bit 20 (14680064 :: 32 word)" by simp
  then show ?thesis by (simp add: drop_bit_drop_bit)
qed

lemma not_mapped_numbers:
  "\<not> v4_mapped 1" "\<not> v4_mapped 0" "\<not> v4_mapped ula_number" "\<not> v4_mapped link_local_number"
  "\<not> v4_mapped multicast_number"
  by code_simp+

lemma network_numbers:
  "drop_bit 24 (0x7F000000 :: 32 word) = 127" "drop_bit 24 (0x0A000000 :: 32 word) = 10"
  "drop_bit 20 (0xAC100000 :: 32 word) = 2753" "drop_bit 16 (0xC0A80000 :: 32 word) = 49320"
  "drop_bit 16 (0xA9FE0000 :: 32 word) = 43518" "drop_bit 28 (0xE0000000 :: 32 word) = 14"
  "drop_bit 121 ula_number = 126" "drop_bit 118 link_local_number = 1018"
  "drop_bit 120 multicast_number = 255"
  by code_simp+

lemma blocked_ip_networks: "is_blocked_ip a \<longleftrightarrow> list_ex (\<lambda>n. net_contains n a) blocked_networks"
proof (cases "to4 a")
  case (IPv4 w)
  have "is_blocked_ip a \<longleftrightarrow> blocked4 w" by (simp add: is_blocked_ip_def IPv4)
  moreover have "list_ex (\<lambda>n. net_contains n a) blocked_networks \<longleftrightarrow>
      drop_bit 24 w = 127 \<or> drop_bit 24 w = 10 \<or> drop_bit 20 w = 2753 \<or> drop_bit 16 w = 49320 \<or>
      drop_bit 16 w = 43518 \<or> drop_bit 28 w = 14 \<or> w = 0"
    by (simp add: blocked_networks_def net4_contains net6_contains not_mapped_numbers network_numbers IPv4
        del: net_contains.simps)
  ultimately show ?thesis using link_local_multicast4 [of w] by auto
next
  case (IPv6 w)
  have "is_blocked_ip a \<longleftrightarrow> blocked6 w" by (simp add: is_blocked_ip_def IPv6)
  moreover have "list_ex (\<lambda>n. net_contains n a) blocked_networks \<longleftrightarrow>
      w = 1 \<or> drop_bit 121 w = 126 \<or> drop_bit 118 w = 1018 \<or> drop_bit 120 w = 255 \<or> w = 0"
    by (simp add: blocked_networks_def net4_contains net6_contains not_mapped_numbers network_numbers IPv6
        del: net_contains.simps)
  ultimately show ?thesis by auto
qed

text \<open>The addresses a source may not resolve to are exactly those of twelve networks: loopback,
  private, link-local, multicast and the unspecified address of both families, an IPv4-mapped IPv6
  address being judged as its IPv4 address.\<close>

lemma is_blocked_ip_networks:
  "is_blocked_ip a \<longleftrightarrow> list_ex (\<lambda>n. case parse_cidr n of None \<Rightarrow> False | Some net \<Rightarrow> net_contains net a)
     [''127.0.0.0/8'', ''10.0.0.0/8'', ''172.16.0.0/12'', ''192.168.0.0/16'', ''169.254.0.0/16'',
      ''224.0.0.0/4'', ''0.0.0.0/32'', ''::1/128'', ''fc00::/7'', ''fe80::/10'', ''ff00::/8'', ''::/128'']"
proof -
  have "list_ex (\<lambda>n. case parse_cidr n of None \<Rightarrow> False | Some net \<Rightarrow> net_contains net a) ts \<longleftrightarrow>
      list_ex (case_option False (\<lambda>net. net_contains net a)) (map parse_cidr ts)" for ts
    by (induction ts) simp_all
  moreover have "list_ex (case_option False (\<lambda>net. net_contains net a)) (map Some ns) \<longleftrightarrow>
      list_ex (\<lambda>n. net_contains n a) ns" for ns
    by (induction ns) simp_all
  ultimately show ?thesis by (simp only: blocked_ip_networks flip: blocked_networks_text)
qed


subsection \<open>What a lookup concludes\<close>

text \<open>The reference: a source warns when it is validated, answers with success, its body up to the
  size limit is read, and the body names the domain and one of the warning terms.\<close>

definition source_warns :: "osint_env \<Rightarrow> 'r osint_service \<Rightarrow> string \<Rightarrow> string \<Rightarrow> bool" where
  "source_warns env s domain source \<longleftrightarrow>
     (case url_parse (trim_space source) of
        None \<Rightarrow> False
      | Some u \<Rightarrow> url_hostname u \<noteq> [] \<and> validated env s u \<and>
          (case snd (follow env s 1 u (on_url_text env (trim_space source))) of
             Inl _ \<Rightarrow> False
           | Inr (status, body, fault) \<Rightarrow> 200 \<le> status \<and> status \<le> 299 \<and>
               (fault = None \<or> nat (oi_max_bytes s) \<le> length body) \<and>
               mentions domain (take (nat (oi_max_bytes s)) body)))"

definition good_evidence :: "string \<Rightarrow> evidence \<Rightarrow> bool" where
  "good_evidence domain ev \<longleftrightarrow> ev_domain ev = domain \<and> ev_source_url ev \<noteq> [] \<and> ev_terms ev \<noteq> [] \<and>
     (ev_source_type ev, ev_confidence ev) \<in>
       {(type_official_warning, 95 / 100), (type_trusted_news_warning, 88 / 100)}"

lemma fetch_source_evidence:
  assumes "\<And>t. on_url_text env t \<noteq> []"
  shows "case snd (fetch_source env s domain source) of
      Inl _ \<Rightarrow> \<not> source_warns env s domain source
    | Inr ev \<Rightarrow> if source_warns env s domain source then good_evidence domain ev else ev = no_evidence"
proof (cases "url_parse (trim_space source)")
  case (Some u)
  show ?thesis
  proof (cases "url_hostname u \<noteq> [] \<and> validated env s u")
    case True
    obtain tr r where f: "follow env s (Suc 0) u (on_url_text env (trim_space source)) = (tr, r)" by fastforce
    obtain ty c where t: "source_trust (url_hostname u) = (ty, c)" by fastforce
    have tc: "(ty, c) \<in> {(type_official_warning, 95 / 100), (type_trusted_news_warning, 88 / 100)}"
      using t by (auto simp: source_trust_def Let_def split: if_splits)
    show ?thesis
    proof (cases r)
      case (Inr a)
      obtain status body fault where a: "a = (status, body, fault)" by (cases a)
      have v: "validate_source env s u = None" using True by (simp add: validate_source_None)
      show ?thesis using True tc assms [of "trim_space source"] unfolding good_evidence_def
        by (cases fault) (simp_all add: fetch_source_def source_warns_def Some f v Inr a t Let_def mentions_def)
    qed (use True in \<open>simp add: fetch_source_def source_warns_def Some f validate_source_None [THEN iffD2]\<close>)
  next
    case False
    then have "url_hostname u = [] \<or> validate_source env s u \<noteq> None" by (simp add: validate_source_None)
    then have "\<exists>e. snd (fetch_source env s domain source) = Inl e"
      by (auto simp: fetch_source_def Some)
    with False show ?thesis by (auto simp: source_warns_def Some)
  qed
qed (simp add: fetch_source_def source_warns_def)

lemma good_strong: "good_evidence domain ev \<Longrightarrow> has_strong_warning (ev # evs)"
  by (auto simp: good_evidence_def has_strong_warning_def)

lemma run_sources_evidence:
  assumes "\<And>t. on_url_text env t \<noteq> []" "run_sources env s domain i rep sources = (rep', None)"
    "list_all (good_evidence domain) (rp_evidence rep)"
  shows "list_all (good_evidence domain) (rp_evidence rep') \<and>
    (rp_evidence rep' \<noteq> [] \<longleftrightarrow> rp_evidence rep \<noteq> [] \<or> list_ex (source_warns env s domain) sources) \<and>
    rp_sources_checked rep' = rp_sources_checked rep + int (length sources) \<and>
    rp_domain rep' = rp_domain rep \<and> rp_expires_at rep' = rp_expires_at rep"
  using assms(2,3)
proof (induction sources arbitrary: i rep)
  case (Cons source rest)
  note ev = fetch_source_evidence [OF assms(1), of s domain source]
  from Cons.prems(1) have c: "on_cancelled env i = None"
    by (auto split: option.splits)
  show ?case
  proof (cases "source_warns env s domain source")
    case True
    with ev obtain e where e: "snd (fetch_source env s domain source) = Inr e" "good_evidence domain e"
      by (auto split: sum.splits)
    with Cons.prems c have "run_sources env s domain (Suc i)
        (rep\<lparr>rp_sources_checked := rp_sources_checked rep + 1, rp_evidence := rp_evidence rep @ [e]\<rparr>) rest
        = (rep', None)"
      by (simp add: good_evidence_def Let_def)
    from Cons.IH [OF this] Cons.prems(2) e(2) True show ?thesis by auto
  next
    case False
    with ev have "snd (fetch_source env s domain source) = Inr no_evidence \<or>
        (\<exists>x. snd (fetch_source env s domain source) = Inl x)"
      by (auto split: sum.splits)
    then have "run_sources env s domain (Suc i) (rep\<lparr>rp_sources_checked := rp_sources_checked rep + 1\<rparr>) rest
        = (rep', None)"
      using Cons.prems(1) c by (auto simp: no_evidence_def Let_def)
    from Cons.IH [OF this] Cons.prems(2) False show ?thesis by auto
  qed
qed simp

lemma conclude_good:
  assumes "list_all (good_evidence domain) (rp_evidence rep)"
  shows "rp_should_block (conclude_report rep) \<longleftrightarrow> rp_evidence rep \<noteq> []"
proof (cases "rp_evidence rep")
  case (Cons e es)
  let ?s = "sort_key (\<lambda>e. - ev_confidence e) (rp_evidence rep)"
  have "e \<in> set ?s" unfolding set_sort using Cons by simp
  moreover have "good_evidence domain e" using assms Cons by simp
  ultimately have "has_strong_warning ?s" using good_strong [of domain e "[]"]
    unfolding has_strong_warning_def list_ex_iff by auto
  with Cons show ?thesis by (simp add: conclude_report_def Let_def)
qed (simp add: conclude_report_def has_strong_warning_def)

lemma lookup_block:
  assumes "\<And>t. on_url_text env t \<noteq> []" "oi_enabled s" "normalize_domain domain = Inr n"
    "osint_lookup env (Some s) domain True st = (st', rep, None)"
  shows "rp_domain rep = n \<and> (rp_should_block rep \<longleftrightarrow> list_ex (source_warns env s n) (oi_sources s)) \<and>
    list_all (good_evidence n) (rp_evidence rep) \<and>
    rp_sources_checked rep = int (length (oi_sources s)) \<and>
    rp_expires_at rep = on_format env (on_now env + oi_cache_ttl s) \<and>
    st' = osint_store env s n rep st"
proof -
  obtain r0 where r0: "run_sources env s n 0 (fresh_report env s n) (oi_sources s) = (r0, None)"
    "rep = conclude_report r0" "st' = osint_store env s n rep st"
    using assms(2-4) by (auto simp: osint_lookup_def Let_def split: prod.splits option.splits)
  have "list_all (good_evidence n) (rp_evidence r0) \<and>
    (rp_evidence r0 \<noteq> [] \<longleftrightarrow> list_ex (source_warns env s n) (oi_sources s)) \<and>
    rp_sources_checked r0 = int (length (oi_sources s)) \<and> rp_domain r0 = n \<and>
    rp_expires_at r0 = on_format env (on_now env + oi_cache_ttl s)"
    using run_sources_evidence [OF assms(1) r0(1)] by (simp add: fresh_report_def no_report_def)
  moreover have "list_all (good_evidence n) (rp_evidence rep) \<longleftrightarrow> list_all (good_evidence n) (rp_evidence r0)"
    "rp_domain rep = rp_domain r0" "rp_sources_checked rep = rp_sources_checked r0"
    "rp_expires_at rep = rp_expires_at r0"
    by (simp_all add: r0(2) conclude_report_def Let_def list_all_iff)
  ultimately show ?thesis using conclude_good [of n r0] r0(2,3) by auto
qed



definition toy_state :: "toy osint_state" where
  "toy_state = \<lparr>om_memory = (\<lambda>_. None), om_redis = []\<rparr>"

definition quiet_osint_env :: osint_env where
  "quiet_osint_env = toy_osint_env\<lparr>on_url_text := (\<lambda>t. ''u'' @ t)\<rparr>"

lemma quiet_lookup: "snd (snd (osint_lookup quiet_osint_env (Some toy_osint) ''a'' True toy_state)) = None"
  by (simp add: osint_lookup_def toy_osint_def normalize_a quiet_osint_env_def toy_osint_env_def Let_def
      split: prod.splits sum.splits)

lemma quiet_url: "on_url_text quiet_osint_env t \<noteq> []"
  by (simp add: quiet_osint_env_def toy_osint_env_def)


text \<open>The documented behaviour that caching relies on: time stamps and reports read back as written.\<close>

definition codec_laws :: "osint_env \<Rightarrow> bool" where
  "codec_laws env \<longleftrightarrow> (\<forall>t. on_format env t \<noteq> [] \<and> on_parse_time env (on_format env t) = Some t) \<and>
     (\<forall>rep text. on_encode env rep = Inr text \<longrightarrow> on_decode env text = Inr rep)"

text \<open>A Redis that stores strings and a write that succeeds, or no Redis at all.\<close>

definition write_lands :: "osint_env \<Rightarrow> 'r osint_service \<Rightarrow> string \<Rightarrow> report \<Rightarrow> 'r osint_state \<Rightarrow> bool" where
  "write_lands env s n rep st \<longleftrightarrow>
     (case oi_redis s of
        None \<Rightarrow> True
      | Some k \<Rightarrow> redis_strings k \<and>
          snd (set_json (on_encode env) (Some k) (osint_key n) rep (oi_cache_ttl s) (om_redis st)) = Inr ())"

lemma stored_then_cached:
  assumes "codec_laws env" "write_lands env s n rep st" "normalize_domain domain = Inr n" "oi_enabled s"
    "rp_domain rep = n" "n \<noteq> []" "\<not> expired env rep"
  shows "osint_cached env (Some s) domain (osint_store env s n rep st) = Some rep"
proof (cases "oi_redis s")
  case None
  with assms show ?thesis
    by (simp add: osint_cached_def osint_store_def redis_enabled_def Let_def get_json_def)
next
  case (Some k)
  obtain r' where r': "set_json (on_encode env) (Some k) (osint_key n) rep (oi_cache_ttl s) (om_redis st) = (r', Inr ())"
    using assms(2) by (auto simp: write_lands_def Some split: prod.splits) (metis prod.collapse)
  have k: "redis_strings k" using assms(2) by (simp add: write_lands_def Some)
  have "get_json (on_decode env) (Some k) (osint_key n) r' = Inr (Some rep)"
    using get_set_json [OF k r'] assms(1) by (simp add: codec_laws_def)
  with assms show ?thesis
    by (simp add: osint_cached_def osint_store_def redis_enabled_def Let_def Some r')
qed

lemma fresh_not_expired:
  assumes "codec_laws env" "rp_expires_at rep = on_format env (on_now env + ttl)" "0 \<le> ttl"
  shows "\<not> expired env rep"
  using assms by (simp add: expired_def codec_laws_def)

text \<open>A lookup is remembered: until the report expires, the cached answer for every spelling of
  the domain is the report just concluded, whether Redis is used or not.  The service that
  \<^verbatim>\<open>NewService\<close> builds always has a positive time to live.\<close>

lemma osint_lookup_then_cached:
  assumes "codec_laws env" "\<And>t. on_url_text env t \<noteq> []" "oi_enabled (new_osint options)"
    "normalize_domain domain = Inr n" "normalize_domain other = Inr n" "normalize_domain n = Inr n"
    "osint_lookup env (Some (new_osint options)) domain True st = (st', rep, None)"
    "write_lands env (new_osint options) n rep st"
  shows "osint_cached env (Some (new_osint options)) other st' = Some rep \<and>
    osint_lookup env (Some (new_osint options)) other False st' = (st', rep\<lparr>rp_cache_hit := True\<rparr>, None)"
proof -
  let ?s = "new_osint options"
  note l = lookup_block [OF assms(2,3,4,7)]
  have "0 \<le> oi_cache_ttl ?s" by (simp add: new_osint_def Let_def second_def)
  then have e: "\<not> expired env rep" using l fresh_not_expired [OF assms(1)] by blast
  have n: "n \<noteq> []" using normalize_Inr [OF assms(4)] by simp
  have c: "osint_cached env (Some ?s) d st' = Some rep" if "normalize_domain d = Inr n" for d
    using stored_then_cached [OF assms(1,8) that assms(3) _ n e] l by simp
  show ?thesis using c [OF assms(5)] c [OF assms(6)] assms(3,5) by (simp add: osint_lookup_def)
qed

definition stroke_time :: "int \<Rightarrow> string" where
  "stroke_time t = (if t < 0 then CHR ''-'' else CHR ''+'') # replicate (nat \<bar>t\<bar>) CHR ''x''"

definition read_strokes :: "string \<Rightarrow> int option" where
  "read_strokes s = Some (if hd s = CHR ''-'' then - int (length s - 1) else int (length s - 1))"

definition stroke_env :: osint_env where
  "stroke_env = quiet_osint_env\<lparr>on_format := stroke_time, on_parse_time := read_strokes\<rparr>"

definition plain_options :: "toy osint_options" where
  "plain_options = \<lparr>oo_enabled = True, oo_mode = [], oo_timeout = 0, oo_cache_ttl = 5, oo_trusted = [],
     oo_sources = [], oo_redis = None, oo_redis_timeout = 0, oo_max_bytes = 0, oo_allow_private = False\<rparr>"

lemma stroke_laws: "codec_laws stroke_env"
  by (simp add: codec_laws_def stroke_env_def stroke_time_def read_strokes_def quiet_osint_env_def
      toy_osint_env_def)

lemma osint_lookup_then_cached_witness:
  "rp_cache_hit (fst (snd (osint_lookup stroke_env (Some (new_osint plain_options)) ''a'' False
     (fst (osint_lookup stroke_env (Some (new_osint plain_options)) ''a.'' True toy_state)))))"
proof -
  let ?s = "new_osint plain_options"
  have en: "oi_enabled ?s" "oi_redis ?s = None" "oi_sources ?s = []"
    by (simp_all add: new_osint_def plain_options_def Let_def normalize_list_def)
  obtain st' rep where l: "osint_lookup stroke_env (Some ?s) ''a.'' True toy_state = (st', rep, None)"
    using en by (simp add: osint_lookup_def normalize_a Let_def)
  have w: "write_lands stroke_env ?s ''a'' rep toy_state" by (simp add: write_lands_def en)
  have u: "on_url_text stroke_env t \<noteq> []" for t by (simp add: stroke_env_def quiet_osint_env_def toy_osint_env_def)
  show ?thesis
    using osint_lookup_then_cached [OF stroke_laws u en(1) normalize_a(1,3,3) l w] l by simp
qed

subsection \<open>What the evidence does to an assessment\<close>

lemma osint_apply_mono:
  "res_verdict r \<le> res_verdict (osint_apply r rep) \<and> res_score r \<le> res_score (osint_apply r rep) \<and>
   res_confidence r \<le> res_confidence (osint_apply r rep) \<and> res_domain (osint_apply r rep) = res_domain r \<and>
   (res_verdict r \<noteq> Malicious \<and> res_verdict (osint_apply r rep) = Malicious \<longrightarrow>
      rp_should_block rep \<and> 90 \<le> res_score (osint_apply r rep))"
  by (simp add: osint_apply_def)

lemma contains_reason_added:
  "contains_reason (rs @ [''public warning evidence: official/trusted source reports phishing''])
     ''public warning evidence''"
proof -
  have "contains ''public warning evidence: official/trusted source reports phishing'' ''public warning evidence''"
    by code_simp
  then show ?thesis by (simp add: contains_reason_def)
qed

text \<open>Evidence only escalates, and applying it again changes nothing: without a request to block the
  assessment is unchanged, with one it is malicious phishing with a score of at least 90, a confidence of
  at least 0.92 and a reason that says so; score, confidence, verdict and reasons never go down.\<close>

lemma osint_apply_escalates:
  "osint_apply (osint_apply r rep) rep = osint_apply r rep \<and>
   res_verdict r \<le> res_verdict (osint_apply r rep) \<and> res_score r \<le> res_score (osint_apply r rep) \<and>
   res_confidence r \<le> res_confidence (osint_apply r rep) \<and>
   set (res_reasons r) \<subseteq> set (res_reasons (osint_apply r rep)) \<and>
   (if rp_should_block rep
    then res_verdict (osint_apply r rep) = Malicious \<and> 90 \<le> res_score (osint_apply r rep) \<and>
      92 / 100 \<le> res_confidence (osint_apply r rep) \<and> res_category (osint_apply r rep) = ''phishing'' \<and>
      contains_reason (res_reasons (osint_apply r rep)) ''public warning evidence''
    else osint_apply r rep = r)"
  using osint_apply_mono [of r rep] contains_reason_added [of "res_reasons r"]
  by (auto simp: osint_apply_def)

lemma should_lookup_iff:
  "should_lookup domain r \<longleftrightarrow>
     (\<exists>n. normalize_domain domain = Inr n \<and> \<not> is_gov_vn n \<and>
        (res_verdict r = Suspicious \<or> 35 \<le> res_score r \<or> list_ex (contains n) sensitive_domain_terms))"
  by (auto simp: should_lookup_def split: sum.splits)

end
