(* ===== verification/Ai.thy ===== *)
theory Ai
  imports Osint
begin

text \<open>
  \<^verbatim>\<open>internal/ai\<close>: the second opinion of a language model.  Outside the code are the HTTP
  exchange, the construction of a request and the JSON codecs: the record \<open>ai_env\<close>.  Both providers
  and the manager that selects between them meet the contract \<open>provider\<close>, on which the risk service
  relies.
\<close>

subsection \<open>Text\<close>

definition verdict_string :: "verdict \<Rightarrow> string" where
  "verdict_string v = (case v of Invalid \<Rightarrow> ''INVALID'' | Safe \<Rightarrow> ''SAFE''
     | Suspicious \<Rightarrow> ''SUSPICIOUS'' | Malicious \<Rightarrow> ''MALICIOUS'')"

text \<open>\<^verbatim>\<open>strings.ToUpper\<close> on the runes that have an ASCII image: the letters, the dotless i and
  the long s.  The result is compared with ASCII words only, which no other rune can take part in.\<close>

definition upper_rune :: "rune \<Rightarrow> rune" where
  "upper_rune r = (if 97 \<le> r \<and> r \<le> 122 then r - 32 else if r = 305 then 73 else if r = 383 then 83 else r)"

definition to_upper :: "string \<Rightarrow> string" where
  "to_upper s = encode_runes (map upper_rune (runes s))"

definition trim_right_slash :: "string \<Rightarrow> string" where
  "trim_right_slash s = rev (dropWhile (\<lambda>c. c = CHR ''/'') (rev s))"

text \<open>\<^verbatim>\<open>url.PathEscape\<close> and \<^verbatim>\<open>url.QueryEscape\<close>.\<close>

definition hex_digit :: "int \<Rightarrow> char" where
  "hex_digit n = ''0123456789ABCDEF'' ! nat n"

definition percent :: "char \<Rightarrow> string" where
  "percent c = [CHR ''%'', hex_digit (byte_of c div 16), hex_digit (byte_of c mod 16)]"

definition path_escape :: "string \<Rightarrow> string" where
  "path_escape s = concat (map (\<lambda>c.
     if is_alpha c \<or> is_dec c \<or> c \<in> set ''-_.~$&+=:@'' then [c] else percent c) s)"

definition query_escape :: "string \<Rightarrow> string" where
  "query_escape s = concat (map (\<lambda>c.
     if is_alpha c \<or> is_dec c \<or> c \<in> set ''-_.~'' then [c]
     else if c = CHR '' '' then ''+'' else percent c) s)"

text \<open>The format \<^verbatim>\<open>%.2f\<close>: hundredths, ties to even.\<close>

definition hundredths :: "real \<Rightarrow> int" where
  "hundredths x =
     (let f = \<lfloor>100 * x\<rfloor>; d = 100 * x - of_int f in
      if d < 1 / 2 then f else if 1 / 2 < d then f + 1 else if even f then f else f + 1)"

definition fixed2 :: "real \<Rightarrow> string" where
  "fixed2 x =
     (let n = hundredths \<bar>x\<bar> in
      (if x < 0 then ''-'' else []) @ itoa (n div 100) @ ''.'' @
      [char_of (nat (48 + n div 10 mod 10)), char_of (nat (48 + n mod 10))])"

definition prompt_head :: string where
  "prompt_head = byte_string
     [66, 225, 186, 161, 110, 32, 108, 195, 160, 32, 99, 104, 117, 121, 195, 170, 110, 32, 103,
      105, 97, 32, 98, 225, 186, 163, 111, 32, 109, 225, 186, 173, 116, 46, 32, 80, 104, 195,
      162, 110, 32, 116, 195, 173, 99, 104, 32, 100, 111, 109, 97, 105, 110, 32, 115, 97, 117,
      58, 32]"

definition prompt_current :: string where
  "prompt_current = byte_string
     [10, 75, 225, 186, 191, 116, 32, 113, 117, 225, 186, 163, 32, 104, 105, 225, 187, 135, 110,
      32, 116, 225, 186, 161, 105, 58, 32, 118, 101, 114, 100, 105, 99, 116, 61]"

definition prompt_tail :: string where
  "prompt_tail = byte_string
     [10, 10, 84, 114, 225, 186, 163, 32, 108, 225, 187, 157, 105, 32, 67, 72, 195, 141, 78, 72,
      32, 88, 195, 129, 67, 32, 116, 104, 101, 111, 32, 74, 83, 79, 78, 58, 10, 123, 34, 118,
      101, 114, 100, 105, 99, 116, 34, 58, 32, 34, 83, 65, 70, 69, 124, 83, 85, 83, 80, 73, 67,
      73, 79, 85, 83, 124, 77, 65, 76, 73, 67, 73, 79, 85, 83, 34, 44, 32, 34, 99, 111, 110, 102,
      105, 100, 101, 110, 99, 101, 34, 58, 32, 48, 46, 48, 45, 49, 46, 48, 44, 32, 34, 99, 97,
      116, 101, 103, 111, 114, 121, 34, 58, 32, 34, 115, 111, 99, 105, 97, 108, 95, 109, 101,
      100, 105, 97, 124, 97, 100, 117, 108, 116, 124, 103, 97, 109, 98, 108, 105, 110, 103, 124,
      103, 97, 109, 105, 110, 103, 124, 97, 100, 118, 101, 114, 116, 105, 115, 105, 110, 103,
      124, 109, 97, 108, 119, 97, 114, 101, 124, 112, 104, 105, 115, 104, 105, 110, 103, 124,
      117, 110, 99, 97, 116, 101, 103, 111, 114, 105, 122, 101, 100, 34, 44, 32, 34, 114, 101,
      97, 115, 111, 110, 34, 58, 32, 34, 103, 105, 225, 186, 163, 105, 32, 116, 104, 195, 173,
      99, 104, 32, 110, 103, 225, 186, 175, 110, 34, 125]"

definition build_prompt :: "string \<Rightarrow> result \<Rightarrow> string" where
  "build_prompt domain current =
     prompt_head @ domain @ prompt_current @ verdict_string (res_verdict current) @
     '', score='' @ itoa (res_score current) @ '', confidence='' @ fixed2 (res_confidence current) @
     prompt_tail"

definition brace_open :: char where "brace_open = CHR ''{''"
definition brace_close :: char where "brace_close = CHR ''}''"

definition backticks :: string where "backticks = replicate 3 (char_of (96 :: nat))"

text \<open>\<^verbatim>\<open>extractJSON\<close>: without the fence of a code block, cut to the outermost braces.\<close>

definition extract_json :: "string \<Rightarrow> string" where
  "extract_json t0 =
     (let t = trim_space (trim_suffix
                (trim_prefix (trim_prefix (trim_space t0) (backticks @ ''json'')) backticks) backticks) in
      if has_prefix t [brace_open] \<and> has_suffix t [brace_close] then t
      else (case cut brace_open t of
          (_, None) \<Rightarrow> t
        | (_, Some rest) \<Rightarrow>
            (case cut_last brace_close rest of
               None \<Rightarrow> t
             | Some (inside, _) \<Rightarrow> [brace_open] @ inside @ [brace_close])))"

subsection \<open>Requests and replies\<close>

record ai_config =
  cfg_provider :: string
  cfg_gemini_base :: string
  cfg_gemini_key :: string
  cfg_gemini_model :: string
  cfg_gemini_timeout :: int
  cfg_ollama_base :: string
  cfg_ollama_model :: string
  cfg_ollama_timeout :: int

record gemini_client =
  gm_base :: string
  gm_key :: string
  gm_model :: string
  gm_timeout :: int
  gm_http :: bool

record ollama_client =
  ol_base :: string
  ol_model :: string
  ol_timeout :: int
  ol_http :: bool

record ai_client =
  ac_provider :: string
  ac_gemini :: "gemini_client option"
  ac_ollama :: "ollama_client option"

record ai_result =
  ai_verdict :: string
  ai_confidence :: real
  ai_reason :: string
  ai_category :: string

record generate_request =
  gr_role :: string
  gr_text :: string
  gr_temperature :: real
  gr_mime :: string

record ollama_request =
  or_model :: string
  or_prompt :: string
  or_stream :: bool
  or_format :: string

text \<open>A Gemini envelope: the texts of the parts of each candidate, and the error message.\<close>

record generate_response =
  gs_candidates :: "string list list"
  gs_error :: string

record ai_env =
  ax_new_request :: "string \<Rightarrow> err option"
  ax_post :: "int \<Rightarrow> string \<Rightarrow> string \<Rightarrow> (int \<times> string) go_result"
  ax_encode_gemini :: "generate_request \<Rightarrow> string go_result"
  ax_decode_gemini :: "string \<Rightarrow> generate_response go_result"
  ax_encode_ollama :: "ollama_request \<Rightarrow> string go_result"
  ax_decode_ollama :: "string \<Rightarrow> string go_result"
  ax_decode_result :: "string \<Rightarrow> ai_result go_result"

text \<open>\<^verbatim>\<open>http.NewRequest\<close>, \<^verbatim>\<open>Do\<close> and the check of the status.\<close>

definition post_json :: "ai_env \<Rightarrow> string \<Rightarrow> string \<Rightarrow> int \<Rightarrow> string \<Rightarrow> string \<Rightarrow> string go_result" where
  "post_json env failed returned timeout u body =
     (case ax_new_request env u of
        Some e \<Rightarrow> Inl e
      | None \<Rightarrow>
          (case ax_post env timeout u body of
             Inl e \<Rightarrow> Inl (failed @ e)
           | Inr (status, reply) \<Rightarrow>
               if status < 200 \<or> 300 \<le> status then Inl (returned @ '' returned HTTP '' @ itoa status)
               else Inr reply))"

definition first_response_text :: "generate_response \<Rightarrow> string go_result" where
  "first_response_text envelope =
     (case gs_candidates envelope of
        [] \<Rightarrow> Inl ''gemini returned no candidates''
      | parts # _ \<Rightarrow>
          if parts = [] then Inl ''gemini returned no content parts''
          else Inr (trim_space (concat parts)))"

text \<open>The second half of both \<^verbatim>\<open>Refine\<close> methods.\<close>

definition refined_result :: "string \<Rightarrow> string \<Rightarrow> result \<Rightarrow> ai_result \<Rightarrow> result" where
  "refined_result prefix' domain current parsed =
     (let word = to_upper (trim_space (ai_verdict parsed));
          v = (if word = ''MALICIOUS'' then Malicious else if word = ''SUSPICIOUS'' then Suspicious else Safe);
          c0 = (if ai_confidence parsed < 0 then 0 else ai_confidence parsed);
          category = to_lower (trim_space (ai_category parsed))
      in \<lparr>res_domain = res_domain current, res_verdict = v,
          res_confidence = (if 1 < c0 then 1 else c0),
          res_score = (if v = Malicious then 85 else if v = Suspicious then 55 else 0),
          res_reasons = (if ai_reason parsed \<noteq> [] then [prefix' @ ai_reason parsed] else []),
          res_category = (if category \<noteq> [] \<and> category \<noteq> ''uncategorized'' then category
                          else classify_category domain)\<rparr>)"

subsection \<open>Gemini\<close>

definition new_gemini :: "string \<Rightarrow> string \<Rightarrow> string \<Rightarrow> int \<Rightarrow> gemini_client" where
  "new_gemini baseURL apiKey model timeout =
     (let base = trim_space baseURL; key = trim_space apiKey;
          m = (if model = [] then ''gemini-2.5-flash-lite'' else model);
          b = (if base = [] then ''https://generativelanguage.googleapis.com/v1beta'' else base);
          t = (if timeout \<le> 0 then 3 * second else timeout)
      in if key = [] then \<lparr>gm_base = [], gm_key = [], gm_model = m, gm_timeout = t, gm_http = False\<rparr>
         else \<lparr>gm_base = trim_right_slash b, gm_key = key, gm_model = m, gm_timeout = t, gm_http = True\<rparr>)"

definition gemini_enabled :: "gemini_client option \<Rightarrow> bool" where
  "gemini_enabled og \<longleftrightarrow> (case og of None \<Rightarrow> False | Some g \<Rightarrow> gm_key g \<noteq> [] \<and> gm_http g)"

definition gemini_refine :: "gemini_client option \<Rightarrow> ai_env \<Rightarrow> string \<Rightarrow> result \<Rightarrow> result go_result" where
  "gemini_refine og env domain current =
     (case og of
        None \<Rightarrow> Inl ''gemini provider disabled''
      | Some g \<Rightarrow>
          if \<not> gemini_enabled og then Inl ''gemini provider disabled''
          else (case ax_encode_gemini env
                  \<lparr>gr_role = ''user'', gr_text = build_prompt domain current, gr_temperature = 0,
                   gr_mime = ''application/json''\<rparr> of
              Inl e \<Rightarrow> Inl e
            | Inr body \<Rightarrow>
                (case post_json env [] ''gemini'' (gm_timeout g)
                        (gm_base g @ ''/models/'' @ path_escape (gm_model g) @ '':generateContent?key='' @
                         query_escape (gm_key g)) body of
                   Inl e \<Rightarrow> Inl e
                 | Inr reply \<Rightarrow>
                     (case ax_decode_gemini env reply of
                        Inl e \<Rightarrow> Inl e
                      | Inr envelope \<Rightarrow>
                          if gs_error envelope \<noteq> [] then Inl (gs_error envelope)
                          else (case first_response_text envelope of
                              Inl e \<Rightarrow> Inl e
                            | Inr answer \<Rightarrow>
                                (case ax_decode_result env (extract_json answer) of
                                   Inl e \<Rightarrow> Inl e
                                 | Inr parsed \<Rightarrow>
                                     Inr (refined_result ''local ai classification: '' domain current parsed)))))))"

subsection \<open>Ollama\<close>

definition new_ollama :: "string \<Rightarrow> string \<Rightarrow> int \<Rightarrow> ollama_client" where
  "new_ollama baseURL model timeout =
     (let base = trim_space baseURL; m = trim_space model in
      \<lparr>ol_base = trim_right_slash (if base = [] then ''http://localhost:11434'' else base),
       ol_model = (if m = [] then ''gemma2:2b'' else m),
       ol_timeout = (if timeout \<le> 0 then 5 * second else timeout), ol_http = True\<rparr>)"

definition ollama_enabled :: "ollama_client option \<Rightarrow> bool" where
  "ollama_enabled oo \<longleftrightarrow> (case oo of None \<Rightarrow> False | Some o' \<Rightarrow> ol_base o' \<noteq> [] \<and> ol_http o')"

definition ollama_refine :: "ollama_client option \<Rightarrow> ai_env \<Rightarrow> string \<Rightarrow> result \<Rightarrow> result go_result" where
  "ollama_refine oo env domain current =
     (case oo of
        None \<Rightarrow> Inl ''ollama provider disabled''
      | Some o' \<Rightarrow>
          if \<not> ollama_enabled oo then Inl ''ollama provider disabled''
          else (case ax_encode_ollama env
                  \<lparr>or_model = ol_model o', or_prompt = build_prompt domain current, or_stream = False,
                   or_format = ''json''\<rparr> of
              Inl e \<Rightarrow> Inl e
            | Inr body \<Rightarrow>
                (case post_json env ''calling local ollama failed: '' ''ollama'' (ol_timeout o')
                        (ol_base o' @ ''/api/generate'') body of
                   Inl e \<Rightarrow> Inl e
                 | Inr reply \<Rightarrow>
                     (case ax_decode_ollama env reply of
                        Inl e \<Rightarrow> Inl e
                      | Inr response \<Rightarrow>
                          (case ax_decode_result env (extract_json response) of
                             Inl e \<Rightarrow> Inl (''invalid ollama response JSON: '' @ e @ '' (raw: '' @ response @ '')'')
                           | Inr parsed \<Rightarrow>
                               Inr (refined_result ''local offline ai classification: '' domain current parsed))))))"

subsection \<open>The manager\<close>

definition new_ai_client :: "ai_config \<Rightarrow> ai_client" where
  "new_ai_client cfg =
     (let p = to_lower (trim_space (cfg_provider cfg));
          prov = (if p = [] then (if cfg_gemini_key cfg \<noteq> [] then ''gemini'' else ''none'') else p)
      in \<lparr>ac_provider = prov,
          ac_gemini = (if prov = ''gemini'' \<or> prov = ''hybrid''
            then Some (new_gemini (cfg_gemini_base cfg) (cfg_gemini_key cfg) (cfg_gemini_model cfg)
                        (cfg_gemini_timeout cfg)) else None),
          ac_ollama = (if prov = ''ollama'' \<or> prov = ''hybrid''
            then Some (new_ollama (cfg_ollama_base cfg) (cfg_ollama_model cfg) (cfg_ollama_timeout cfg))
            else None)\<rparr>)"

definition ai_new :: "string \<Rightarrow> string \<Rightarrow> string \<Rightarrow> int \<Rightarrow> ai_client" where
  "ai_new baseURL apiKey model timeout =
     \<lparr>ac_provider = (if apiKey = [] then ''none'' else ''gemini''),
      ac_gemini = Some (new_gemini baseURL apiKey model timeout), ac_ollama = None\<rparr>"

definition ai_enabled :: "ai_client option \<Rightarrow> bool" where
  "ai_enabled oc \<longleftrightarrow>
     (case oc of
        None \<Rightarrow> False
      | Some c \<Rightarrow>
          if ac_provider c = ''gemini'' then gemini_enabled (ac_gemini c)
          else if ac_provider c = ''ollama'' then ollama_enabled (ac_ollama c)
          else if ac_provider c = ''hybrid'' then ollama_enabled (ac_ollama c) \<or> gemini_enabled (ac_gemini c)
          else False)"

definition ai_refine :: "ai_client option \<Rightarrow> ai_env \<Rightarrow> string \<Rightarrow> result \<Rightarrow> result go_result" where
  "ai_refine oc env domain current =
     (case oc of
        None \<Rightarrow> Inl ''ai client disabled''
      | Some c \<Rightarrow>
          if \<not> ai_enabled oc then Inl ''ai client disabled''
          else if ac_provider c = ''gemini'' then gemini_refine (ac_gemini c) env domain current
          else if ac_provider c = ''ollama'' then ollama_refine (ac_ollama c) env domain current
          else if ac_provider c = ''hybrid'' then
            (let gemini = (if gemini_enabled (ac_gemini c) then gemini_refine (ac_gemini c) env domain current
                           else Inl ''no enabled AI providers in hybrid mode'') in
             if ollama_enabled (ac_ollama c) then
               (case ollama_refine (ac_ollama c) env domain current of
                  Inr r \<Rightarrow> Inr r
                | Inl _ \<Rightarrow> gemini)
             else gemini)
          else Inl ''unknown AI provider type'')"


subsection \<open>The contract of a provider\<close>

text \<open>What the risk service relies on: an answer is about the domain it was asked for, its verdict is
  one of three, its score and the range of its confidence follow from the verdict, and it gives at most
  one reason.\<close>

lemma refined_result_facts:
  "res_domain (refined_result p d current parsed) = res_domain current"
  "(res_verdict (refined_result p d current parsed), res_score (refined_result p d current parsed)) \<in>
     {(Malicious, 85), (Suspicious, 55), (Safe, 0)}"
  "0 \<le> res_confidence (refined_result p d current parsed)"
  "res_confidence (refined_result p d current parsed) \<le> 1"
  "length (res_reasons (refined_result p d current parsed)) \<le> 1"
  "res_category (refined_result p d current parsed) \<noteq> []"
  by (simp_all add: refined_result_def Let_def classify_category_def)

locale provider =
  fixes refine :: "'cfg \<Rightarrow> ai_env \<Rightarrow> string \<Rightarrow> result \<Rightarrow> result go_result"
  assumes answer: "refine cfg env d current = Inr r \<Longrightarrow>
    \<exists>p parsed. r = refined_result p d current parsed"
begin

lemma answer_facts:
  assumes "refine cfg env d current = Inr r"
  shows "res_domain r = res_domain current \<and>
    (res_verdict r, res_score r) \<in> {(Malicious, 85), (Suspicious, 55), (Safe, 0)} \<and>
    0 \<le> res_confidence r \<and> res_confidence r \<le> 1 \<and> length (res_reasons r) \<le> 1 \<and> res_category r \<noteq> []"
proof -
  obtain p parsed where r: "r = refined_result p d current parsed" using answer [OF assms] by blast
  show ?thesis unfolding r using refined_result_facts by simp
qed

lemma answer_malicious:
  assumes "refine cfg env d current = Inr r"
  shows "res_verdict r = Malicious \<longleftrightarrow> res_score r = 85"
  using answer_facts [OF assms] by auto

end

interpretation gemini: provider gemini_refine
proof
  show "gemini_refine cfg env d current = Inr r \<Longrightarrow> \<exists>p parsed. r = refined_result p d current parsed"
    for cfg env d current r
    by (auto simp: gemini_refine_def split: option.splits if_splits sum.splits)
qed

interpretation ollama: provider ollama_refine
proof
  show "ollama_refine cfg env d current = Inr r \<Longrightarrow> \<exists>p parsed. r = refined_result p d current parsed"
    for cfg env d current r
    by (auto simp: ollama_refine_def split: option.splits if_splits sum.splits)
qed

interpretation manager: provider ai_refine
proof
  show "ai_refine cfg env d current = Inr r \<Longrightarrow> \<exists>p parsed. r = refined_result p d current parsed"
    for cfg env d current r
    by (auto simp: ai_refine_def Let_def split: option.splits if_splits sum.splits
        dest: gemini.answer ollama.answer)
qed

text \<open>Whatever text a model returns, through whichever provider, the assessment built from it is
  about the domain under assessment, has one of the three verdicts with its fixed score, a confidence
  between 0 and 1, a non-empty category and at most one reason.\<close>

lemma ai_refine_bounds:
  assumes "ai_refine oc env d current = Inr r"
  shows "res_domain r = res_domain current \<and>
    (res_verdict r, res_score r) \<in> {(Malicious, 85), (Suspicious, 55), (Safe, 0)} \<and>
    0 \<le> res_confidence r \<and> res_confidence r \<le> 1 \<and> length (res_reasons r) \<le> 1 \<and> res_category r \<noteq> []"
  by (rule manager.answer_facts [OF assms])

definition toy_ai_env :: ai_env where
  "toy_ai_env = \<lparr>ax_new_request = (\<lambda>_. None), ax_post = (\<lambda>_ _ _. Inr (200, [])),
     ax_encode_gemini = (\<lambda>_. Inr []),
     ax_decode_gemini = (\<lambda>_. Inr \<lparr>gs_candidates = [[[brace_open], [brace_close]]], gs_error = []\<rparr>),
     ax_encode_ollama = (\<lambda>_. Inl ''down''), ax_decode_ollama = (\<lambda>_. Inl []),
     ax_decode_result = (\<lambda>_. Inr \<lparr>ai_verdict = '' malicious'', ai_confidence = 3, ai_reason = ''x'', ai_category = []\<rparr>)\<rparr>"

definition hybrid_client :: ai_client where
  "hybrid_client = \<lparr>ac_provider = ''hybrid'', ac_gemini = Some (new_gemini [] ''k'' [] 0),
     ac_ollama = Some (new_ollama [] [] 0)\<rparr>"

definition toy_current :: result where
  "toy_current = \<lparr>res_domain = ''a'', res_verdict = Suspicious, res_confidence = 1 / 2, res_score = 50,
     res_reasons = [], res_category = []\<rparr>"

lemma toy_gemini_enabled: "gemini_enabled (ac_gemini hybrid_client)"
  by (simp add: hybrid_client_def gemini_enabled_def new_gemini_def Let_def trim_space_id ascii_space_def byte_of_def)

lemma toy_gemini_answers: "\<exists>r. gemini_refine (ac_gemini hybrid_client) toy_ai_env ''a'' toy_current = Inr r"
proof -
  obtain g where g: "ac_gemini hybrid_client = Some g" by (simp add: hybrid_client_def)
  have e: "gemini_enabled (Some g)" using toy_gemini_enabled g by simp
  show ?thesis
    by (simp add: gemini_refine_def g e toy_ai_env_def post_json_def first_response_text_def)
qed

lemma toy_ollama_fails: "\<exists>e. ollama_refine oo toy_ai_env d current = Inl e"
  by (auto simp: ollama_refine_def toy_ai_env_def split: option.splits)

lemma toy_hybrid_answers: "\<exists>r. ai_refine (Some hybrid_client) toy_ai_env ''a'' toy_current = Inr r"
proof -
  have p: "ac_provider hybrid_client = ''hybrid''" by (simp add: hybrid_client_def)
  have e: "ai_enabled (Some hybrid_client)" using toy_gemini_enabled by (simp add: ai_enabled_def p)
  obtain r where r: "gemini_refine (ac_gemini hybrid_client) toy_ai_env ''a'' toy_current = Inr r"
    using toy_gemini_answers by blast
  obtain x where x: "ollama_refine (ac_ollama hybrid_client) toy_ai_env ''a'' toy_current = Inl x"
    using toy_ollama_fails by blast
  show ?thesis by (simp add: ai_refine_def p e toy_gemini_enabled r x Let_def)
qed

lemma ai_refine_bounds_witness:
  "\<exists>r. ai_refine (Some hybrid_client) toy_ai_env ''a'' toy_current = Inr r \<and> res_domain r = ''a''"
  using ai_refine_bounds toy_hybrid_answers by (metis toy_current_def result.select_convs(1))

text \<open>Hybrid mode: the local model decides when it answers, any failure of it falls back to Gemini.\<close>

lemma hybrid_fallback:
  assumes "ac_provider c = ''hybrid''" "gemini_enabled (ac_gemini c)"
  shows "ai_refine (Some c) env d r =
    (case ollama_refine (ac_ollama c) env d r of Inr x \<Rightarrow> Inr x | Inl _ \<Rightarrow> gemini_refine (ac_gemini c) env d r)"
  using assms by (auto simp: ai_refine_def ai_enabled_def Let_def ollama_refine_def split: option.splits)

end
