(* ===== verification/Bloom.thy ===== *)
theory Bloom
  imports Config "HOL-Library.Word"
begin

text \<open>
  \<^verbatim>\<open>internal/risk/bloom.go\<close>: the Bloom filter that screens the whitelist.  Sizes, hashes and
  bytes are machine words, so the double hashing wraps as the code's 64-bit arithmetic does; the
  sizes that \<^verbatim>\<open>NewBloomFilter\<close> derives from logarithms are reals rounded as the code rounds
  them.  The locale \<open>screen\<close> is what the whitelist relies on: a filter never forgets what was
  added.
\<close>

unbundle bit_operations_syntax

record bloom =
  bl_m :: "64 word"
  bl_k :: "64 word"
  bl_bits :: "8 word list"

text \<open>\<^verbatim>\<open>math.Round\<close> on a non-negative number.\<close>

definition round_half_up :: "real \<Rightarrow> int" where
  "round_half_up x = \<lfloor>x + 1 / 2\<rfloor>"

definition optimal_bits :: "int \<Rightarrow> real \<Rightarrow> real" where
  "optimal_bits n p = - of_int n * ln p / (ln 2) ^ 2"

definition new_bloom_filter :: "int \<Rightarrow> real \<Rightarrow> bloom" where
  "new_bloom_filter n0 p0 =
     (let n = (if n0 \<le> 0 then 1000 else n0);
          p = (if p0 \<le> 0 \<or> 1 \<le> p0 then 1 / 100 else p0);
          m0 = (word_of_int \<lceil>optimal_bits n p\<rceil> :: 64 word);
          m = (if m0 mod 8 \<noteq> 0 then (m0 div 8 + 1) * 8 else m0);
          k0 = (word_of_int (round_half_up (real (unat m) / of_int n * ln 2)) :: 64 word);
          k = (if k0 < 1 then 1 else k0) in
      \<lparr>bl_m = m, bl_k = k, bl_bits = replicate (unat (m div 8)) 0\<rparr>)"

text \<open>\<^verbatim>\<open>fnv.New64a\<close> over the bytes of the string.\<close>

definition fnv1a :: "string \<Rightarrow> 64 word" where
  "fnv1a data =
     foldl (\<lambda>h c. (h XOR word_of_int (byte_of c)) * 1099511628211) 14695981039346656037 data"

definition bloom_hash :: "string \<Rightarrow> 32 word \<times> 32 word" where
  "bloom_hash data = (let sum = fnv1a data in (ucast (sum AND 0xffffffff), ucast (drop_bit 32 sum)))"

definition bloom_index :: "bloom \<Rightarrow> string \<Rightarrow> nat \<Rightarrow> 64 word" where
  "bloom_index bf data i =
     (case bloom_hash data of (h1, h2) \<Rightarrow> (ucast h1 + of_nat i * ucast h2) mod bl_m bf)"

definition set_filter_bit :: "8 word list \<Rightarrow> 64 word \<Rightarrow> 8 word list" where
  "set_filter_bit bits idx =
     bits[unat (idx div 8) := (bits ! unat (idx div 8)) OR push_bit (unat (idx mod 8)) 1]"

definition get_filter_bit :: "8 word list \<Rightarrow> 64 word \<Rightarrow> bool" where
  "get_filter_bit bits idx \<longleftrightarrow>
     (bits ! unat (idx div 8)) AND push_bit (unat (idx mod 8)) 1 \<noteq> 0"

definition bloom_add :: "bloom \<Rightarrow> string \<Rightarrow> bloom" where
  "bloom_add bf data =
     (if bl_bits bf = [] then bf
      else bf\<lparr>bl_bits := foldl (\<lambda>bits i. set_filter_bit bits (bloom_index bf data i))
                           (bl_bits bf) [0..<unat (bl_k bf)]\<rparr>)"

definition bloom_test :: "bloom \<Rightarrow> string \<Rightarrow> bool" where
  "bloom_test bf data \<longleftrightarrow>
     bl_bits bf \<noteq> [] \<and>
     list_all (\<lambda>i. get_filter_bit (bl_bits bf) (bloom_index bf data i)) [0..<unat (bl_k bf)]"

definition bloom_info :: "bloom \<Rightarrow> 64 word \<times> 64 word" where
  "bloom_info bf = (bl_m bf, bl_k bf)"

subsection \<open>The contract of a screening filter\<close>

locale screen =
  fixes ok :: "'f \<Rightarrow> bool" and add :: "'f \<Rightarrow> 'a \<Rightarrow> 'f" and test :: "'f \<Rightarrow> 'a \<Rightarrow> bool"
  assumes ok_add: "ok f \<Longrightarrow> ok (add f x)"
    and test_added: "ok f \<Longrightarrow> test (add f x) x"
    and test_kept: "ok f \<Longrightarrow> test f y \<Longrightarrow> test (add f x) y"
begin

lemma ok_build: "ok f \<Longrightarrow> ok (foldl add f xs)"
  by (induction xs arbitrary: f) (auto simp: ok_add)

lemma test_build_kept: "ok f \<Longrightarrow> test f y \<Longrightarrow> test (foldl add f xs) y"
  by (induction xs arbitrary: f) (auto simp: ok_add test_kept)

lemma test_build: "ok f \<Longrightarrow> x \<in> set xs \<Longrightarrow> test (foldl add f xs) x"
  by (induction xs arbitrary: f) (auto simp: ok_add test_added test_build_kept)

text \<open>Screening a lookup that only holds for what was added changes no answer.\<close>

lemma screened_lookup:
  assumes "ok f" "\<And>x. member x \<Longrightarrow> x \<in> set xs"
  shows "test (foldl add f xs) x \<and> member x \<longleftrightarrow> member x"
  using assms test_build by blast

end

subsection \<open>The filter meets it\<close>

definition bloom_ok :: "bloom \<Rightarrow> bool" where
  "bloom_ok bf \<longleftrightarrow> bl_m bf \<noteq> 0 \<and> 8 * length (bl_bits bf) = unat (bl_m bf)"

lemma bloom_ok_nonempty: "bloom_ok bf \<Longrightarrow> bl_bits bf \<noteq> []"
  by (auto simp: bloom_ok_def unat_eq_0)

lemma bloom_index_range:
  assumes "bloom_ok bf"
  shows "unat (bloom_index bf data i div 8) < length (bl_bits bf)"
proof -
  obtain h1 h2 where h: "bloom_hash data = (h1, h2)" by fastforce
  have m: "0 < unat (bl_m bf)" using assms by (simp add: bloom_ok_def unat_gt_0)
  have "unat (bloom_index bf data i) < unat (bl_m bf)"
    unfolding bloom_index_def h by (simp only: prod.case unat_mod) (use m in simp)
  then have "unat (bloom_index bf data i) < 8 * length (bl_bits bf)"
    using assms by (simp add: bloom_ok_def)
  then show ?thesis by (simp add: unat_div)
qed

lemma unat_mod_8: "unat ((w :: 64 word) mod 8) < 8"
  by (simp add: unat_mod)

lemma get_filter_bit_iff: "get_filter_bit bits i \<longleftrightarrow> bit (bits ! unat (i div 8)) (unat (i mod 8))"
  by (simp add: get_filter_bit_def and_exp_eq_0_iff_not_bit)

lemma get_set_filter_bit:
  assumes "unat (i div 8) < length bits"
  shows "get_filter_bit (set_filter_bit bits i) i"
    "get_filter_bit bits j \<Longrightarrow> get_filter_bit (set_filter_bit bits i) j"
  using assms unat_mod_8 [of i]
  by (auto simp: get_filter_bit_iff set_filter_bit_def bit_or_iff bit_exp_iff nth_list_update)

lemma length_set_filter_bit [simp]: "length (set_filter_bit bits i) = length bits"
  by (simp add: set_filter_bit_def)

lemma length_fold_set: "length (foldl (\<lambda>bits i. set_filter_bit bits (f i)) bits is) = length bits"
  by (induction "is" arbitrary: bits) auto

lemma fold_set_filter_bit:
  assumes "\<And>i. i \<in> set is \<Longrightarrow> unat (f i div 8) < length bits"
  shows "(get_filter_bit bits j \<longrightarrow> get_filter_bit (foldl (\<lambda>bits i. set_filter_bit bits (f i)) bits is) j) \<and>
    (\<forall>i \<in> set is. get_filter_bit (foldl (\<lambda>bits i. set_filter_bit bits (f i)) bits is) (f i))"
  using assms
proof (induction "is" arbitrary: bits rule: rev_induct)
  case (snoc a as)
  then have a: "unat (f a div 8) < length (foldl (\<lambda>bits i. set_filter_bit bits (f i)) bits as)"
    by (simp add: length_fold_set)
  show ?case using snoc get_set_filter_bit [OF a] by auto
qed simp

lemma bloom_index_add [simp]: "bloom_index (bloom_add bf x) y i = bloom_index bf y i"
  by (simp add: bloom_index_def bloom_add_def)

lemma bloom_add_size [simp]: "bl_m (bloom_add bf x) = bl_m bf" "bl_k (bloom_add bf x) = bl_k bf"
  by (simp_all add: bloom_add_def)

lemma bloom_add_ok: "bloom_ok bf \<Longrightarrow> bloom_ok (bloom_add bf x)"
  by (auto simp: bloom_ok_def bloom_add_def length_fold_set)

interpretation bloom: screen bloom_ok bloom_add bloom_test
proof
  show "bloom_ok bf \<Longrightarrow> bloom_ok (bloom_add bf x)" for bf x by (rule bloom_add_ok)
  show "bloom_test (bloom_add bf x) x" if "bloom_ok bf" for bf x
    using fold_set_filter_bit [of "[0..<unat (bl_k bf)]" "bloom_index bf x" "bl_bits bf"]
      bloom_index_range [OF that, of x] bloom_ok_nonempty [OF that]
      bloom_ok_nonempty [OF bloom_add_ok [OF that, of x]]
    by (auto simp: bloom_test_def list_all_iff) (auto simp: bloom_add_def)
  show "bloom_test (bloom_add bf x) y" if "bloom_ok bf" "bloom_test bf y" for bf x y
    using fold_set_filter_bit [of "[0..<unat (bl_k bf)]" "bloom_index bf x" "bl_bits bf"]
      bloom_index_range [OF that(1), of x] that(2) bloom_ok_nonempty [OF that(1)]
      bloom_ok_nonempty [OF bloom_add_ok [OF that(1), of x]]
    by (auto simp: bloom_test_def list_all_iff) (auto simp: bloom_add_def)
qed


subsection \<open>The filter of \<^verbatim>\<open>NewBloomFilter\<close>\<close>

text \<open>The sizes that fit the 64-bit arithmetic: up to 2 to the 63 bits.\<close>

definition filter_fits :: "int \<Rightarrow> real \<Rightarrow> bool" where
  "filter_fits n p \<longleftrightarrow>
     optimal_bits (if n \<le> 0 then 1000 else n) (if p \<le> 0 \<or> 1 \<le> p then 1 / 100 else p) \<le> 2 ^ 63"

lemma optimal_bits_pos: "0 < n \<Longrightarrow> 0 < p \<Longrightarrow> p < 1 \<Longrightarrow> 0 < optimal_bits n p"
  by (simp add: optimal_bits_def divide_neg_pos zero_less_divide_iff mult_less_0_iff)

lemma align8:
  fixes m0 :: "64 word"
  assumes "0 < unat m0" "unat m0 \<le> 2 ^ 63"
  defines "m \<equiv> (if m0 mod 8 \<noteq> 0 then (m0 div 8 + 1) * 8 else m0)"
  shows "m \<noteq> 0 \<and> 8 * unat (m div 8) = unat m"
proof (cases "m0 mod 8 = 0")
  case True
  then have "unat (m0 mod 8) = 0" by simp
  then have "unat m0 mod 8 = 0" by (simp add: unat_mod)
  then have "8 * (unat m0 div 8) = unat m0" by presburger
  with True assms show ?thesis by (auto simp: m_def unat_div unat_gt_0)
next
  case False
  define q where "q = unat m0 div 8"
  have "m0 div 8 = of_nat q" by (simp add: word_arith_nat_div q_def)
  then have "m = of_nat ((q + 1) * 8)" using False by (simp add: m_def algebra_simps)
  moreover have "(q + 1) * 8 < 2 ^ 64" using assms(2) by (simp add: q_def)
  ultimately have um: "unat m = (q + 1) * 8" 
    by (simp only: unat_of_nat) (simp add: mod_less)
  then show ?thesis by (auto simp: unat_div)
qed

lemma new_bloom_ok: "filter_fits n p \<Longrightarrow> bloom_ok (new_bloom_filter n p) \<and> bl_k (new_bloom_filter n p) \<noteq> 0"
proof -
  assume fits: "filter_fits n p"
  define n' where "n' = (if n \<le> 0 then 1000 else n)"
  define p' where "p' = (if p \<le> 0 \<or> 1 \<le> p then 1 / 100 else p)"
  define c where "c = \<lceil>optimal_bits n' p'\<rceil>"
  have "0 < optimal_bits n' p'" by (rule optimal_bits_pos) (auto simp: n'_def p'_def)
  then have c0: "0 < c" by (simp add: c_def)
  have c1: "c \<le> 2 ^ 63" using fits by (simp add: c_def ceiling_le_iff n'_def p'_def filter_fits_def)
  have u: "unat (word_of_int c :: 64 word) = nat c"
    using c0 c1 by (simp add: unat_eq_nat_uint uint_word_of_int take_bit_int_eq_self)
  define m where "m = (if (word_of_int c :: 64 word) mod 8 \<noteq> 0
      then ((word_of_int c :: 64 word) div 8 + 1) * 8 else word_of_int c)"
  have "m \<noteq> 0 \<and> 8 * unat (m div 8) = unat m"
    unfolding m_def by (rule align8) (use u c0 c1 in auto)
  moreover have "bl_m (new_bloom_filter n p) = m" "bl_bits (new_bloom_filter n p) = replicate (unat (m div 8)) 0"
    by (simp_all add: new_bloom_filter_def Let_def m_def c_def n'_def p'_def)
  moreover have "bl_k (new_bloom_filter n p) \<noteq> 0"
    by (simp add: new_bloom_filter_def Let_def)
  ultimately show ?thesis by (simp add: bloom_ok_def)
qed

lemma new_bloom_empty: "filter_fits n p \<Longrightarrow> \<not> bloom_test (new_bloom_filter n p) x"
proof -
  assume fits: "filter_fits n p"
  let ?bf = "new_bloom_filter n p"
  have "unat (bloom_index ?bf x 0 div 8) < length (bl_bits ?bf)"
    using bloom_index_range new_bloom_ok [OF fits] by blast
  moreover have "\<exists>l. bl_bits ?bf = replicate l 0" by (auto simp: new_bloom_filter_def Let_def)
  ultimately have "\<not> get_filter_bit (bl_bits ?bf) (bloom_index ?bf x 0)"
    by (auto simp: get_filter_bit_iff)
  moreover have "0 < unat (bl_k ?bf)" using new_bloom_ok [OF fits] by (simp add: unat_gt_0)
  ultimately show ?thesis by (auto simp: bloom_test_def list_all_iff)
qed

text \<open>C30. The filter never gives a false negative, and a fresh one answers no to everything: a negative
  answer proves that the element was never added.\<close>

theorem bloom_no_false_negative:
  assumes "filter_fits n p"
  shows "(x \<in> set xs \<longrightarrow> bloom_test (foldl bloom_add (new_bloom_filter n p) xs) x) \<and>
         \<not> bloom_test (new_bloom_filter n p) x"
  using bloom.test_build new_bloom_ok [OF assms] new_bloom_empty [OF assms] by blast

lemma bits_1000: "optimal_bits 1000 (1 / 100) \<le> 1000 * 99 * 4"
proof -
  have l2: "ln 2 \<ge> (1 / 2 :: real)" using ln_ge_iff [of 2 "1 / 2"] exp_half_le2 by simp
  have "- ln (1 / 100 :: real) = ln 100" by (simp add: ln_div)
  also have "\<dots> \<le> 99" using ln_le_minus_one [of 100] by simp
  finally have "- 1000 * ln (1 / 100) \<le> (1000 * 99 :: real)" by simp
  then have "optimal_bits 1000 (1 / 100) \<le> 1000 * 99 / (ln 2) ^ 2"
    unfolding optimal_bits_def by (intro divide_right_mono) simp_all
  also have "\<dots> \<le> 1000 * 99 / (1 / 2) ^ 2"
    using l2 by (intro divide_left_mono power_mono mult_pos_pos) auto
  finally show ?thesis by (simp add: power2_eq_square)
qed

lemma fits_small: "filter_fits 1000 (1 / 100)"
  using bits_1000 by (simp add: filter_fits_def)

theorem bloom_no_false_negative_witness:
  "bloom_test (foldl bloom_add (new_bloom_filter 1000 (1 / 100)) [''a'', ''b'']) ''a'' \<and>
   \<not> bloom_test (new_bloom_filter 1000 (1 / 100)) ''a''"
  using bloom_no_false_negative [OF fits_small, of "''a''" "[''a'', ''b'']"] by simp

end
