(* ===== verification/Store.thy ===== *)
theory Store
  imports Go_Net Complex_Main "HOL-Library.Char_ord" "HOL-Library.List_Lexorder"
begin

text \<open>
  \<^verbatim>\<open>internal/store/sqlite.go\<close>: the tables of the SQLite schema as lists of rows, the
  statements of each method with their SQL meaning (uniqueness and check constraints, upsert,
  cascading deletes, ordering and limits), and the in-memory cache of CIDR mappings.  A store is an
  option: \<^term>\<open>None\<close> is the nil \<^verbatim>\<open>*DB\<close> of disabled mode.  Statements can fail: \<open>io tag args\<close>
  is the driver's error for a statement, \<^term>\<open>None\<close> when it runs.  \<^verbatim>\<open>datetime('now')\<close> and
  the formatted bounds of time queries are arguments, since SQL compares them as text.  Lists that the
  code keeps as JSON text in a column are kept as lists.  \<open>db_foreign_keys\<close> says whether the
  connection that runs a statement enforces foreign keys, which SQLite decides per connection.
\<close>

subsection \<open>Rows\<close>

record override =
  ov_id :: int
  ov_domain :: string
  ov_action :: string
  ov_reason :: string
  ov_created :: string
  ov_updated :: string

record client_group =
  g_id :: int
  g_name :: string
  g_description :: string
  g_block_categories :: "string list"
  g_strict_phishing :: bool
  g_strict_malware :: bool
  g_created :: string
  g_updated :: string

record client_mapping =
  m_id :: int
  m_type :: string
  m_value :: string
  m_group :: int
  m_created :: string

record group_override =
  go_id :: int
  go_group :: int
  go_domain :: string
  go_action :: string
  go_reason :: string
  go_created :: string
  go_updated :: string

record telemetry_entry =
  t_id :: int
  t_domain :: string
  t_verdict :: string
  t_score :: int
  t_confidence :: real
  t_reasons :: "string list"
  t_cache_hit :: bool
  t_source :: string
  t_analyzed_at :: string
  t_created_at :: string
  t_client_ip :: string
  t_client_id :: string

record agent_event =
  ae_id :: int
  ae_task :: string
  ae_type :: string
  ae_domain :: string
  ae_details :: string
  ae_created :: string

record osint_evidence =
  oe_id :: int
  oe_domain :: string
  oe_source_url :: string
  oe_source_title :: string
  oe_source_type :: string
  oe_confidence :: real
  oe_terms :: "string list"
  oe_retrieved :: string
  oe_expires :: string

record stats =
  st_total :: int
  st_safe :: int
  st_suspicious :: int
  st_malicious :: int
  st_cache_hits :: int

type_synonym domain_count = "string \<times> int"

record db =
  db_log :: "telemetry_entry list"
  db_log_seq :: int
  db_overrides :: "override list"
  db_ov_seq :: int
  db_events :: "agent_event list"
  db_ev_seq :: int
  db_evidence :: "osint_evidence list"
  db_oe_seq :: int
  db_whitelist :: "string list"
  db_groups :: "client_group list"
  db_g_seq :: int
  db_mappings :: "client_mapping list"
  db_m_seq :: int
  db_group_overrides :: "group_override list"
  db_go_seq :: int
  db_cidr_cache :: "(int \<times> ipnet) list"
  db_foreign_keys :: bool
  db_retention_days :: int

type_synonym store = "db option"
type_synonym io = "string \<Rightarrow> string list \<Rightarrow> err option"

definition enabled :: "store \<Rightarrow> bool" where
  "enabled st \<longleftrightarrow> st \<noteq> None"

text \<open>The guard every method starts with.\<close>

definition ask_db :: "'a \<Rightarrow> (db \<Rightarrow> 'a) \<Rightarrow> store \<Rightarrow> 'a" where
  "ask_db disabled f st = (case st of None \<Rightarrow> disabled | Some d \<Rightarrow> f d)"

definition run_db :: "'a \<Rightarrow> (db \<Rightarrow> db \<times> 'a) \<Rightarrow> store \<Rightarrow> store \<times> 'a" where
  "run_db disabled f st =
     (case st of None \<Rightarrow> (None, disabled) | Some d \<Rightarrow> (case f d of (d', r) \<Rightarrow> (Some d', r)))"

definition store_disabled :: err where
  "store_disabled = ''sqlite store disabled''"

text \<open>\<^verbatim>\<open>ORDER BY k DESC\<close> and \<^verbatim>\<open>ORDER BY k ASC\<close>, rows with equal keys in table order.\<close>

definition order_asc :: "('a \<Rightarrow> 'k::linorder) \<Rightarrow> 'a list \<Rightarrow> 'a list" where
  "order_asc k rows = sort_key k rows"

definition order_desc :: "('a \<Rightarrow> 'k::linorder) \<Rightarrow> 'a list \<Rightarrow> 'a list" where
  "order_desc k rows = rev (sort_key k (rev rows))"

subsection \<open>Opening\<close>

definition empty_db :: "int \<Rightarrow> bool \<Rightarrow> db" where
  "empty_db retention fk =
     \<lparr>db_log = [], db_log_seq = 0, db_overrides = [], db_ov_seq = 0, db_events = [], db_ev_seq = 0,
      db_evidence = [], db_oe_seq = 0, db_whitelist = [], db_groups = [], db_g_seq = 0,
      db_mappings = [], db_m_seq = 0, db_group_overrides = [], db_go_seq = 0,
      db_cidr_cache = [], db_foreign_keys = fk, db_retention_days = retention\<rparr>"

definition create_default_groups :: "io \<Rightarrow> string \<Rightarrow> db \<Rightarrow> db \<times> unit go_result" where
  "create_default_groups io now d =
     (case io ''select default group'' [] of
        Some e \<Rightarrow> (d, Inl e)
      | None \<Rightarrow>
          if list_ex (\<lambda>g. g_name g = ''default'') (db_groups d) then (d, Inr ())
          else
            (case io ''insert default group'' [] of
               Some e \<Rightarrow> (d, Inl (''insert default group: '' @ e))
             | None \<Rightarrow>
                 (d\<lparr>db_groups := db_groups d @
                      [\<lparr>g_id = db_g_seq d + 1, g_name = ''default'',
                        g_description = ''Default policy group'', g_block_categories = [],
                        g_strict_phishing = False, g_strict_malware = True,
                        g_created = now, g_updated = now\<rparr>],
                    db_g_seq := db_g_seq d + 1\<rparr>, Inr ())))"

text \<open>The rows a CIDR query returns that parse, in table order.\<close>

definition cidr_rows :: "client_mapping list \<Rightarrow> (int \<times> ipnet) list" where
  "cidr_rows ms = List.map_filter
     (\<lambda>m. if m_type m = ''cidr'' then map_option (\<lambda>n. (m_group m, n)) (parse_cidr (m_value m)) else None) ms"

definition load_cidr_cache :: "io \<Rightarrow> db \<Rightarrow> db \<times> unit go_result" where
  "load_cidr_cache io d =
     (case io ''select cidr mappings'' [] of
        Some e \<Rightarrow> (d, Inl e)
      | None \<Rightarrow> (d\<lparr>db_cidr_cache := cidr_rows (db_mappings d)\<rparr>, Inr ()))"

text \<open>\<^verbatim>\<open>New\<close>: \<open>disk\<close> is the content of the database file (\<^term>\<open>empty_db\<close> for a new
  one), to which the schema adds nothing; the pragmas and the schema script can fail.\<close>

definition new_store ::
  "io \<Rightarrow> string \<Rightarrow> string \<Rightarrow> int \<Rightarrow> db \<Rightarrow> store go_result" where
  "new_store io now path retention disk =
     (if path = [] then Inr None
      else
        let r = (if retention \<le> 0 then 30 else retention) in
        case io ''open'' [path] of
          Some e \<Rightarrow> Inl (''open sqlite '' @ path @ '': '' @ e)
        | None \<Rightarrow>
            (case first_some (\<lambda>p. map_option (\<lambda>e. ''exec '' @ p @ '': '' @ e) (io ''pragma'' [p]))
                    [''PRAGMA journal_mode=WAL'', ''PRAGMA synchronous=NORMAL'',
                     ''PRAGMA cache_size=-8000'', ''PRAGMA busy_timeout=5000'',
                     ''PRAGMA foreign_keys=ON''] of
               Some e \<Rightarrow> Inl e
             | None \<Rightarrow>
                 (case io ''schema'' [] of
                    Some e \<Rightarrow> Inl (''migrate schema: '' @ e)
                  | None \<Rightarrow>
                      (case create_default_groups io now (disk\<lparr>db_retention_days := r\<rparr>) of
                         (d1, Inl e) \<Rightarrow> Inl (''create default groups: '' @ e)
                       | (d1, Inr _) \<Rightarrow>
                           (case load_cidr_cache io d1 of
                              (d2, Inl e) \<Rightarrow> Inl (''load cidr cache: '' @ e)
                            | (d2, Inr _) \<Rightarrow> Inr (Some d2))))))"

subsection \<open>Telemetry\<close>

definition write_entry :: "io \<Rightarrow> string \<Rightarrow> telemetry_entry \<Rightarrow> db \<Rightarrow> db" where
  "write_entry io now e d =
     (case io ''insert analysis_log'' [t_domain e] of
        Some _ \<Rightarrow> d
      | None \<Rightarrow>
          d\<lparr>db_log := db_log d @ [e\<lparr>t_id := db_log_seq d + 1, t_created_at := now\<rparr>],
            db_log_seq := db_log_seq d + 1\<rparr>)"

definition query_recent :: "io \<Rightarrow> int \<Rightarrow> int \<Rightarrow> store \<Rightarrow> telemetry_entry list go_result" where
  "query_recent io limit offset = ask_db (Inr []) (\<lambda>d.
     let l = (if limit \<le> 0 then 50 else limit); o' = (if offset < 0 then 0 else offset) in
     case io ''select recent'' [] of
       Some e \<Rightarrow> Inl (''query recent: '' @ e)
     | None \<Rightarrow> Inr (take (nat l) (drop (nat o') (order_desc t_id (db_log d)))))"

definition count_rows :: "('a \<Rightarrow> bool) \<Rightarrow> 'a list \<Rightarrow> int" where
  "count_rows p rows = int (length (filter p rows))"

definition query_stats :: "io \<Rightarrow> string \<Rightarrow> store \<Rightarrow> stats go_result" where
  "query_stats io since = ask_db
     (Inr \<lparr>st_total = 0, st_safe = 0, st_suspicious = 0, st_malicious = 0, st_cache_hits = 0\<rparr>) (\<lambda>d.
     case io ''select stats'' [] of
       Some e \<Rightarrow> Inl (''query stats: '' @ e)
     | None \<Rightarrow>
         let rows = filter (\<lambda>e. since \<le> t_analyzed_at e) (db_log d) in
         Inr \<lparr>st_total = int (length rows),
              st_safe = count_rows (\<lambda>e. t_verdict e = ''SAFE'') rows,
              st_suspicious = count_rows (\<lambda>e. t_verdict e = ''SUSPICIOUS'') rows,
              st_malicious = count_rows (\<lambda>e. t_verdict e = ''MALICIOUS'') rows,
              st_cache_hits = count_rows t_cache_hit rows\<rparr>)"

text \<open>\<open>cutoff\<close> is the formatted time of \<open>db_retention_days\<close> ago.\<close>

definition cleanup :: "io \<Rightarrow> string \<Rightarrow> db \<Rightarrow> db" where
  "cleanup io cutoff d =
     (case io ''delete analysis_log'' [cutoff] of
        Some _ \<Rightarrow> d
      | None \<Rightarrow> d\<lparr>db_log := filter (\<lambda>e. \<not> t_analyzed_at e < cutoff) (db_log d)\<rparr>)"

definition group_counts :: "telemetry_entry list \<Rightarrow> domain_count list" where
  "group_counts rows =
     map (\<lambda>dom. (dom, count_rows (\<lambda>e. t_domain e = dom) rows)) (sort (remdups (map t_domain rows)))"

definition query_suspicious_domains ::
  "io \<Rightarrow> string \<Rightarrow> int \<Rightarrow> int \<Rightarrow> store \<Rightarrow> domain_count list go_result" where
  "query_suspicious_domains io since minOcc limit = ask_db (Inr []) (\<lambda>d.
     let m = (if minOcc \<le> 0 then 3 else minOcc); l = (if limit \<le> 0 then 50 else limit);
         rows = filter (\<lambda>e. t_verdict e = ''SUSPICIOUS'' \<and> since \<le> t_analyzed_at e) (db_log d) in
     case io ''select suspicious domains'' [] of
       Some e \<Rightarrow> Inl (''query suspicious domains: '' @ e)
     | None \<Rightarrow> Inr (take (nat l) (order_desc snd (filter (\<lambda>dc. m \<le> snd dc) (group_counts rows)))))"

definition query_recent_candidates ::
  "io \<Rightarrow> string \<Rightarrow> int \<Rightarrow> store \<Rightarrow> domain_count list go_result" where
  "query_recent_candidates io since limit = ask_db (Inr []) (\<lambda>d.
     let l = (if limit \<le> 0 then 50 else limit);
         rows = filter (\<lambda>e. t_verdict e \<in> {''SAFE'', ''SUSPICIOUS''} \<and> since \<le> t_analyzed_at e) (db_log d) in
     case io ''select osint candidates'' [] of
       Some e \<Rightarrow> Inl (''query osint candidate domains: '' @ e)
     | None \<Rightarrow> Inr (take (nat l) (order_desc snd (group_counts rows))))"

subsection \<open>Global overrides\<close>

definition valid_action :: "string \<Rightarrow> bool" where
  "valid_action a \<longleftrightarrow> a = ''allow'' \<or> a = ''block''"

definition select_override :: "io \<Rightarrow> db \<Rightarrow> string \<Rightarrow> override option go_result" where
  "select_override io d candidate =
     (case io ''select local_overrides'' [candidate] of
        Some e \<Rightarrow> Inl e
      | None \<Rightarrow> Inr (find (\<lambda>o'. ov_domain o' = candidate) (db_overrides d)))"

definition wrap_error :: "string \<Rightarrow> 'a go_result \<Rightarrow> 'a go_result" where
  "wrap_error prefix' r = (case r of Inl e \<Rightarrow> Inl (prefix' @ e) | Inr x \<Rightarrow> Inr x)"

definition get_override :: "io \<Rightarrow> string \<Rightarrow> store \<Rightarrow> override option go_result" where
  "get_override io domain = ask_db (Inr None) (\<lambda>d.
     first_hit (\<lambda>c. wrap_error (''get override '' @ c @ '': '') (select_override io d c))
       (parent_names domain))"

definition list_overrides :: "io \<Rightarrow> string \<Rightarrow> store \<Rightarrow> override list go_result" where
  "list_overrides io action = ask_db (Inr []) (\<lambda>d.
     case io ''list local_overrides'' [] of
       Some e \<Rightarrow> Inl (''list overrides: '' @ e)
     | None \<Rightarrow>
         Inr (order_desc ov_updated
           (if valid_action action then filter (\<lambda>o'. ov_action o' = action) (db_overrides d)
            else db_overrides d)))"

definition put_override_row :: "string \<Rightarrow> string \<Rightarrow> string \<Rightarrow> string \<Rightarrow> db \<Rightarrow> db" where
  "put_override_row now domain action reason d =
     (if list_ex (\<lambda>o'. ov_domain o' = domain) (db_overrides d)
      then d\<lparr>db_overrides := map (\<lambda>o'. if ov_domain o' = domain
                then o'\<lparr>ov_action := action, ov_reason := reason, ov_updated := now\<rparr> else o')
                (db_overrides d)\<rparr>
      else d\<lparr>db_overrides := db_overrides d @
                [\<lparr>ov_id = db_ov_seq d + 1, ov_domain = domain, ov_action = action,
                  ov_reason = reason, ov_created = now, ov_updated = now\<rparr>],
              db_ov_seq := db_ov_seq d + 1\<rparr>)"

definition drop_override_row :: "string \<Rightarrow> db \<Rightarrow> db" where
  "drop_override_row domain d =
     d\<lparr>db_overrides := filter (\<lambda>o'. ov_domain o' \<noteq> domain) (db_overrides d)\<rparr>"

definition upsert_override ::
  "io \<Rightarrow> string \<Rightarrow> string \<Rightarrow> string \<Rightarrow> string \<Rightarrow> store \<Rightarrow> store \<times> unit go_result" where
  "upsert_override io now domain action reason = run_db (Inr ()) (\<lambda>d.
     if \<not> valid_action action
     then (d, Inl (''invalid action '' @ quoted action @ '': must be '' @ single_quoted ''allow'' @
             '' or '' @ single_quoted ''block''))
     else (case io ''upsert local_overrides'' [domain] of
         Some e \<Rightarrow> (d, Inl (''upsert override '' @ domain @ '': '' @ e))
       | None \<Rightarrow> (put_override_row now domain action reason d, Inr ())))"

definition delete_override :: "io \<Rightarrow> string \<Rightarrow> store \<Rightarrow> store \<times> unit go_result" where
  "delete_override io domain = run_db (Inr ()) (\<lambda>d.
     case io ''delete local_overrides'' [domain] of
       Some e \<Rightarrow> (d, Inl (''delete override '' @ domain @ '': '' @ e))
     | None \<Rightarrow>
         if list_ex (\<lambda>o'. ov_domain o' = domain) (db_overrides d)
         then (drop_override_row domain d, Inr ())
         else (d, Inl (''override not found: '' @ domain)))"

subsection \<open>Agent audit log\<close>

definition record_agent_event ::
  "io \<Rightarrow> string \<Rightarrow> string \<Rightarrow> string \<Rightarrow> string \<Rightarrow> string \<Rightarrow> store \<Rightarrow> store \<times> unit go_result" where
  "record_agent_event io now taskName eventType domain details = run_db (Inr ()) (\<lambda>d.
     case io ''insert agent_audit_log'' [taskName, eventType] of
       Some e \<Rightarrow> (d, Inl (''record agent event: '' @ e))
     | None \<Rightarrow>
         (d\<lparr>db_events := db_events d @
              [\<lparr>ae_id = db_ev_seq d + 1, ae_task = taskName, ae_type = eventType,
                ae_domain = domain, ae_details = details, ae_created = now\<rparr>],
            db_ev_seq := db_ev_seq d + 1\<rparr>, Inr ()))"

definition query_agent_events ::
  "io \<Rightarrow> string \<Rightarrow> string list \<Rightarrow> int \<Rightarrow> store \<Rightarrow> agent_event list go_result" where
  "query_agent_events io since eventTypes limit = ask_db (Inr []) (\<lambda>d.
     let l = (if limit \<le> 0 then 100 else limit) in
     case io ''select agent_audit_log'' [] of
       Some e \<Rightarrow> Inl (''query agent events: '' @ e)
     | None \<Rightarrow>
         Inr (take (nat l) (order_asc ae_created
           (filter (\<lambda>e. since \<le> ae_created e \<and> (eventTypes \<noteq> [] \<longrightarrow> ae_type e \<in> set eventTypes))
             (db_events d)))))"

subsection \<open>OSINT evidence\<close>

definition insert_evidence :: "io \<Rightarrow> string \<Rightarrow> osint_evidence \<Rightarrow> db go_result \<Rightarrow> db go_result" where
  "insert_evidence io domain item r = (case r of
      Inl e \<Rightarrow> Inl e
    | Inr d \<Rightarrow>
        let item' = (if oe_domain item = [] then item\<lparr>oe_domain := domain\<rparr> else item) in
        case io ''insert osint_evidence'' [oe_domain item', oe_source_url item'] of
          Some e \<Rightarrow> Inl (''insert osint evidence: '' @ e)
        | None \<Rightarrow>
            if list_ex (\<lambda>x. oe_domain x = oe_domain item' \<and> oe_source_url x = oe_source_url item')
                 (db_evidence d)
            then Inl ''insert osint evidence: UNIQUE constraint failed: osint_evidence.domain, osint_evidence.source_url''
            else Inr (d\<lparr>db_evidence := db_evidence d @ [item'\<lparr>oe_id := db_oe_seq d + 1\<rparr>],
                        db_oe_seq := db_oe_seq d + 1\<rparr>))"

text \<open>One transaction: an error anywhere rolls it back.\<close>

definition replace_osint_evidence ::
  "io \<Rightarrow> string \<Rightarrow> osint_evidence list \<Rightarrow> store \<Rightarrow> store \<times> unit go_result" where
  "replace_osint_evidence io domain0 evidence = run_db (Inr ()) (\<lambda>d.
     let domain = trim_space (to_lower domain0) in
     if domain = [] then (d, Inl ''domain is required'')
     else (case io ''begin'' [] of
         Some e \<Rightarrow> (d, Inl (''begin osint evidence transaction: '' @ e))
       | None \<Rightarrow>
     (case io ''delete osint_evidence'' [domain] of
         Some e \<Rightarrow> (d, Inl (''delete old osint evidence: '' @ e))
       | None \<Rightarrow>
     (case io ''prepare osint_evidence'' [] of
         Some e \<Rightarrow> (d, Inl (''prepare osint evidence insert: '' @ e))
       | None \<Rightarrow>
     (case fold (insert_evidence io domain) evidence
             (Inr (d\<lparr>db_evidence := filter (\<lambda>x. oe_domain x \<noteq> domain) (db_evidence d)\<rparr>)) of
         Inl e \<Rightarrow> (d, Inl e)
       | Inr d' \<Rightarrow>
           (case io ''commit'' [] of Some e \<Rightarrow> (d, Inl e) | None \<Rightarrow> (d', Inr ())))))))"

definition list_osint_evidence ::
  "io \<Rightarrow> string \<Rightarrow> string \<Rightarrow> store \<Rightarrow> osint_evidence list go_result" where
  "list_osint_evidence io domain0 now = ask_db (Inr []) (\<lambda>d.
     let domain = trim_space (to_lower domain0) in
     if domain = [] then Inl ''domain is required''
     else (case io ''select osint_evidence'' [domain] of
         Some e \<Rightarrow> Inl (''list osint evidence: '' @ e)
       | None \<Rightarrow>
           Inr (order_desc oe_confidence (order_desc oe_retrieved
             (filter (\<lambda>x. oe_domain x = domain \<and> now < oe_expires x) (db_evidence d))))))"

subsection \<open>Whitelist\<close>

definition insert_whitelist :: "io \<Rightarrow> string \<Rightarrow> string list go_result \<Rightarrow> string list go_result" where
  "insert_whitelist io domain r = (case r of
      Inl e \<Rightarrow> Inl e
    | Inr ws \<Rightarrow>
        if domain = [] then Inr ws
        else (case io ''insert whitelist_domains'' [domain] of
            Some e \<Rightarrow> Inl (''insert whitelist domain '' @ domain @ '': '' @ e)
          | None \<Rightarrow> Inr (if domain \<in> set ws then ws else ws @ [domain])))"

definition update_whitelist :: "io \<Rightarrow> string list \<Rightarrow> store \<Rightarrow> store \<times> unit go_result" where
  "update_whitelist io domains = run_db (Inr ()) (\<lambda>d.
     case io ''begin'' [] of
       Some e \<Rightarrow> (d, Inl (''begin whitelist transaction: '' @ e))
     | None \<Rightarrow>
     (case io ''delete whitelist_domains'' [] of
       Some e \<Rightarrow> (d, Inl (''delete old whitelist: '' @ e))
     | None \<Rightarrow>
     (case io ''prepare whitelist_domains'' [] of
       Some e \<Rightarrow> (d, Inl (''prepare whitelist insert: '' @ e))
     | None \<Rightarrow>
     (case fold (insert_whitelist io) domains (Inr []) of
        Inl e \<Rightarrow> (d, Inl e)
      | Inr ws \<Rightarrow>
          (case io ''commit'' [] of
             Some e \<Rightarrow> (d, Inl (''commit whitelist transaction: '' @ e))
           | None \<Rightarrow> (d\<lparr>db_whitelist := ws\<rparr>, Inr ()))))))"

definition is_domain_whitelisted :: "io \<Rightarrow> string \<Rightarrow> store \<Rightarrow> bool go_result" where
  "is_domain_whitelisted io domain = ask_db (Inr False) (\<lambda>d.
     case io ''select whitelist_domains'' [domain] of
       Some e \<Rightarrow> Inl (''check whitelist domain '' @ domain @ '': '' @ e)
     | None \<Rightarrow> Inr (domain \<in> set (db_whitelist d)))"

definition get_whitelist :: "io \<Rightarrow> store \<Rightarrow> string list go_result" where
  "get_whitelist io = ask_db (Inr []) (\<lambda>d.
     case io ''select all whitelist_domains'' [] of
       Some e \<Rightarrow> Inl (''query whitelist domains: '' @ e)
     | None \<Rightarrow> Inr (db_whitelist d))"

subsection \<open>Policy groups\<close>

definition unique_name_error :: err where
  "unique_name_error = ''UNIQUE constraint failed: client_groups.name''"

definition create_group ::
  "io \<Rightarrow> string \<Rightarrow> string \<Rightarrow> string \<Rightarrow> string list \<Rightarrow> bool \<Rightarrow> bool \<Rightarrow> store \<Rightarrow> store \<times> int go_result" where
  "create_group io now name description blockCategories strictPhishing strictMalware =
     run_db (Inl store_disabled) (\<lambda>d.
       case io ''insert client_groups'' [name] of
         Some e \<Rightarrow> (d, Inl (''insert group '' @ quoted name @ '': '' @ e))
       | None \<Rightarrow>
           if list_ex (\<lambda>g. g_name g = name) (db_groups d)
           then (d, Inl (''insert group '' @ quoted name @ '': '' @ unique_name_error))
           else
             (d\<lparr>db_groups := db_groups d @
                  [\<lparr>g_id = db_g_seq d + 1, g_name = name, g_description = description,
                    g_block_categories = blockCategories, g_strict_phishing = strictPhishing,
                    g_strict_malware = strictMalware, g_created = now, g_updated = now\<rparr>],
                db_g_seq := db_g_seq d + 1\<rparr>, Inr (db_g_seq d + 1)))"

definition update_group ::
  "io \<Rightarrow> string \<Rightarrow> int \<Rightarrow> string \<Rightarrow> string \<Rightarrow> string list \<Rightarrow> bool \<Rightarrow> bool \<Rightarrow> store \<Rightarrow> store \<times> unit go_result" where
  "update_group io now gid name0 description blockCategories strictPhishing strictMalware =
     run_db (Inl store_disabled) (\<lambda>d.
       let name = (if gid = 1 then ''default'' else name0);
           failed = (\<lambda>e. ''update group id '' @ itoa gid @ '': '' @ e) in
       case io ''update client_groups'' [itoa gid] of
         Some e \<Rightarrow> (d, Inl (failed e))
       | None \<Rightarrow>
           if list_ex (\<lambda>g. g_id g = gid) (db_groups d) \<and>
              list_ex (\<lambda>g. g_id g \<noteq> gid \<and> g_name g = name) (db_groups d)
           then (d, Inl (failed unique_name_error))
           else
             (d\<lparr>db_groups := map (\<lambda>g. if g_id g = gid
                  then g\<lparr>g_name := name, g_description := description,
                         g_block_categories := blockCategories, g_strict_phishing := strictPhishing,
                         g_strict_malware := strictMalware, g_updated := now\<rparr>
                  else g) (db_groups d)\<rparr>, Inr ()))"

text \<open>Deleting a group deletes its mappings and overrides when foreign keys are enforced; the cache of
  CIDR mappings is left alone.\<close>

definition delete_group :: "io \<Rightarrow> int \<Rightarrow> store \<Rightarrow> store \<times> unit go_result" where
  "delete_group io gid = run_db (Inl store_disabled) (\<lambda>d.
     if gid = 1 then (d, Inl ''cannot delete default policy group'')
     else (case io ''delete client_groups'' [itoa gid] of
         Some e \<Rightarrow> (d, Inl (''delete group id '' @ itoa gid @ '': '' @ e))
       | None \<Rightarrow>
           if list_ex (\<lambda>g. g_id g = gid) (db_groups d)
           then
             (let d1 = d\<lparr>db_groups := filter (\<lambda>g. g_id g \<noteq> gid) (db_groups d)\<rparr> in
              (if db_foreign_keys d
               then d1\<lparr>db_mappings := filter (\<lambda>m. m_group m \<noteq> gid) (db_mappings d),
                       db_group_overrides := filter (\<lambda>g'. go_group g' \<noteq> gid) (db_group_overrides d)\<rparr>
               else d1, Inr ()))
           else (d, Inl (''group not found: id '' @ itoa gid))))"

definition get_group_db :: "io \<Rightarrow> int \<Rightarrow> db \<Rightarrow> client_group go_result" where
  "get_group_db io gid d =
     (case io ''select client_groups by id'' [itoa gid] of
        Some e \<Rightarrow> Inl (''get group id '' @ itoa gid @ '': '' @ e)
      | None \<Rightarrow>
          (case find (\<lambda>g. g_id g = gid) (db_groups d) of
             None \<Rightarrow> Inl (''group not found: id '' @ itoa gid)
           | Some g \<Rightarrow> Inr g))"

definition get_group :: "io \<Rightarrow> int \<Rightarrow> store \<Rightarrow> client_group go_result" where
  "get_group io gid = ask_db (Inl store_disabled) (get_group_db io gid)"

definition get_group_by_name_db :: "io \<Rightarrow> string \<Rightarrow> db \<Rightarrow> client_group go_result" where
  "get_group_by_name_db io name d =
     (case io ''select client_groups by name'' [name] of
        Some e \<Rightarrow> Inl (''get group name '' @ name @ '': '' @ e)
      | None \<Rightarrow>
          (case find (\<lambda>g. g_name g = name) (db_groups d) of
             None \<Rightarrow> Inl (''group not found: name '' @ name)
           | Some g \<Rightarrow> Inr g))"

definition get_group_by_name :: "io \<Rightarrow> string \<Rightarrow> store \<Rightarrow> client_group go_result" where
  "get_group_by_name io name = ask_db (Inl store_disabled) (get_group_by_name_db io name)"

definition list_groups :: "io \<Rightarrow> store \<Rightarrow> client_group list go_result" where
  "list_groups io = ask_db (Inr []) (\<lambda>d.
     case io ''list client_groups'' [] of
       Some e \<Rightarrow> Inl (''list groups: '' @ e)
     | None \<Rightarrow> Inr (order_asc g_id (db_groups d)))"

subsection \<open>Client mappings\<close>

definition valid_mapping_type :: "string \<Rightarrow> bool" where
  "valid_mapping_type t \<longleftrightarrow> t = ''ip'' \<or> t = ''cidr'' \<or> t = ''client_id''"

definition add_mapping_int ::
  "io \<Rightarrow> string \<Rightarrow> string \<Rightarrow> string \<Rightarrow> int \<Rightarrow> store \<Rightarrow> store \<times> int go_result" where
  "add_mapping_int io now mappingType0 value0 groupID = run_db (Inl store_disabled) (\<lambda>d.
     let mappingType = trim_space (to_lower mappingType0); value = trim_space value0;
         failed = (\<lambda>e. ''insert mapping ('' @ mappingType @ '', '' @ value @ '') -> group '' @
                        itoa groupID @ '': '' @ e) in
     if \<not> valid_mapping_type mappingType
     then (d, Inl (''invalid mapping type '' @ quoted mappingType @ '': must be '' @ single_quoted ''ip''
             @ '', '' @ single_quoted ''cidr'' @ '', or '' @ single_quoted ''client_id''))
     else if value = [] then (d, Inl ''mapping value cannot be empty'')
     else if mappingType = ''ip'' \<and> parse_ip value = None
     then (d, Inl (''invalid IP address format: '' @ value))
     else if mappingType = ''cidr'' \<and> parse_cidr value = None
     then (d, Inl (''invalid CIDR format '' @ quoted value @ '': invalid CIDR address: '' @ value))
     else (case io ''insert client_mappings'' [mappingType, value] of
         Some e \<Rightarrow> (d, Inl (failed e))
       | None \<Rightarrow>
           if list_ex (\<lambda>m. m_type m = mappingType \<and> m_value m = value) (db_mappings d)
           then (d, Inl (failed ''UNIQUE constraint failed: client_mappings.mapping_type, client_mappings.value''))
           else if db_foreign_keys d \<and> \<not> list_ex (\<lambda>g. g_id g = groupID) (db_groups d)
           then (d, Inl (failed ''FOREIGN KEY constraint failed''))
           else
             (let d1 = d\<lparr>db_mappings := db_mappings d @
                          [\<lparr>m_id = db_m_seq d + 1, m_type = mappingType, m_value = value,
                            m_group = groupID, m_created = now\<rparr>],
                        db_m_seq := db_m_seq d + 1\<rparr> in
              (if mappingType = ''cidr'' then fst (load_cidr_cache io d1) else d1,
               Inr (db_m_seq d + 1)))))"

text \<open>The form with a group in text, which no caller uses.\<close>

definition add_mapping ::
  "io \<Rightarrow> string \<Rightarrow> string \<Rightarrow> string \<Rightarrow> string \<Rightarrow> store \<Rightarrow> store \<times> int go_result" where
  "add_mapping io now mappingType value groupID st =
     (case sscan_int groupID of
        Inl e \<Rightarrow> (st, Inl (''invalid group id: '' @ e))
      | Inr gid \<Rightarrow> add_mapping_int io now mappingType value gid st)"

definition delete_mapping :: "io \<Rightarrow> int \<Rightarrow> store \<Rightarrow> store \<times> unit go_result" where
  "delete_mapping io mid = run_db (Inl store_disabled) (\<lambda>d.
     case io ''delete client_mappings'' [itoa mid] of
       Some e \<Rightarrow> (d, Inl (''delete mapping id '' @ itoa mid @ '': '' @ e))
     | None \<Rightarrow>
         if list_ex (\<lambda>m. m_id m = mid) (db_mappings d)
         then (fst (load_cidr_cache io (d\<lparr>db_mappings := filter (\<lambda>m. m_id m \<noteq> mid) (db_mappings d)\<rparr>)), Inr ())
         else (d, Inl (''mapping not found: id '' @ itoa mid)))"

text \<open>Every mapping with the name of its group, newest first (an inner join).\<close>

definition list_mappings :: "io \<Rightarrow> store \<Rightarrow> (client_mapping \<times> string) list go_result" where
  "list_mappings io = ask_db (Inr []) (\<lambda>d.
     case io ''list client_mappings'' [] of
       Some e \<Rightarrow> Inl (''list mappings: '' @ e)
     | None \<Rightarrow>
         Inr (order_desc (\<lambda>p. m_id (fst p))
           (List.map_filter (\<lambda>m. map_option (\<lambda>g. (m, g_name g))
               (find (\<lambda>g. g_id g = m_group m) (db_groups d))) (db_mappings d))))"

subsection \<open>Group overrides\<close>

definition upsert_group_override ::
  "io \<Rightarrow> string \<Rightarrow> int \<Rightarrow> string \<Rightarrow> string \<Rightarrow> string \<Rightarrow> store \<Rightarrow> store \<times> unit go_result" where
  "upsert_group_override io now groupID domain0 action reason = run_db (Inl store_disabled) (\<lambda>d.
     let domain = trim_space (to_lower domain0);
         failed = (\<lambda>e. ''upsert group override (group '' @ itoa groupID @ '', '' @ domain @ ''): '' @ e) in
     if \<not> valid_action action
     then (d, Inl (''invalid action '' @ quoted action @ '': must be '' @ single_quoted ''allow'' @
             '' or '' @ single_quoted ''block''))
     else if domain = [] then (d, Inl ''override domain cannot be empty'')
     else (case io ''upsert group_overrides'' [itoa groupID, domain] of
         Some e \<Rightarrow> (d, Inl (failed e))
       | None \<Rightarrow>
           if list_ex (\<lambda>g'. go_group g' = groupID \<and> go_domain g' = domain) (db_group_overrides d)
           then (d\<lparr>db_group_overrides := map (\<lambda>g'. if go_group g' = groupID \<and> go_domain g' = domain
                     then g'\<lparr>go_action := action, go_reason := reason, go_updated := now\<rparr> else g')
                     (db_group_overrides d)\<rparr>, Inr ())
           else if db_foreign_keys d \<and> \<not> list_ex (\<lambda>g. g_id g = groupID) (db_groups d)
           then (d, Inl (failed ''FOREIGN KEY constraint failed''))
           else (d\<lparr>db_group_overrides := db_group_overrides d @
                     [\<lparr>go_id = db_go_seq d + 1, go_group = groupID, go_domain = domain,
                       go_action = action, go_reason = reason, go_created = now, go_updated = now\<rparr>],
                   db_go_seq := db_go_seq d + 1\<rparr>, Inr ())))"

definition delete_group_override :: "io \<Rightarrow> int \<Rightarrow> string \<Rightarrow> store \<Rightarrow> store \<times> unit go_result" where
  "delete_group_override io groupID domain0 = run_db (Inl store_disabled) (\<lambda>d.
     let domain = trim_space (to_lower domain0) in
     case io ''delete group_overrides'' [itoa groupID, domain] of
       Some e \<Rightarrow> (d, Inl (''delete group override (group '' @ itoa groupID @ '', '' @ domain @ ''): '' @ e))
     | None \<Rightarrow>
         if list_ex (\<lambda>g'. go_group g' = groupID \<and> go_domain g' = domain) (db_group_overrides d)
         then (d\<lparr>db_group_overrides :=
                   filter (\<lambda>g'. \<not> (go_group g' = groupID \<and> go_domain g' = domain)) (db_group_overrides d)\<rparr>,
               Inr ())
         else (d, Inl (''group override not found for group '' @ itoa groupID @ '', domain '' @ domain)))"

definition list_group_overrides :: "io \<Rightarrow> int \<Rightarrow> store \<Rightarrow> group_override list go_result" where
  "list_group_overrides io groupID = ask_db (Inr []) (\<lambda>d.
     case io ''list group_overrides'' [itoa groupID] of
       Some e \<Rightarrow> Inl (''list group overrides: '' @ e)
     | None \<Rightarrow>
         Inr (order_desc go_updated (filter (\<lambda>g'. go_group g' = groupID) (db_group_overrides d))))"

subsection \<open>Resolving a client and a domain\<close>

definition mapped_group :: "io \<Rightarrow> string \<Rightarrow> string \<Rightarrow> db \<Rightarrow> int option" where
  "mapped_group io mappingType value d =
     (case io ''select client_mappings'' [mappingType, value] of
        Some _ \<Rightarrow> None
      | None \<Rightarrow> map_option m_group (find (\<lambda>m. m_type m = mappingType \<and> m_value m = value) (db_mappings d)))"

definition cidr_group :: "string \<Rightarrow> db \<Rightarrow> int option" where
  "cidr_group clientIP d =
     (case parse_ip clientIP of
        None \<Rightarrow> None
      | Some a \<Rightarrow>
          (case find (\<lambda>entry. net_contains (snd entry) a) (db_cidr_cache d) of
             None \<Rightarrow> None
           | Some (g, _) \<Rightarrow> if 0 < g then Some g else None))"

definition get_group_for_client :: "io \<Rightarrow> string \<Rightarrow> string \<Rightarrow> store \<Rightarrow> client_group go_result" where
  "get_group_for_client io clientIP0 clientID0 = ask_db (Inl store_disabled) (\<lambda>d.
     let clientID = trim_space clientID0; clientIP = trim_space clientIP0 in
     case (if clientID \<noteq> [] then mapped_group io ''client_id'' clientID d else None) of
       Some g \<Rightarrow> get_group_db io g d
     | None \<Rightarrow>
         (case (if clientIP \<noteq> [] then mapped_group io ''ip'' clientIP d else None) of
            Some g \<Rightarrow> get_group_db io g d
          | None \<Rightarrow>
              (case (if clientIP \<noteq> [] then cidr_group clientIP d else None) of
                 Some g \<Rightarrow> get_group_db io g d
               | None \<Rightarrow> get_group_by_name_db io ''default'' d)))"

definition override_of_group_row :: "group_override \<Rightarrow> override" where
  "override_of_group_row g' =
     \<lparr>ov_id = go_id g', ov_domain = go_domain g', ov_action = go_action g',
      ov_reason = go_reason g', ov_created = go_created g', ov_updated = go_updated g'\<rparr>"

definition effective_candidate :: "io \<Rightarrow> int \<Rightarrow> db \<Rightarrow> string \<Rightarrow> override option go_result" where
  "effective_candidate io groupID d candidate =
     (case io ''select group_overrides'' [itoa groupID, candidate] of
        Some e \<Rightarrow> Inl (''query group override candidate '' @ candidate @ '': '' @ e)
      | None \<Rightarrow>
          (case find (\<lambda>g'. go_group g' = groupID \<and> go_domain g' = candidate) (db_group_overrides d) of
             Some g' \<Rightarrow> Inr (Some (override_of_group_row g'))
           | None \<Rightarrow>
               wrap_error (''query global override candidate '' @ candidate @ '': '')
                 (select_override io d candidate)))"

definition get_effective_override :: "io \<Rightarrow> int \<Rightarrow> string \<Rightarrow> store \<Rightarrow> override option go_result" where
  "get_effective_override io groupID domain0 = ask_db (Inr None) (\<lambda>d.
     first_hit (effective_candidate io groupID d) (parent_names (trim_space (to_lower domain0))))"

end
