(* ===== verification/Store_Facts.thy ===== *)
theory Store_Facts
  imports Store
begin

text \<open>
  What the store promises.  The locale \<open>domain_table\<close> is the contract of a table keyed by domain
  that is read through the walk over the parent names (insert and delete change one key), with the
  walk shown to be a longest-match lookup; the override table meets it.  The invariant \<open>db_ok\<close>
  collects the constraints of the schema and the protected default group; every mutating method keeps
  it, and a method that returns an error changes nothing.
\<close>

definition no_faults :: io where
  "no_faults tag args = None"

subsection \<open>The walk over parent names\<close>

definition walk :: "(string \<Rightarrow> 'v option) \<Rightarrow> string \<Rightarrow> 'v option" where
  "walk look d = first_some look (parent_names d)"

lemma join_with_Cons_less:
  "ps \<noteq> [] \<Longrightarrow> length (join_with ''.'' ps) < length (join_with ''.'' (p # ps))"
  by (cases ps) auto

lemma parent_names_decreasing: "sorted_wrt (\<lambda>a b. length b < length a) (name_suffixes ps)"
proof (induction ps)
  case (Cons p ps)
  have "length x < length (join_with ''.'' (p # ps))" if mem: "x \<in> set (name_suffixes ps)" for x
  proof -
    obtain us vs where x: "ps = us @ vs" "vs \<noteq> []" "x = join_with ''.'' vs"
      using mem unfolding name_suffixes_iff by blast
    have "length (join_with ''.'' vs) \<le> length (join_with ''.'' (us @ vs))"
      using x(2) by (cases "us = []") (simp_all add: join_with_append)
    also have "\<dots> < length (join_with ''.'' (p # us @ vs))"
      using x(2) by (intro join_with_Cons_less) simp
    finally show ?thesis using x by simp
  qed
  with Cons show ?case by simp
qed simp

lemma sorted_wrt_append_less:
  "sorted_wrt (\<lambda>a b. length b < length a) (us @ x # vs) \<Longrightarrow> y \<in> set (us @ x # vs) \<Longrightarrow>
     length x < length y \<longleftrightarrow> y \<in> set us"
  by (auto simp: sorted_wrt_append)

text \<open>The walk is a longest-match lookup: the value found is the one of the longest parent name that
  has any.\<close>

lemma walk_Some:
  "walk look d = Some v \<longleftrightarrow>
     (\<exists>x \<in> set (parent_names d). look x = Some v \<and>
        (\<forall>y \<in> set (parent_names d). length x < length y \<longrightarrow> look y = None))"
proof -
  have dec: "sorted_wrt (\<lambda>a b. length b < length a) (parent_names d)"
    by (simp add: parent_names_def parent_names_decreasing)
  show ?thesis
  proof
    assume "walk look d = Some v"
    then obtain us x vs where sp: "parent_names d = us @ x # vs" "look x = Some v"
        "\<forall>u \<in> set us. look u = None"
      by (auto simp: walk_def first_some_Some_split)
    then have "\<forall>y \<in> set (parent_names d). length x < length y \<longrightarrow> look y = None"
      using sorted_wrt_append_less [of us x vs] dec by auto
    with sp show "\<exists>x \<in> set (parent_names d). look x = Some v \<and>
        (\<forall>y \<in> set (parent_names d). length x < length y \<longrightarrow> look y = None)" by auto
  next
    assume "\<exists>x \<in> set (parent_names d). look x = Some v \<and>
        (\<forall>y \<in> set (parent_names d). length x < length y \<longrightarrow> look y = None)"
    then obtain x where x: "x \<in> set (parent_names d)" "look x = Some v"
      "\<forall>y \<in> set (parent_names d). length x < length y \<longrightarrow> look y = None" by blast
    then obtain us vs where sp: "parent_names d = us @ x # vs" by (meson split_list)
    with x dec sorted_wrt_append_less [of us x vs] have "\<forall>u \<in> set us. look u = None" by auto
    with x sp show "walk look d = Some v" unfolding walk_def first_some_Some_split by blast
  qed
qed

lemma walk_None: "walk look d = None \<longleftrightarrow> (\<forall>x \<in> set (parent_names d). look x = None)"
  by (simp add: walk_def first_some_None)

subsection \<open>Tables keyed by domain\<close>

locale domain_table =
  fixes ok :: "'t \<Rightarrow> bool" and look :: "'t \<Rightarrow> string \<Rightarrow> 'v option"
    and put :: "'t \<Rightarrow> string \<Rightarrow> 'v \<Rightarrow> 't" and del :: "'t \<Rightarrow> string \<Rightarrow> 't"
  assumes look_put: "ok t \<Longrightarrow> look (put t k v) x = (if x = k then Some v else look t x)"
    and look_del: "ok t \<Longrightarrow> look (del t k) x = (if x = k then None else look t x)"
    and ok_put: "ok t \<Longrightarrow> ok (put t k v)"
    and ok_del: "ok t \<Longrightarrow> ok (del t k)"
begin

text \<open>An entry rules its own name and every name below it that has no more specific entry.\<close>

lemma walk_put:
  assumes "ok t" "k \<in> set (parent_names d)"
    "\<And>y. y \<in> set (parent_names d) \<Longrightarrow> length k < length y \<Longrightarrow> look t y = None"
  shows "walk (look (put t k v)) d = Some v"
  unfolding walk_Some using assms by (intro bexI [of _ k]) (auto simp: look_put)

text \<open>It touches no other name.\<close>

lemma walk_put_other:
  "ok t \<Longrightarrow> k \<notin> set (parent_names d) \<Longrightarrow> walk (look (put t k v)) d = walk (look t) d"
  unfolding walk_def by (rule first_some_cong) (auto simp: look_put)

lemma walk_put_exact: "ok t \<Longrightarrow> walk (look (put t k v)) k = Some v"
  unfolding walk_def by (subst parent_names_hd) (simp add: look_put)

text \<open>Deleting an entry that was not there before restores every lookup.\<close>

lemma walk_put_del:
  "ok t \<Longrightarrow> look t k = None \<Longrightarrow> walk (look (del (put t k v) k)) d = walk (look t) d"
  unfolding walk_def by (rule first_some_cong) (auto simp: look_put look_del ok_put)

end

subsection \<open>The override table\<close>

definition override_value :: "db \<Rightarrow> string \<Rightarrow> (string \<times> string) option" where
  "override_value d x =
     map_option (\<lambda>o'. (ov_action o', ov_reason o')) (find (\<lambda>o'. ov_domain o' = x) (db_overrides d))"

definition put_override_value :: "string \<Rightarrow> db \<Rightarrow> string \<Rightarrow> string \<times> string \<Rightarrow> db" where
  "put_override_value now d x v = put_override_row now x (fst v) (snd v) d"

definition del_override_value :: "db \<Rightarrow> string \<Rightarrow> db" where
  "del_override_value d x = drop_override_row x d"

lemma find_map_same:
  "(\<And>r. k (f r) = k r) \<Longrightarrow> find (\<lambda>r. k r = x) (map f rows) = map_option f (find (\<lambda>r. k r = x) rows)"
  by (induction rows) auto

lemma find_append_one:
  "find P (rows @ [r]) = (case find P rows of None \<Rightarrow> if P r then Some r else None | Some y \<Rightarrow> Some y)"
  by (induction rows) auto

lemma find_filter_key:
  "find (\<lambda>r. k r = x) (filter (\<lambda>r. k r \<noteq> y) rows) = (if x = y then None else find (\<lambda>r. k r = x) rows)"
  by (induction rows) auto

lemma find_Some_key: "find (\<lambda>r. k r = x) rows = Some r \<Longrightarrow> k r = x \<and> r \<in> set rows"
  using find_Some_set by fastforce

lemma find_None_key: "find (\<lambda>r. k r = x) rows = None \<longleftrightarrow> x \<notin> k ` set rows"
  by (auto simp: find_None_all)

interpretation overrides: domain_table "\<lambda>_. True" override_value "put_override_value now" del_override_value
  for now
proof
  fix d k v x
  show "override_value (put_override_value now d k v) x = (if x = k then Some v else override_value d x)"
  proof (cases "list_ex (\<lambda>o'. ov_domain o' = k) (db_overrides d)")
    case True
    then obtain r where "find (\<lambda>o'. ov_domain o' = k) (db_overrides d) = Some r"
      using find_None_all [of "\<lambda>o'. ov_domain o' = k" "db_overrides d"]
      by (cases "find (\<lambda>o'. ov_domain o' = k) (db_overrides d)") (auto simp: list_ex_iff)
    moreover have "ov_domain r = x" if "find (\<lambda>o'. ov_domain o' = x) (db_overrides d) = Some r" for r
      using find_Some_key [OF that] by blast
    ultimately show ?thesis using True
      by (cases "find (\<lambda>o'. ov_domain o' = x) (db_overrides d)")
         (auto simp: override_value_def put_override_value_def put_override_row_def find_map_same)
  next
    case False
    then have "find (\<lambda>o'. ov_domain o' = k) (db_overrides d) = None"
      by (auto simp: find_None_all list_ex_iff)
    with False show ?thesis
      by (auto simp: override_value_def put_override_value_def put_override_row_def find_append_one
          split: option.splits)
  qed
  show "override_value (del_override_value d k) x = (if x = k then None else override_value d x)"
    by (simp add: override_value_def del_override_value_def drop_override_row_def find_filter_key)
qed simp_all


subsection \<open>Longest match\<close>

lemma find_distinct_key:
  "distinct (map k rows) \<Longrightarrow> find (\<lambda>r. k r = x) rows = Some r \<longleftrightarrow> r \<in> set rows \<and> k r = x"
  by (induction rows) auto

lemma get_override_walk:
  "get_override no_faults n (Some d) = Inr (walk (\<lambda>x. find (\<lambda>o'. ov_domain o' = x) (db_overrides d)) n)"
  unfolding get_override_def ask_db_def walk_def
  by (simp, rule first_hit_total) (simp add: select_override_def no_faults_def wrap_error_def)

definition overrides_ok :: "override list \<Rightarrow> bool" where
  "overrides_ok rows \<longleftrightarrow> distinct (map ov_domain rows) \<and> list_all (\<lambda>o'. valid_action (ov_action o')) rows"

text \<open>\<^verbatim>\<open>GetOverride\<close> is a longest-match lookup: it returns the override of the longest name
  that is the domain itself or one of its parents.\<close>

lemma get_override_longest_match:
  assumes "overrides_ok (db_overrides d)"
  shows "get_override no_faults n (Some d) = Inr (Some r) \<longleftrightarrow>
    r \<in> set (db_overrides d) \<and> ov_domain r \<in> set (parent_names n) \<and>
    (\<forall>r' \<in> set (db_overrides d). ov_domain r' \<in> set (parent_names n) \<longrightarrow>
       length (ov_domain r') \<le> length (ov_domain r))"
proof -
  have dist: "distinct (map ov_domain (db_overrides d))" using assms by (simp add: overrides_ok_def)
  show ?thesis
    unfolding get_override_walk sum.inject walk_Some find_distinct_key [OF dist] find_None_key
    by (auto simp: not_less [symmetric])
qed

definition row_ads :: override where
  "row_ads = \<lparr>ov_id = 1, ov_domain = ''ads.x'', ov_action = ''block'', ov_reason = [],
     ov_created = [], ov_updated = []\<rparr>"

definition row_x :: override where
  "row_x = \<lparr>ov_id = 2, ov_domain = ''x'', ov_action = ''allow'', ov_reason = [],
     ov_created = [], ov_updated = []\<rparr>"

definition db_sample :: db where
  "db_sample = (empty_db 30 True)\<lparr>db_overrides := [row_ads, row_x], db_ov_seq := 2\<rparr>"

lemma get_override_longest_match_witness:
  "get_override no_faults ''a.ads.x'' (Some db_sample) = Inr (Some row_ads)"
  by (subst get_override_longest_match)
     (auto simp: db_sample_def overrides_ok_def row_ads_def row_x_def valid_action_def
        parent_names_iff has_suffix_def)

definition override_answer :: "string \<Rightarrow> store \<Rightarrow> (string \<times> string) option" where
  "override_answer n st = (case get_override no_faults n st of
      Inl _ \<Rightarrow> None
    | Inr r \<Rightarrow> map_option (\<lambda>o'. (ov_action o', ov_reason o')) r)"

lemma override_answer_walk: "override_answer n (Some d) = walk (override_value d) n"
proof -
  have "map_option f (first_some g xs) = first_some (\<lambda>x. map_option f (g x)) xs" for f g and xs :: "string list"
    by (induction xs) (auto split: option.splits)
  then show ?thesis
    by (simp add: override_answer_def get_override_walk walk_def override_value_def [abs_def])
qed

text \<open>A rule that is saved takes effect for its name and for every name below it that has no more
  specific rule, changes the answer for no other name, and is forgotten when it is deleted.\<close>

lemma upsert_override_effect:
  assumes "valid_action action"
    "upsert_override no_faults now k action reason (Some d) = (st1, res)"
    "delete_override no_faults k st1 = (st2, res2)"
  shows "res = Inr () \<and> res2 = Inr () \<and> override_answer k st1 = Some (action, reason) \<and>
    (\<forall>n. k \<in> set (parent_names n) \<and>
         (\<forall>y \<in> set (parent_names n). length k < length y \<longrightarrow> override_value d y = None) \<longrightarrow>
         override_answer n st1 = Some (action, reason)) \<and>
    (\<forall>n. k \<notin> set (parent_names n) \<longrightarrow> override_answer n st1 = override_answer n (Some d)) \<and>
    (override_value d k = None \<longrightarrow> (\<forall>n. override_answer n st2 = override_answer n (Some d)))"
proof -
  let ?v = "(action, reason)"
  have st1: "st1 = Some (put_override_value now d k ?v)" and r1: "res = Inr ()"
    using assms(1,2) by (simp_all add: upsert_override_def run_db_def no_faults_def put_override_value_def)
  have "list_ex (\<lambda>o'. ov_domain o' = k) (db_overrides (put_override_value now d k ?v))"
    using overrides.look_put [of now d k ?v k]
    by (auto simp: override_value_def list_ex_iff dest!: find_Some_set)
  then have st2: "st2 = Some (del_override_value (put_override_value now d k ?v) k)" and r2: "res2 = Inr ()"
    using assms(3) st1
    by (simp_all add: delete_override_def run_db_def no_faults_def del_override_value_def)
  show ?thesis
    unfolding st1 st2 override_answer_walk r1 r2
    by (auto simp: overrides.walk_put overrides.walk_put_exact overrides.walk_put_other
        overrides.walk_put_del)
qed

lemma upsert_override_effect_witness:
  "override_answer ''a.x'' (fst (upsert_override no_faults [] ''x'' ''block'' ''r'' (Some (empty_db 30 True))))
     = Some (''block'', ''r'')"
proof -
  obtain st1 res where 1: "upsert_override no_faults [] ''x'' ''block'' ''r'' (Some (empty_db 30 True)) = (st1, res)"
    by fastforce
  obtain st2 res2 where 2: "delete_override no_faults ''x'' st1 = (st2, res2)" by fastforce
  have "''x'' \<in> set (parent_names ''a.x'')" by (simp add: parent_names_iff has_suffix_def)
  moreover have "override_value (empty_db 30 True) y = None" for y
    by (simp add: override_value_def empty_db_def)
  ultimately show ?thesis
    using upsert_override_effect [OF _ 1 2] 1 by (simp add: valid_action_def)
qed

text \<open>C29. \<^verbatim>\<open>GetEffectiveOverride\<close> is a longest match over the rules of the group and the global
  rules together, in which the rule of the group wins for the same name.\<close>

theorem effective_override_longest_match:
  "get_effective_override no_faults gid n0 (Some d) = Inr (Some r) \<longleftrightarrow>
    (\<exists>x \<in> set (parent_names (trim_space (to_lower n0))).
       (case find (\<lambda>g'. go_group g' = gid \<and> go_domain g' = x) (db_group_overrides d) of
          Some g' \<Rightarrow> r = override_of_group_row g'
        | None \<Rightarrow> find (\<lambda>o'. ov_domain o' = x) (db_overrides d) = Some r) \<and>
       (\<forall>y \<in> set (parent_names (trim_space (to_lower n0))). length x < length y \<longrightarrow>
          (\<forall>g' \<in> set (db_group_overrides d). \<not> (go_group g' = gid \<and> go_domain g' = y)) \<and>
          (\<forall>o' \<in> set (db_overrides d). ov_domain o' \<noteq> y)))"
proof -
  define look where "look x = (case find (\<lambda>g'. go_group g' = gid \<and> go_domain g' = x) (db_group_overrides d) of
      Some g' \<Rightarrow> Some (override_of_group_row g')
    | None \<Rightarrow> find (\<lambda>o'. ov_domain o' = x) (db_overrides d))" for x
  have "effective_candidate no_faults gid d x = Inr (look x)" for x
    by (auto simp: effective_candidate_def look_def no_faults_def select_override_def wrap_error_def
        split: option.splits)
  then have "get_effective_override no_faults gid n0 (Some d) = Inr (walk look (trim_space (to_lower n0)))"
    by (simp add: get_effective_override_def ask_db_def walk_def first_hit_total)
  moreover have "look y = None \<longleftrightarrow>
      (\<forall>g' \<in> set (db_group_overrides d). \<not> (go_group g' = gid \<and> go_domain g' = y)) \<and>
      (\<forall>o' \<in> set (db_overrides d). ov_domain o' \<noteq> y)" for y
  proof (cases "find (\<lambda>g'. go_group g' = gid \<and> go_domain g' = y) (db_group_overrides d)")
    case None
    then have "look y = find (\<lambda>o'. ov_domain o' = y) (db_overrides d)" by (simp add: look_def)
    moreover have "\<forall>g' \<in> set (db_group_overrides d). \<not> (go_group g' = gid \<and> go_domain g' = y)"
      using None unfolding find_None_all .
    ultimately show ?thesis by (auto simp: find_None_all)
  next
    case (Some g')
    then have "g' \<in> set (db_group_overrides d) \<and> go_group g' = gid \<and> go_domain g' = y"
      using find_Some_set by fastforce
    with Some show ?thesis by (auto simp: look_def)
  qed
  moreover have "look x = Some r \<longleftrightarrow>
      (case find (\<lambda>g'. go_group g' = gid \<and> go_domain g' = x) (db_group_overrides d) of
          Some g' \<Rightarrow> r = override_of_group_row g'
        | None \<Rightarrow> find (\<lambda>o'. ov_domain o' = x) (db_overrides d) = Some r)" for x
    by (auto simp: look_def split: option.splits)
  ultimately show ?thesis by (simp add: walk_Some)
qed

theorem effective_override_longest_match_witness:
  "get_effective_override no_faults 1 ''a.ads.x'' (Some db_sample) = Inr (Some row_ads)"
proof -
  have "trim_space (to_lower ''a.ads.x'') = ''a.ads.x''"
    by (simp add: to_lower_id upper_free_def trim_space_id ascii_space_def byte_of_def)
  then show ?thesis
    by (subst effective_override_longest_match)
       (auto simp: db_sample_def empty_db_def row_ads_def row_x_def parent_names_iff has_suffix_def
         intro!: bexI [of _ "''ads.x''"])
qed


subsection \<open>The mutating operations together\<close>

datatype store_op =
    Op_Upsert_Override string string string
  | Op_Delete_Override string
  | Op_Agent_Event string string string string
  | Op_Replace_Evidence string "osint_evidence list"
  | Op_Update_Whitelist "string list"
  | Op_Create_Group string string "string list" bool bool
  | Op_Update_Group int string string "string list" bool bool
  | Op_Delete_Group int
  | Op_Add_Mapping string string int
  | Op_Delete_Mapping int
  | Op_Upsert_Group_Override int string string string
  | Op_Delete_Group_Override int string
  | Op_Write_Entry telemetry_entry
  | Op_Cleanup string

definition outcome :: "store \<times> 'a go_result \<Rightarrow> store \<times> err option" where
  "outcome r = (fst r, case snd r of Inl e \<Rightarrow> Some e | Inr _ \<Rightarrow> None)"

fun run_op :: "io \<Rightarrow> string \<Rightarrow> store_op \<Rightarrow> store \<Rightarrow> store \<times> err option" where
  "run_op io now (Op_Upsert_Override d a r) st = outcome (upsert_override io now d a r st)"
| "run_op io now (Op_Delete_Override d) st = outcome (delete_override io d st)"
| "run_op io now (Op_Agent_Event t e d x) st = outcome (record_agent_event io now t e d x st)"
| "run_op io now (Op_Replace_Evidence d xs) st = outcome (replace_osint_evidence io d xs st)"
| "run_op io now (Op_Update_Whitelist ds) st = outcome (update_whitelist io ds st)"
| "run_op io now (Op_Create_Group n x cs p m) st = outcome (create_group io now n x cs p m st)"
| "run_op io now (Op_Update_Group i n x cs p m) st = outcome (update_group io now i n x cs p m st)"
| "run_op io now (Op_Delete_Group i) st = outcome (delete_group io i st)"
| "run_op io now (Op_Add_Mapping t v g) st = outcome (add_mapping_int io now t v g st)"
| "run_op io now (Op_Delete_Mapping i) st = outcome (delete_mapping io i st)"
| "run_op io now (Op_Upsert_Group_Override g d a r) st = outcome (upsert_group_override io now g d a r st)"
| "run_op io now (Op_Delete_Group_Override g d) st = outcome (delete_group_override io g d st)"
| "run_op io now (Op_Write_Entry e) st = (map_option (write_entry io now e) st, None)"
| "run_op io now (Op_Cleanup c) st = (map_option (cleanup io c) st, None)"

lemmas op_defs = upsert_override_def delete_override_def record_agent_event_def
  replace_osint_evidence_def update_whitelist_def create_group_def update_group_def
  delete_group_def add_mapping_int_def delete_mapping_def upsert_group_override_def
  delete_group_override_def write_entry_def cleanup_def

text \<open>C32. A method that reports an error has changed nothing: constraint violations, refused arguments,
  driver errors in the middle of a transaction all leave the store as it was.\<close>

theorem failed_operation_changes_nothing:
  assumes "run_op io now op st = (st', Some e)"
  shows "st' = st"
proof (cases st)
  case None
  with assms show ?thesis
    by (cases op) (auto simp: outcome_def run_db_def op_defs)
next
  case (Some d)
  with assms show ?thesis
    by (cases op)
       (auto simp: outcome_def run_db_def op_defs Let_def split: option.splits sum.splits if_splits)
qed

theorem failed_operation_changes_nothing_witness:
  "fst (run_op no_faults [] (Op_Delete_Group 1) (Some db_sample)) = Some db_sample"
proof -
  have "run_op no_faults [] (Op_Delete_Group 1) (Some db_sample) =
      (Some db_sample, Some ''cannot delete default policy group'')"
    by (simp add: outcome_def delete_group_def run_db_def)
  from failed_operation_changes_nothing [OF this] show ?thesis
    by (simp add: outcome_def delete_group_def run_db_def)
qed

subsection \<open>The invariant\<close>

definition groups_ok :: "int \<Rightarrow> client_group list \<Rightarrow> bool" where
  "groups_ok sq gs \<longleftrightarrow> distinct (map g_name gs) \<and> distinct (map g_id gs) \<and>
     list_all (\<lambda>g. 1 \<le> g_id g \<and> g_id g \<le> sq) gs \<and>
     list_ex (\<lambda>g. g_id g = 1 \<and> g_name g = ''default'') gs"

definition mappings_ok :: "int \<Rightarrow> client_mapping list \<Rightarrow> bool" where
  "mappings_ok sq ms \<longleftrightarrow> distinct (map (\<lambda>m. (m_type m, m_value m)) ms) \<and> distinct (map m_id ms) \<and>
     list_all (\<lambda>m. valid_mapping_type (m_type m) \<and> m_id m \<le> sq \<and> m_value m \<noteq> []) ms"

definition group_overrides_ok :: "group_override list \<Rightarrow> bool" where
  "group_overrides_ok rows \<longleftrightarrow> distinct (map (\<lambda>g'. (go_group g', go_domain g')) rows) \<and>
     list_all (\<lambda>g'. valid_action (go_action g') \<and> go_domain g' \<noteq> []) rows"

definition refs_ok :: "db \<Rightarrow> bool" where
  "refs_ok d \<longleftrightarrow> db_foreign_keys d \<longrightarrow>
     list_all (\<lambda>m. m_group m \<in> g_id ` set (db_groups d)) (db_mappings d) \<and>
     list_all (\<lambda>g'. go_group g' \<in> g_id ` set (db_groups d)) (db_group_overrides d)"

definition evidence_ok :: "osint_evidence list \<Rightarrow> bool" where
  "evidence_ok rows \<longleftrightarrow> distinct (map (\<lambda>x. (oe_domain x, oe_source_url x)) rows)"

definition db_ok :: "db \<Rightarrow> bool" where
  "db_ok d \<longleftrightarrow> overrides_ok (db_overrides d) \<and> groups_ok (db_g_seq d) (db_groups d) \<and>
     mappings_ok (db_m_seq d) (db_mappings d) \<and> group_overrides_ok (db_group_overrides d) \<and>
     refs_ok d \<and> evidence_ok (db_evidence d) \<and> distinct (db_whitelist d)"

lemma map_key_same: "(\<And>r. k (f r) = k r) \<Longrightarrow> map k (map f rows) = map k rows"
  by simp

lemma distinct_map_filter: "distinct (map k rows) \<Longrightarrow> distinct (map k (filter P rows))"
  by (induction rows) auto

lemma list_all_filter: "list_all Q rows \<Longrightarrow> list_all Q (filter P rows)"
  by (auto simp: list_all_iff)

lemma put_override_ok:
  "overrides_ok (db_overrides d) \<Longrightarrow> valid_action a \<Longrightarrow>
     overrides_ok (db_overrides (put_override_row now k a r d))"
proof -
  assume ok: "overrides_ok (db_overrides d)" and a: "valid_action a"
  let ?f = "\<lambda>o' :: override. if ov_domain o' = k then o'\<lparr>ov_action := a, ov_reason := r, ov_updated := now\<rparr> else o'"
  have key: "ov_domain \<circ> ?f = ov_domain" by auto
  show ?thesis
  proof (cases "list_ex (\<lambda>o'. ov_domain o' = k) (db_overrides d)")
    case True
    with ok a key show ?thesis by (auto simp: put_override_row_def overrides_ok_def list_all_iff)
  next
    case False
    with ok a show ?thesis
      by (auto simp: put_override_row_def overrides_ok_def list_all_iff list_ex_iff)
  qed
qed

lemma evidence_update_trans:
  "d1 = d\<lparr>db_evidence := e1, db_oe_seq := s1\<rparr> \<Longrightarrow>
   d' = d1\<lparr>db_evidence := e2, db_oe_seq := s2\<rparr> \<Longrightarrow>
   d' = d\<lparr>db_evidence := e2, db_oe_seq := s2\<rparr>"
  by simp

lemma insert_evidence_fold:
  "fold (insert_evidence io nm) items r = Inr d' \<Longrightarrow>
     (\<exists>d. r = Inr d \<and> (evidence_ok (db_evidence d) \<longrightarrow> evidence_ok (db_evidence d')) \<and>
        d' = d\<lparr>db_evidence := db_evidence d', db_oe_seq := db_oe_seq d'\<rparr>)"
proof (induction items arbitrary: r)
  case (Cons x items)
  then obtain d1 where d1: "insert_evidence io nm x r = Inr d1"
      "evidence_ok (db_evidence d1) \<longrightarrow> evidence_ok (db_evidence d')"
      "d' = d1\<lparr>db_evidence := db_evidence d', db_oe_seq := db_oe_seq d'\<rparr>"
    by auto
  then obtain d where d: "r = Inr d" by (cases r) (auto simp: insert_evidence_def)
  from d1(1) d have "evidence_ok (db_evidence d) \<longrightarrow> evidence_ok (db_evidence d1)"
    by (auto simp: insert_evidence_def evidence_ok_def Let_def list_ex_iff
        split: option.splits if_splits) blast+
  moreover from d1(1) d have "d1 = d\<lparr>db_evidence := db_evidence d1, db_oe_seq := db_oe_seq d1\<rparr>"
    by (auto simp: insert_evidence_def Let_def split: option.splits if_splits)
  ultimately show ?case using d d1(2) evidence_update_trans [OF _ d1(3)] by blast
qed auto

lemma insert_whitelist_fold:
  "fold (insert_whitelist io) ds r = Inr ws' \<Longrightarrow>
     (\<exists>ws. r = Inr ws \<and> (distinct ws \<longrightarrow> distinct ws') \<and> set ws' = set ws \<union> (set ds - {[]}))"
proof (induction ds arbitrary: r)
  case (Cons x ds)
  then obtain w where w: "insert_whitelist io x r = Inr w" "distinct w \<longrightarrow> distinct ws'"
      "set ws' = set w \<union> (set ds - {[]})"
    by auto
  then obtain ws where ws: "r = Inr ws" by (cases r) (auto simp: insert_whitelist_def)
  from w(1) ws have "(distinct ws \<longrightarrow> distinct w) \<and> set w = set ws \<union> ({x} - {[]})"
    by (auto simp: insert_whitelist_def split: if_splits option.splits)
  with w ws show ?case by auto
qed auto

lemma new_group_ok:
  assumes "groups_ok sq gs" "\<not> list_ex (\<lambda>g. g_name g = g_name x) gs" "g_id x = sq + 1"
  shows "groups_ok (sq + 1) (gs @ [x])"
proof -
  have "1 \<le> sq" using assms(1) by (auto simp: groups_ok_def list_ex_iff list_all_iff)
  then show ?thesis
    using assms by (auto simp: groups_ok_def list_ex_iff list_all_iff)
qed

lemma updated_groups_ok:
  assumes ok: "groups_ok sq gs" and f: "\<And>g. g_id (f g) = g_id g" "\<And>g. g_name (f g) = name"
    and name: "gid = 1 \<longrightarrow> name = ''default''"
    and free: "\<not> (list_ex (\<lambda>g. g_id g = gid) gs \<and> list_ex (\<lambda>g. g_id g \<noteq> gid \<and> g_name g = name) gs)"
  shows "groups_ok sq (map (\<lambda>g. if g_id g = gid then f g else g) gs)"
proof -
  let ?h = "\<lambda>g. if g_id g = gid then f g else g"
  have ids: "g_id (?h g) = g_id g" for g using f(1) by simp
  have names: "g_name (?h g) = (if g_id g = gid then name else g_name g)" for g using f(2) by simp
  have dist: "distinct (map g_name gs)" "distinct (map g_id gs)" using ok by (auto simp: groups_ok_def)
  have "inj_on (g_name \<circ> ?h) (set gs)"
  proof (rule inj_onI)
    fix a b
    assume ab: "a \<in> set gs" "b \<in> set gs" "(g_name \<circ> ?h) a = (g_name \<circ> ?h) b"
    have same_id: "g_id a = g_id b \<Longrightarrow> a = b" and same_name: "g_name a = g_name b \<Longrightarrow> a = b"
      using dist ab by (auto simp: distinct_map inj_on_def)
    have eq: "g_name (?h a) = g_name (?h b)" using ab(3) by simp
    have no: "g_name g \<noteq> name" if "g' \<in> set gs" "g_id g' = gid" "g \<in> set gs" "g_id g \<noteq> gid" for g g'
      using free that by (auto simp: list_ex_iff)
    show "a = b"
    proof (cases "g_id a = gid"; cases "g_id b = gid")
      assume "g_id a = gid" "g_id b = gid"
      with same_id show ?thesis by simp
    next
      assume "g_id a = gid" "g_id b \<noteq> gid"
      with eq no [of a b] ab show ?thesis by (simp add: names f)
    next
      assume "g_id a \<noteq> gid" "g_id b = gid"
      with eq no [of b a] ab show ?thesis by (simp add: names f)
    next
      assume "g_id a \<noteq> gid" "g_id b \<noteq> gid"
      with eq same_name show ?thesis by (simp add: names)
    qed
  qed
  moreover have "distinct gs" using dist by (auto simp: distinct_map)
  ultimately have "distinct (map g_name (map ?h gs))" by (simp add: distinct_map)
  moreover obtain g1 where "g1 \<in> set gs" "g_id g1 = 1" "g_name g1 = ''default''"
    using ok by (auto simp: groups_ok_def list_ex_iff)
  then have "\<exists>g \<in> set (map ?h gs). g_id g = 1 \<and> g_name g = ''default''"
    using name f by (intro bexI [of _ "?h g1"]) (auto simp: ids names)
  moreover have "map g_id (map ?h gs) = map g_id gs" by (simp add: ids)
  then have "distinct (map g_id (map ?h gs))" using dist by (simp only:)
  moreover have "list_all (\<lambda>g. 1 \<le> g_id g \<and> g_id g \<le> sq) (map ?h gs)"
    using ok by (auto simp: groups_ok_def list_all_iff f)
  ultimately show ?thesis unfolding groups_ok_def list_ex_iff by blast
qed

lemma filtered_groups_ok:
  "groups_ok sq gs \<Longrightarrow> gid \<noteq> 1 \<Longrightarrow> groups_ok sq (filter (\<lambda>g. g_id g \<noteq> gid) gs)"
  by (auto simp: groups_ok_def list_all_filter distinct_map_filter list_ex_iff)

lemma load_cidr_fields:
  "fst (load_cidr_cache io d) = d\<lparr>db_cidr_cache := db_cidr_cache (fst (load_cidr_cache io d))\<rparr>"
  by (auto simp: load_cidr_cache_def split: option.splits)

lemma db_ok_cidr_update [simp]: "db_ok (d\<lparr>db_cidr_cache := c\<rparr>) = db_ok d"
  by (simp add: db_ok_def refs_ok_def)

lemma db_ok_load_cidr [simp]: "db_ok (fst (load_cidr_cache io d)) = db_ok d"
  by (subst load_cidr_fields) simp

lemma in_ids_update:
  "(\<And>g. g_id (f g) = g_id g) \<Longrightarrow> g_id ` set (map f gs) = g_id ` set gs"
  by (simp add: image_image)

lemma ids_filter: "g_id ` {x \<in> S. g_id x \<noteq> i} = g_id ` S - {i}"
  by auto

lemma step_overrides:
  "db_ok d \<Longrightarrow> fst (run_op io now (Op_Upsert_Override k a r) (Some d)) = Some d' \<Longrightarrow> db_ok d'"
  "db_ok d \<Longrightarrow> fst (run_op io now (Op_Delete_Override k) (Some d)) = Some d' \<Longrightarrow> db_ok d'"
proof -
  have other: "db_ok (put_override_row now k a r d)" if "db_ok d" "valid_action a"
    using that put_override_ok [of d a now k r]
    by (auto simp: db_ok_def refs_ok_def put_override_row_def)
  show "db_ok d \<Longrightarrow> fst (run_op io now (Op_Upsert_Override k a r) (Some d)) = Some d' \<Longrightarrow> db_ok d'"
    using other by (auto simp: outcome_def run_db_def upsert_override_def split: option.splits if_splits)
  show "db_ok d \<Longrightarrow> fst (run_op io now (Op_Delete_Override k) (Some d)) = Some d' \<Longrightarrow> db_ok d'"
    by (auto simp: outcome_def run_db_def delete_override_def drop_override_row_def db_ok_def
        refs_ok_def overrides_ok_def distinct_map_filter list_all_filter split: option.splits if_splits)
qed

lemma step_groups:
  "db_ok d \<Longrightarrow> fst (run_op io now (Op_Create_Group n x cs p m) (Some d)) = Some d' \<Longrightarrow> db_ok d'"
  "db_ok d \<Longrightarrow> fst (run_op io now (Op_Update_Group i n x cs p m) (Some d)) = Some d' \<Longrightarrow> db_ok d'"
  "db_ok d \<Longrightarrow> fst (run_op io now (Op_Delete_Group i) (Some d)) = Some d' \<Longrightarrow> db_ok d'"
proof -
  show "db_ok d \<Longrightarrow> fst (run_op io now (Op_Create_Group n x cs p m) (Some d)) = Some d' \<Longrightarrow> db_ok d'"
    by (auto simp: outcome_def run_db_def create_group_def db_ok_def refs_ok_def list_all_iff
        intro!: new_group_ok split: option.splits if_splits)
  show "db_ok d'" if ok: "db_ok d" and run: "fst (run_op io now (Op_Update_Group i n x cs p m) (Some d)) = Some d'"
  proof (cases "d' = d")
    case False
    define name where "name = (if i = 1 then ''default'' else n)"
    define f where "f g = g\<lparr>g_name := name, g_description := x, g_block_categories := cs,
        g_strict_phishing := p, g_strict_malware := m, g_updated := now\<rparr>" for g :: client_group
    have d': "d' = d\<lparr>db_groups := map (\<lambda>g. if g_id g = i then f g else g) (db_groups d)\<rparr>"
      and free: "\<not> (list_ex (\<lambda>g. g_id g = i) (db_groups d) \<and>
            list_ex (\<lambda>g. g_id g \<noteq> i \<and> g_name g = name) (db_groups d))"
      using run False
      by (auto simp: outcome_def run_db_def update_group_def Let_def f_def name_def
          split: option.splits if_splits)
    have "groups_ok (db_g_seq d) (map (\<lambda>g. if g_id g = i then f g else g) (db_groups d))"
      by (rule updated_groups_ok [OF _ _ _ _ free]) (use ok in \<open>auto simp: f_def name_def db_ok_def\<close>)
    moreover have "g_id ` set (map (\<lambda>g. if g_id g = i then f g else g) (db_groups d)) = g_id ` set (db_groups d)"
      by (rule in_ids_update) (simp add: f_def)
    ultimately show ?thesis using ok unfolding d' by (simp add: db_ok_def refs_ok_def del: set_map)
  qed (use ok in simp)
  show "db_ok d \<Longrightarrow> fst (run_op io now (Op_Delete_Group i) (Some d)) = Some d' \<Longrightarrow> db_ok d'"
    by (auto simp: outcome_def run_db_def delete_group_def db_ok_def refs_ok_def filtered_groups_ok
        mappings_ok_def group_overrides_ok_def distinct_map_filter list_all_filter list_all_iff Let_def
        ids_filter split: option.splits if_splits)
qed

lemma step_mappings:
  "db_ok d \<Longrightarrow> fst (run_op io now (Op_Add_Mapping t v g) (Some d)) = Some d' \<Longrightarrow> db_ok d'"
  "db_ok d \<Longrightarrow> fst (run_op io now (Op_Delete_Mapping i) (Some d)) = Some d' \<Longrightarrow> db_ok d'"
proof -
  have add: "db_ok (d\<lparr>db_mappings := db_mappings d @ [m], db_m_seq := db_m_seq d + 1\<rparr>)"
    if "db_ok d" "m_id m = db_m_seq d + 1" "valid_mapping_type (m_type m)" "m_value m \<noteq> []"
      "\<not> list_ex (\<lambda>x. m_type x = m_type m \<and> m_value x = m_value m) (db_mappings d)"
      "db_foreign_keys d \<longrightarrow> list_ex (\<lambda>x. g_id x = m_group m) (db_groups d)" for m
  proof -
    have ok: "mappings_ok (db_m_seq d) (db_mappings d)" using that(1) by (simp add: db_ok_def)
    have "(m_type m, m_value m) \<notin> (\<lambda>m. (m_type m, m_value m)) ` set (db_mappings d)"
      using that(5) by (auto simp: list_ex_iff)
    moreover have "m_id m \<notin> m_id ` set (db_mappings d)"
      using ok that(2) by (auto simp: mappings_ok_def list_all_iff)
    moreover have "\<forall>x \<in> set (db_mappings d). m_id x \<le> db_m_seq d + 1"
      using ok by (auto simp: mappings_ok_def list_all_iff)
    ultimately have "mappings_ok (db_m_seq d + 1) (db_mappings d @ [m])"
      using ok that(2-4) by (simp add: mappings_ok_def list_all_iff)
    moreover have "db_foreign_keys d \<longrightarrow> m_group m \<in> g_id ` set (db_groups d)"
      using that(6) by (force simp: list_ex_iff)
    ultimately show ?thesis using that(1) by (simp add: db_ok_def refs_ok_def)
  qed
  show "db_ok d \<Longrightarrow> fst (run_op io now (Op_Add_Mapping t v g) (Some d)) = Some d' \<Longrightarrow> db_ok d'"
    by (auto simp: outcome_def run_db_def add_mapping_int_def Let_def intro!: add
        split: option.splits if_splits)
  show "db_ok d \<Longrightarrow> fst (run_op io now (Op_Delete_Mapping i) (Some d)) = Some d' \<Longrightarrow> db_ok d'"
    by (auto simp: outcome_def run_db_def delete_mapping_def split: option.splits if_splits)
       (auto simp: db_ok_def refs_ok_def mappings_ok_def distinct_map_filter list_all_filter)
qed

lemma step_group_overrides:
  "db_ok d \<Longrightarrow> fst (run_op io now (Op_Upsert_Group_Override g k a r) (Some d)) = Some d' \<Longrightarrow> db_ok d'"
  "db_ok d \<Longrightarrow> fst (run_op io now (Op_Delete_Group_Override g k) (Some d)) = Some d' \<Longrightarrow> db_ok d'"
proof -
  have upd: "db_ok (d\<lparr>db_group_overrides := map (\<lambda>g'. if go_group g' = g \<and> go_domain g' = n
      then g'\<lparr>go_action := a, go_reason := r, go_updated := now\<rparr> else g') (db_group_overrides d)\<rparr>)"
    if "db_ok d" "valid_action a" for n
  proof -
    let ?f = "\<lambda>g' :: group_override. if go_group g' = g \<and> go_domain g' = n
      then g'\<lparr>go_action := a, go_reason := r, go_updated := now\<rparr> else g'"
    have keys: "map (\<lambda>g'. (go_group g', go_domain g')) (map ?f rows) = map (\<lambda>g'. (go_group g', go_domain g')) rows"
      for rows by (rule map_key_same) simp
    have "group_overrides_ok (map ?f (db_group_overrides d))"
      using that unfolding group_overrides_ok_def keys db_ok_def by (auto simp: list_all_iff)
    with that show ?thesis by (auto simp: db_ok_def refs_ok_def list_all_iff)
  qed
  have add: "db_ok (d\<lparr>db_group_overrides := db_group_overrides d @ [x], db_go_seq := s\<rparr>)"
    if "db_ok d" "valid_action (go_action x)" "go_domain x \<noteq> []"
      "\<not> list_ex (\<lambda>g'. go_group g' = go_group x \<and> go_domain g' = go_domain x) (db_group_overrides d)"
      "db_foreign_keys d \<longrightarrow> list_ex (\<lambda>y. g_id y = go_group x) (db_groups d)" for x s
  proof -
    have ok: "group_overrides_ok (db_group_overrides d)" using that(1) by (simp add: db_ok_def)
    have "(go_group x, go_domain x) \<notin> (\<lambda>g'. (go_group g', go_domain g')) ` set (db_group_overrides d)"
      using that(4) by (auto simp: list_ex_iff)
    then have "group_overrides_ok (db_group_overrides d @ [x])"
      using ok that(2,3) by (simp add: group_overrides_ok_def)
    moreover have "db_foreign_keys d \<longrightarrow> go_group x \<in> g_id ` set (db_groups d)"
      using that(5) by (force simp: list_ex_iff)
    ultimately show ?thesis using that(1) by (simp add: db_ok_def refs_ok_def)
  qed
  show "db_ok d \<Longrightarrow> fst (run_op io now (Op_Upsert_Group_Override g k a r) (Some d)) = Some d' \<Longrightarrow> db_ok d'"
    by (auto simp: outcome_def run_db_def upsert_group_override_def Let_def intro!: add upd
        split: option.splits if_splits)
  show "db_ok d \<Longrightarrow> fst (run_op io now (Op_Delete_Group_Override g k) (Some d)) = Some d' \<Longrightarrow> db_ok d'"
    by (auto simp: outcome_def run_db_def delete_group_override_def Let_def db_ok_def refs_ok_def
        group_overrides_ok_def distinct_map_filter list_all_filter split: option.splits if_splits)
qed

lemma step_others:
  "db_ok d \<Longrightarrow> fst (run_op io now (Op_Agent_Event t e n x) (Some d)) = Some d' \<Longrightarrow> db_ok d'"
  "db_ok d \<Longrightarrow> fst (run_op io now (Op_Write_Entry w) (Some d)) = Some d' \<Longrightarrow> db_ok d'"
  "db_ok d \<Longrightarrow> fst (run_op io now (Op_Cleanup c) (Some d)) = Some d' \<Longrightarrow> db_ok d'"
  "db_ok d \<Longrightarrow> fst (run_op io now (Op_Update_Whitelist ds) (Some d)) = Some d' \<Longrightarrow> db_ok d'"
  by (auto simp: outcome_def run_db_def record_agent_event_def write_entry_def cleanup_def
      update_whitelist_def db_ok_def refs_ok_def dest!: insert_whitelist_fold
      split: option.splits sum.splits if_splits)

lemma step_evidence:
  assumes ok: "db_ok d" and run: "fst (run_op io now (Op_Replace_Evidence n xs) (Some d)) = Some d'"
  shows "db_ok d'"
proof (cases "d' = d")
  case False
  define nm where "nm = trim_space (to_lower n)"
  have "fold (insert_evidence io nm) xs
      (Inr (d\<lparr>db_evidence := filter (\<lambda>x. oe_domain x \<noteq> nm) (db_evidence d)\<rparr>)) = Inr d'"
    using run False
    by (auto simp: outcome_def run_db_def replace_osint_evidence_def Let_def nm_def
        split: option.splits sum.splits if_splits)
  from insert_evidence_fold [OF this] obtain e sq where
    "evidence_ok (filter (\<lambda>x. oe_domain x \<noteq> nm) (db_evidence d)) \<longrightarrow> evidence_ok e"
    and d': "d' = d\<lparr>db_evidence := e, db_oe_seq := sq\<rparr>"
    by auto
  then have "evidence_ok e"
    using ok by (simp add: db_ok_def evidence_ok_def distinct_map_filter)
  with ok show ?thesis unfolding d' by (simp add: db_ok_def refs_ok_def)
qed (use ok in simp)

lemma step_ok: "db_ok d \<Longrightarrow> fst (run_op io now op (Some d)) = Some d' \<Longrightarrow> db_ok d'"
  by (cases op)
     (blast intro: step_overrides step_groups step_mappings step_group_overrides step_others step_evidence)+

lemma steps_ok:
  "db_ok d \<Longrightarrow> foldl (\<lambda>st (io, now, op). fst (run_op io now op st)) (Some d) ops = Some d' \<Longrightarrow> db_ok d'"
proof (induction ops arbitrary: d)
  case (Cons x ops)
  obtain io now op where x: "x = (io, now, op)" by (cases x)
  have "fst (run_op io now op (Some d)) \<noteq> None"
    by (cases op) (auto simp: outcome_def run_db_def op_defs split: prod.splits)
  then obtain d1 where d1: "fst (run_op io now op (Some d)) = Some d1" by auto
  with Cons x step_ok [OF Cons.prems(1) d1] show ?case by simp
qed simp


definition default_group :: "string \<Rightarrow> client_group" where
  "default_group now = \<lparr>g_id = 1, g_name = ''default'', g_description = ''Default policy group'',
     g_block_categories = [], g_strict_phishing = False, g_strict_malware = True,
     g_created = now, g_updated = now\<rparr>"

definition fresh_db :: "string \<Rightarrow> int \<Rightarrow> bool \<Rightarrow> db" where
  "fresh_db now retention fk =
     (empty_db retention fk)\<lparr>db_groups := [default_group now], db_g_seq := 1\<rparr>"

lemma new_store_fresh:
  "path \<noteq> [] \<Longrightarrow> 0 < r \<Longrightarrow> new_store no_faults now path r (empty_db r fk) = Inr (Some (fresh_db now r fk))"
  by (simp add: new_store_def no_faults_def create_default_groups_def load_cidr_cache_def empty_db_def
      cidr_rows_def fresh_db_def default_group_def List.map_filter_def)

lemma fresh_db_ok: "db_ok (fresh_db now r fk)"
  by (simp add: db_ok_def fresh_db_def empty_db_def overrides_ok_def groups_ok_def mappings_ok_def
      group_overrides_ok_def refs_ok_def evidence_ok_def default_group_def)


subsection \<open>Resolving a client\<close>

definition cache_coherent :: "db \<Rightarrow> bool" where
  "cache_coherent d \<longleftrightarrow> db_cidr_cache d = cidr_rows (db_mappings d)"

lemma get_group_db_found:
  "db_ok d \<Longrightarrow> gid \<in> g_id ` set (db_groups d) \<Longrightarrow>
     \<exists>g \<in> set (db_groups d). g_id g = gid \<and> get_group_db no_faults gid d = Inr g"
proof -
  assume ok: "db_ok d" and "gid \<in> g_id ` set (db_groups d)"
  then obtain g where g: "g \<in> set (db_groups d)" "g_id g = gid" by auto
  have "distinct (map g_id (db_groups d))" using ok by (simp add: db_ok_def groups_ok_def)
  with g find_distinct_key [of g_id "db_groups d" gid g] show ?thesis
    by (auto simp: get_group_db_def no_faults_def)
qed

lemma get_default_found:
  "db_ok d \<Longrightarrow> \<exists>g \<in> set (db_groups d). g_name g = ''default'' \<and> get_group_by_name_db no_faults ''default'' d = Inr g"
proof -
  assume ok: "db_ok d"
  then obtain g where g: "g \<in> set (db_groups d)" "g_name g = ''default''"
    by (auto simp: db_ok_def groups_ok_def list_ex_iff)
  have "distinct (map g_name (db_groups d))" using ok by (simp add: db_ok_def groups_ok_def)
  with g find_distinct_key [of g_name "db_groups d" "''default''" g] show ?thesis
    by (auto simp: get_group_by_name_db_def no_faults_def)
qed

lemma mapped_group_in:
  "db_ok d \<Longrightarrow> db_foreign_keys d \<Longrightarrow> mapped_group no_faults t v d = Some gid \<Longrightarrow>
     gid \<in> g_id ` set (db_groups d)"
  by (auto simp: mapped_group_def no_faults_def db_ok_def refs_ok_def list_all_iff dest: find_Some_set)

lemma cidr_group_in:
  assumes "db_ok d" "db_foreign_keys d" "cache_coherent d" "cidr_group ip d = Some gid"
  shows "gid \<in> g_id ` set (db_groups d)"
proof -
  obtain n where "(gid, n) \<in> set (db_cidr_cache d)"
    using assms(4) by (auto simp: cidr_group_def split: option.splits if_splits dest!: find_Some_set)
  then obtain m where "m \<in> set (db_mappings d)" "m_group m = gid"
    using assms(3) by (auto simp: cache_coherent_def cidr_rows_def List.map_filter_def split: if_splits)
  with assms(1,2) show ?thesis by (auto simp: db_ok_def refs_ok_def list_all_iff)
qed

lemma client_group_found:
  assumes "db_ok d" "db_foreign_keys d" "cache_coherent d"
  shows "\<exists>g \<in> set (db_groups d). get_group_for_client no_faults ip cid (Some d) = Inr g"
proof -
  note found = get_group_db_found [OF assms(1)]
  show ?thesis
    using mapped_group_in [OF assms(1,2)] cidr_group_in [OF assms] get_default_found [OF assms(1)] found
    unfolding get_group_for_client_def ask_db_def Let_def
    by (auto split: option.splits) (metis (no_types, lifting))+
qed




definition kids_db :: db where
  "kids_db = (fresh_db [] 30 True)\<lparr>db_groups := [default_group [],
     (default_group [])\<lparr>g_id := 2, g_name := ''kids''\<rparr>], db_g_seq := 2\<rparr>"

definition group_name_of :: "client_group go_result \<Rightarrow> string go_result" where
  "group_name_of r = (case r of Inl e \<Rightarrow> Inl e | Inr g \<Rightarrow> Inr (g_name g))"

definition kids_mapped :: store where
  "kids_mapped = fst (add_mapping_int no_faults [] ''cidr'' ''10.0.0.0/8'' 2 (Some kids_db))"

definition kids_deleted :: store where
  "kids_deleted = fst (delete_group no_faults 2 kids_mapped)"

text \<open>Deleting a group leaves its networks in the CIDR cache: a client in such a network then gets an
  error instead of the default group, until the cache happens to be reloaded.\<close>

lemma deleted_group_stays_in_cidr_cache:
  "group_name_of (get_group_for_client no_faults ''10.1.2.3'' [] kids_mapped) = Inr ''kids'' \<and>
   get_group_for_client no_faults ''10.1.2.3'' [] kids_deleted = Inl ''group not found: id 2'' \<and>
   group_name_of (get_group_for_client no_faults ''10.1.2.3'' []
     (map_option (\<lambda>d. fst (load_cidr_cache no_faults d)) kids_deleted)) = Inr ''default''"
  by code_simp

subsection \<open>The whitelist table\<close>

text \<open>Replacing the whitelist is all or nothing, and afterwards a domain is whitelisted exactly when
  it was in the new list and is not empty.\<close>

lemma update_whitelist_effect:
  assumes "update_whitelist io domains (Some d) = (Some d', r)"
  shows "(isl r \<longrightarrow> d' = d) \<and>
    (r = Inr () \<longrightarrow> (\<forall>x. is_domain_whitelisted no_faults x (Some d') = Inr (x \<in> set domains \<and> x \<noteq> [])))"
proof (intro conjI impI)
  assume "isl r"
  with assms show "d' = d"
    by (auto simp: update_whitelist_def run_db_def split: option.splits sum.splits)
next
  assume "r = Inr ()"
  with assms obtain ws where "fold (insert_whitelist io) domains (Inr []) = Inr ws" "d' = d\<lparr>db_whitelist := ws\<rparr>"
    by (auto simp: update_whitelist_def run_db_def split: option.splits sum.splits)
  with insert_whitelist_fold [of io domains "Inr []" ws]
  show "\<forall>x. is_domain_whitelisted no_faults x (Some d') = Inr (x \<in> set domains \<and> x \<noteq> [])"
    by (simp add: is_domain_whitelisted_def ask_db_def no_faults_def)
qed

lemma update_whitelist_effect_witness:
  "is_domain_whitelisted no_faults ''a'' (fst (update_whitelist no_faults [''a'', []] (Some (empty_db 30 True)))) = Inr True"
proof -
  have "update_whitelist no_faults [''a'', []] (Some (empty_db 30 True)) =
      (Some ((empty_db 30 True)\<lparr>db_whitelist := [''a'']\<rparr>), Inr ())"
    by (simp add: update_whitelist_def run_db_def no_faults_def insert_whitelist_def)
  with update_whitelist_effect [OF this] show ?thesis by simp
qed

end
