(* ===== verification/Whitelist.thy ===== *)
theory Whitelist
  imports Analysis Bloom Store_Facts
begin

text \<open>
  \<^verbatim>\<open>internal/risk/whitelist.go\<close>: the clean list.  With a database it is a Bloom filter in
  memory in front of the SQLite table, without one an in-memory set.  The content of the whitelist
  file below the feed root is a parameter (\<open>os_open\<close> of \<^typ>\<open>os_env\<close>); its lines are those of
  \<^verbatim>\<open>bufio.Scanner\<close>, which fails on a line of 64 KiB.  The errors of \<^verbatim>\<open>OpenWithin\<close> are
  wrapped, which \<^verbatim>\<open>os.IsNotExist\<close> does not look through, so the branch that tolerates a missing
  file is never taken and the error is returned.
\<close>

record whitelist =
  wl_bloom :: "bloom option"
  wl_allowed :: "string list"

definition new_whitelist :: whitelist where
  "new_whitelist = \<lparr>wl_bloom = None, wl_allowed = []\<rparr>"

definition load_from_db :: "io \<Rightarrow> store \<Rightarrow> whitelist \<Rightarrow> whitelist \<times> unit go_result" where
  "load_from_db io st w =
     (if \<not> enabled st then (w, Inr ())
      else (case get_whitelist io st of
          Inl e \<Rightarrow> (w, Inl (''get whitelist from db: '' @ e))
        | Inr domains \<Rightarrow>
            if domains = [] then (w\<lparr>wl_bloom := None\<rparr>, Inr ())
            else (w\<lparr>wl_bloom := Some (foldl bloom_add
                       (new_bloom_filter (int (length domains)) (1 / 100)) domains)\<rparr>, Inr ())))"

text \<open>\<^verbatim>\<open>bufio.Scanner\<close> with \<^verbatim>\<open>ScanLines\<close>.\<close>

definition scan_lines :: "string \<Rightarrow> string list go_result" where
  "scan_lines content =
     (let raw = split_on (char_of (10 :: nat)) content;
          lines = (if last raw = [] then butlast raw else raw) in
      if list_ex (\<lambda>l. 65536 \<le> length l) lines then Inl ''bufio.Scanner: token too long''
      else Inr (map (\<lambda>l. trim_suffix l [char_of (13 :: nat)]) lines))"

definition whitelist_line :: "string \<Rightarrow> string option" where
  "whitelist_line text =
     (let line = trim_space text in
      if line = [] \<or> has_prefix line ''#'' then None
      else
        (let parts = split_on CHR '','' line;
             domain = (if 2 \<le> length parts then parts ! 1 else parts ! 0) in
         case normalize_domain domain of
           Inl _ \<Rightarrow> None
         | Inr normalized \<Rightarrow> if normalized \<noteq> [] then Some normalized else None))"

definition load_from_file ::
  "os_env \<Rightarrow> io \<Rightarrow> string \<Rightarrow> store \<Rightarrow> whitelist \<Rightarrow> (store \<times> whitelist) \<times> unit go_result" where
  "load_from_file os io path st w =
     (if path = [] then ((st, w), Inr ())
      else (case read_file_within (os_cwd os) (os_open os) (feed_file_root os) path of
          Inl e \<Rightarrow> ((st, w), Inl e)
        | Inr content \<Rightarrow>
            (case scan_lines content of
               Inl e \<Rightarrow> ((st, w), Inl e)
             | Inr lines \<Rightarrow>
                 let domains = List.map_filter whitelist_line lines in
                 if enabled st then
                   (case update_whitelist io domains st of
                      (st', Inl e) \<Rightarrow> ((st', w), Inl (''load file to database: '' @ e))
                    | (st', Inr _) \<Rightarrow> (case load_from_db io st' w of (w', r) \<Rightarrow> ((st', w'), r)))
                 else ((st, w\<lparr>wl_allowed := domains\<rparr>), Inr ()))))"

definition candidate_allowed :: "io \<Rightarrow> store \<Rightarrow> whitelist \<Rightarrow> string \<Rightarrow> bool" where
  "candidate_allowed io st w candidate \<longleftrightarrow>
     (if candidate = [] then False
      else if \<not> enabled st then candidate \<in> set (wl_allowed w)
      else (case wl_bloom w of
          None \<Rightarrow> False
        | Some bf \<Rightarrow>
            if \<not> bloom_test bf candidate then False
            else (case is_domain_whitelisted io candidate st of Inr True \<Rightarrow> True | _ \<Rightarrow> False)))"

text \<open>A nil \<^verbatim>\<open>*Whitelist\<close> allows nothing.\<close>

definition is_allowed :: "io \<Rightarrow> store \<Rightarrow> whitelist option \<Rightarrow> string \<Rightarrow> bool" where
  "is_allowed io st ow domain \<longleftrightarrow>
     (case ow of None \<Rightarrow> False
      | Some w \<Rightarrow> list_ex (candidate_allowed io st w) (parent_names domain))"

subsection \<open>Answers\<close>

text \<open>The reference: some non-empty parent name is in the list.\<close>

definition listed :: "string list \<Rightarrow> string \<Rightarrow> bool" where
  "listed names domain \<longleftrightarrow> (\<exists>c \<in> set (parent_names domain). c \<noteq> [] \<and> c \<in> set names)"

lemma fits_len: "0 < n \<Longrightarrow> n \<le> 2 ^ 50 \<Longrightarrow> filter_fits n (1 / 100)"
proof -
  assume n: "0 < n" "n \<le> 2 ^ 50"
  have "optimal_bits n (1 / 100) = of_int n / 1000 * optimal_bits 1000 (1 / 100)"
    by (simp add: optimal_bits_def)
  also have "\<dots> \<le> of_int n / 1000 * (1000 * 99 * 4)"
    using bits_1000 n by (intro mult_left_mono) auto
  also have "\<dots> \<le> 2 ^ 63"
  proof -
    have "of_int n \<le> (2 ^ 50 :: real)" using n(2) by (metis of_int_le_iff of_int_numeral of_int_power)
    then show ?thesis by simp
  qed
  finally show ?thesis using n by (simp add: filter_fits_def)
qed

lemma is_allowed_db:
  assumes "length (db_whitelist d) \<le> 2 ^ 50"
    "load_from_db no_faults (Some d) w = (w', Inr ())"
  shows "is_allowed no_faults (Some d) (Some w') n \<longleftrightarrow> listed (db_whitelist d) n"
proof (cases "db_whitelist d = []")
  case True
  with assms(2) have "wl_bloom w' = None"
    by (auto simp: load_from_db_def enabled_def get_whitelist_def ask_db_def no_faults_def)
  with True show ?thesis
    by (simp add: is_allowed_def listed_def candidate_allowed_def enabled_def list_ex_iff)
next
  case False
  let ?bf = "new_bloom_filter (int (length (db_whitelist d))) (1 / 100)"
  have w': "wl_bloom w' = Some (foldl bloom_add ?bf (db_whitelist d))"
    using assms(2) False
    by (auto simp: load_from_db_def enabled_def get_whitelist_def ask_db_def no_faults_def)
  have "filter_fits (int (length (db_whitelist d))) (1 / 100)"
    using False assms(1) by (intro fits_len) auto
  then have ok: "bloom_ok ?bf" using new_bloom_ok by blast
  have "candidate_allowed no_faults (Some d) w' c \<longleftrightarrow> c \<noteq> [] \<and> c \<in> set (db_whitelist d)" for c
    using bloom.screened_lookup [OF ok, of "\<lambda>c. c \<in> set (db_whitelist d)" "db_whitelist d" c]
    by (auto simp: candidate_allowed_def enabled_def w' is_domain_whitelisted_def ask_db_def no_faults_def)
  then show ?thesis by (auto simp: is_allowed_def listed_def list_ex_iff)
qed

text \<open>The hybrid lookup is exact: after the filter is loaded from the table, a domain is allowed
  exactly when it or one of its parents is in the table, the filter's false positives notwithstanding;
  and whatever the filter holds, and whichever statements fail, no name outside the table is allowed.\<close>

lemma whitelist_exact:
  assumes "length (db_whitelist d) \<le> 2 ^ 50"
    "load_from_db no_faults (Some d) w = (w', Inr ())"
  shows "(is_allowed no_faults (Some d) (Some w') n \<longleftrightarrow> listed (db_whitelist d) n) \<and>
    (is_allowed io (Some d) (Some w'') n \<longrightarrow> listed (db_whitelist d) n)"
proof
  show "is_allowed no_faults (Some d) (Some w') n \<longleftrightarrow> listed (db_whitelist d) n"
    using assms by (rule is_allowed_db)
  show "is_allowed io (Some d) (Some w'') n \<longrightarrow> listed (db_whitelist d) n"
    by (auto simp: is_allowed_def listed_def candidate_allowed_def enabled_def list_ex_iff
        is_domain_whitelisted_def ask_db_def split: if_splits option.splits sum.splits bool.splits)
qed

definition listed_db :: db where
  "listed_db = (empty_db 30 True)\<lparr>db_whitelist := [''x.vn'']\<rparr>"

lemma whitelist_exact_witness:
  "is_allowed no_faults (Some listed_db) (Some (fst (load_from_db no_faults (Some listed_db) new_whitelist))) ''a.x.vn''"
proof -
  obtain w' where w': "load_from_db no_faults (Some listed_db) new_whitelist = (w', Inr ())"
    by (simp add: load_from_db_def enabled_def listed_db_def get_whitelist_def ask_db_def no_faults_def)
  have "listed (db_whitelist listed_db) ''a.x.vn''"
    by (auto simp: listed_def listed_db_def parent_names_iff has_suffix_def)
  with whitelist_exact [OF _ w', of "''a.x.vn''"] w' show ?thesis by (simp add: listed_db_def)
qed

end
