(* ===== verification/Telemetry.thy ===== *)
theory Telemetry
  imports Store
begin

text \<open>
  The asynchronous telemetry of \<^verbatim>\<open>internal/store/sqlite.go\<close>: \<^verbatim>\<open>RecordAnalysis\<close> puts an
  entry on a channel of 1000 places or drops it, the goroutine \<^verbatim>\<open>telemetryWriter\<close> takes entries
  off and inserts them, \<^verbatim>\<open>Close\<close> makes it drain what is left and end, and \<^verbatim>\<open>cleanupLoop\<close>
  deletes old rows.  The goroutines interleave: the inductive relation \<open>tele_step\<close> has one rule for
  each thing that can happen next, labelled with what happened, and \<open>tele_exec\<close> is a run.  A
  \<^verbatim>\<open>select\<close> with two ready cases may take either, so both rules apply.
\<close>

definition telemetry_buffer_size :: nat where
  "telemetry_buffer_size = 1000"

record tele =
  tl_queue :: "telemetry_entry list"
  tl_db :: db
  tl_done :: bool
  tl_draining :: bool
  tl_writer_ended :: bool
  tl_cleaner_ended :: bool

definition tele_open :: "db \<Rightarrow> tele" where
  "tele_open d = \<lparr>tl_queue = [], tl_db = d, tl_done = False, tl_draining = False,
     tl_writer_ended = False, tl_cleaner_ended = False\<rparr>"

text \<open>\<^verbatim>\<open>RecordAnalysis\<close> on the channel.\<close>

definition record_analysis :: "telemetry_entry \<Rightarrow> telemetry_entry list \<Rightarrow> telemetry_entry list" where
  "record_analysis e queue = (if length queue < telemetry_buffer_size then queue @ [e] else queue)"

datatype tele_event =
    Offer telemetry_entry
  | Write
  | Signal
  | Drain
  | Writer_End
  | Clean string
  | Cleaner_End

inductive tele_step :: "io \<Rightarrow> string \<Rightarrow> tele \<Rightarrow> tele_event \<Rightarrow> tele \<Rightarrow> bool" for io now where
  Offer: "tele_step io now st (Offer e) (st\<lparr>tl_queue := record_analysis e (tl_queue st)\<rparr>)"
| Write: "\<not> tl_writer_ended st \<Longrightarrow> tl_queue st = e # q \<Longrightarrow>
    tele_step io now st Write (st\<lparr>tl_queue := q, tl_db := write_entry io now e (tl_db st)\<rparr>)"
| Signal: "\<not> tl_done st \<Longrightarrow> tele_step io now st Signal (st\<lparr>tl_done := True\<rparr>)"
| Drain: "tl_done st \<Longrightarrow> \<not> tl_draining st \<Longrightarrow> tele_step io now st Drain (st\<lparr>tl_draining := True\<rparr>)"
| Writer_End: "tl_draining st \<Longrightarrow> \<not> tl_writer_ended st \<Longrightarrow> tl_queue st = [] \<Longrightarrow>
    tele_step io now st Writer_End (st\<lparr>tl_writer_ended := True\<rparr>)"
| Clean: "\<not> tl_cleaner_ended st \<Longrightarrow>
    tele_step io now st (Clean cutoff) (st\<lparr>tl_db := cleanup io cutoff (tl_db st)\<rparr>)"
| Cleaner_End: "tl_done st \<Longrightarrow> \<not> tl_cleaner_ended st \<Longrightarrow>
    tele_step io now st Cleaner_End (st\<lparr>tl_cleaner_ended := True\<rparr>)"

inductive_cases offer_cases: "tele_step io now st (Offer e) st'"
inductive_cases write_cases: "tele_step io now st Write st'"
inductive_cases writer_end_cases: "tele_step io now st Writer_End st'"

inductive_simps tele_step_simps:
  "tele_step io now st (Offer e) st'" "tele_step io now st Write st'" "tele_step io now st Signal st'"
  "tele_step io now st Drain st'" "tele_step io now st Writer_End st'"
  "tele_step io now st (Clean c) st'" "tele_step io now st Cleaner_End st'"

inductive tele_exec :: "io \<Rightarrow> string \<Rightarrow> tele \<Rightarrow> tele_event list \<Rightarrow> tele \<Rightarrow> bool" for io now where
  Done: "tele_exec io now st [] st"
| Step: "tele_step io now st ev st1 \<Longrightarrow> tele_exec io now st1 evs st2 \<Longrightarrow> tele_exec io now st (ev # evs) st2"

inductive_cases exec_cons_cases [elim!]: "tele_exec io now st (ev # evs) st'"
inductive_simps exec_Nil [simp]: "tele_exec io now st [] st'"

subsection \<open>First in, first out\<close>

text \<open>What a row keeps of an entry; the database gives it its number and time.\<close>

definition entry_content :: "telemetry_entry \<Rightarrow> telemetry_entry" where
  "entry_content e = e\<lparr>t_id := 0, t_created_at := []\<rparr>"

text \<open>The specification: the stream of entries the service accepted, in order, of which the log is the
  part already written.\<close>

definition stream :: "tele \<Rightarrow> telemetry_entry list" where
  "stream st = map entry_content (db_log (tl_db st) @ tl_queue st)"

fun is_clean :: "tele_event \<Rightarrow> bool" where
  "is_clean (Clean _) \<longleftrightarrow> True"
| "is_clean _ \<longleftrightarrow> False"

fun offered :: "tele_event list \<Rightarrow> telemetry_entry list" where
  "offered [] = []"
| "offered (Offer e # evs) = e # offered evs"
| "offered (_ # evs) = offered evs"

definition calm :: io where
  "calm = (\<lambda>_ _. None)"

lemma write_entry_calm:
  "map entry_content (db_log (write_entry calm now e d)) = map entry_content (db_log d) @ [entry_content e]"
  by (simp add: write_entry_def calm_def entry_content_def)

lemma step_stream:
  assumes "tele_step calm now st ev st'" "\<not> is_clean ev"
  shows "stream st' = stream st \<or>
    (\<exists>e. ev = Offer e \<and> length (tl_queue st) < telemetry_buffer_size \<and> stream st' = stream st @ [entry_content e])"
  using assms by (cases rule: tele_step.cases) (auto simp: stream_def write_entry_calm record_analysis_def)

lemma step_bounded:
  "tele_step io now st ev st' \<Longrightarrow> length (tl_queue st) \<le> telemetry_buffer_size \<Longrightarrow>
     length (tl_queue st') \<le> telemetry_buffer_size"
  by (cases rule: tele_step.cases) (auto simp: record_analysis_def)

text \<open>After the signal, the writer has ended only with an empty channel behind it: entries still there
  were offered later.\<close>

lemma exec_invariant:
  assumes "tele_exec io now st evs st'" "length (tl_queue st) \<le> telemetry_buffer_size"
  shows "length (tl_queue st') \<le> telemetry_buffer_size"
  using assms by (induction rule: tele_exec.induct) (auto intro: step_bounded)

lemma exec_stream:
  assumes "tele_exec calm now st evs st'" "list_all (Not \<circ> is_clean) evs"
  shows "\<exists>es. subseq es (offered evs) \<and> stream st' = stream st @ map entry_content es"
  using assms
proof (induction rule: tele_exec.induct)
  case (Step st ev st1 evs st2)
  then obtain es where es: "subseq es (offered evs)" "stream st2 = stream st1 @ map entry_content es" by auto
  have "subseq es (offered (ev # evs))" using es(1) by (cases ev) (auto intro: list_emb_Cons)
  from Step.hyps(1) Step.prems have "stream st1 = stream st \<or>
      (\<exists>e. ev = Offer e \<and> stream st1 = stream st @ [entry_content e])"
    using step_stream [of now st ev st1] by auto
  then show ?case
  proof
    assume "stream st1 = stream st"
    with es \<open>subseq es (offered (ev # evs))\<close> show ?thesis by auto
  next
    assume "\<exists>e. ev = Offer e \<and> stream st1 = stream st @ [entry_content e]"
    then obtain e where "ev = Offer e" "stream st1 = stream st @ [entry_content e]" by blast
    with es show ?thesis by (intro exI [of _ "e # es"]) auto
  qed
qed auto

lemma exec_few_offers:
  assumes "tele_exec calm now st evs st'" "list_all (Not \<circ> is_clean) evs"
    "length (tl_queue st) + length (offered evs) \<le> telemetry_buffer_size"
  shows "stream st' = stream st @ map entry_content (offered evs)"
  using assms
proof (induction rule: tele_exec.induct)
  case (Step st ev st1 evs st2)
  from Step.hyps(1) Step.prems(2) have "length (tl_queue st1) + length (offered evs) \<le> telemetry_buffer_size"
    by (cases rule: tele_step.cases) (auto simp: record_analysis_def)
  with Step have "stream st2 = stream st1 @ map entry_content (offered evs)" by simp
  moreover have "stream st1 @ map entry_content (offered evs) = stream st @ map entry_content (offered (ev # evs))"
    using Step.hyps(1) Step.prems
    by (cases rule: tele_step.cases) (auto simp: stream_def write_entry_calm record_analysis_def)
  ultimately show ?case by simp
qed simp

text \<open>C25. Telemetry is a bounded first-in-first-out queue in front of the log.  Along every interleaving
  of recording, writing and closing the channel never holds more than 1000 entries, and the written rows
  followed by the waiting entries are the earlier ones followed by a part of the entries offered, in
  the order they were offered; and as long as no more are offered than the channel has room for,
  none is lost.\<close>

theorem telemetry_fifo:
  assumes "tele_exec calm now st evs st'" "list_all (Not \<circ> is_clean) evs"
    "length (tl_queue st) \<le> telemetry_buffer_size"
  shows "length (tl_queue st') \<le> telemetry_buffer_size \<and>
    (\<exists>es. subseq es (offered evs) \<and> stream st' = stream st @ map entry_content es) \<and>
    (length (tl_queue st) + length (offered evs) \<le> telemetry_buffer_size \<longrightarrow>
       stream st' = stream st @ map entry_content (offered evs))"
  using exec_invariant [OF assms(1,3)] exec_stream [OF assms(1,2)] exec_few_offers [OF assms(1,2)] by blast

definition sample_entry :: telemetry_entry where
  "sample_entry = \<lparr>t_id = 0, t_domain = ''a.vn'', t_verdict = ''SAFE'', t_score = 0, t_confidence = 1,
     t_reasons = [], t_cache_hit = False, t_source = ''lexical'', t_analyzed_at = [], t_created_at = [],
     t_client_ip = [], t_client_id = []\<rparr>"

definition sample_open :: tele where
  "sample_open = tele_open (empty_db 30 True)"

definition sample_written :: tele where
  "sample_written = sample_open\<lparr>tl_db := write_entry calm [] sample_entry (empty_db 30 True)\<rparr>"

lemma sample_run: "tele_exec calm [] sample_open [Offer sample_entry, Write] sample_written"
proof (rule tele_exec.Step)
  show "tele_step calm [] sample_open (Offer sample_entry) (sample_open\<lparr>tl_queue := [sample_entry]\<rparr>)"
    by (simp add: tele_step_simps record_analysis_def sample_open_def tele_open_def telemetry_buffer_size_def)
  show "tele_exec calm [] (sample_open\<lparr>tl_queue := [sample_entry]\<rparr>) [Write] sample_written"
    by (rule tele_exec.Step [OF _ tele_exec.Done])
       (simp add: tele_step_simps sample_open_def sample_written_def tele_open_def)
qed

theorem telemetry_fifo_witness:
  "stream sample_written = stream sample_open @ [entry_content sample_entry]"
  using telemetry_fifo [OF sample_run] by (simp add: sample_open_def tele_open_def telemetry_buffer_size_def)

subsection \<open>Closing\<close>

lemma drain_run:
  assumes "tl_draining st" "\<not> tl_writer_ended st"
  shows "\<exists>evs st'. tele_exec io now st evs st' \<and> length evs = length (tl_queue st) + 1 \<and>
    offered evs = [] \<and> list_all (Not \<circ> is_clean) evs \<and> tl_writer_ended st' \<and> tl_queue st' = []"
  using assms
proof (induction "tl_queue st" arbitrary: st)
  case Nil
  then have "tele_step io now st Writer_End (st\<lparr>tl_writer_ended := True\<rparr>)"
    by (auto intro: tele_step.intros)
  with Nil show ?case
    by (intro exI [of _ "[Writer_End]"] exI [of _ "st\<lparr>tl_writer_ended := True\<rparr>"])
       (auto intro: tele_exec.intros)
next
  case (Cons e q)
  let ?st = "st\<lparr>tl_queue := q, tl_db := write_entry io now e (tl_db st)\<rparr>"
  from Cons obtain evs st' where r: "tele_exec io now ?st evs st'" "length evs = length q + 1"
    "offered evs = []" "list_all (Not \<circ> is_clean) evs" "tl_writer_ended st'" "tl_queue st' = []"
    using Cons(1) [of ?st] Cons(3,4) by auto
  have "tele_step io now st Write ?st" using Cons by (auto intro: tele_step.intros)
  with r Cons(2) show ?case
    by (intro exI [of _ "Write # evs"] exI [of _ st']) (auto intro: tele_exec.intros simp flip: Cons(2))
qed

text \<open>Closing the store loses nothing that was accepted: once the signal is given, the writer can
  end in as many steps as there are entries waiting, plus two, and the log is then the whole stream of
  accepted entries, in order.\<close>

lemma telemetry_close_drains:
  assumes "tl_done st" "\<not> tl_writer_ended st" "length (tl_queue st) \<le> telemetry_buffer_size"
  shows "\<exists>evs st'. tele_exec calm now st evs st' \<and> length evs \<le> length (tl_queue st) + 2 \<and>
    tl_writer_ended st' \<and> tl_queue st' = [] \<and> map entry_content (db_log (tl_db st')) = stream st"
proof -
  define st1 where "st1 = (if tl_draining st then st else st\<lparr>tl_draining := True\<rparr>)"
  obtain evs st' where r: "tele_exec calm now st1 evs st'" "length evs = length (tl_queue st) + 1"
    "offered evs = []" "list_all (Not \<circ> is_clean) evs" "tl_writer_ended st'" "tl_queue st' = []"
  proof -
    have "tl_draining st1" "\<not> tl_writer_ended st1" "tl_queue st1 = tl_queue st"
      using assms(2) by (simp_all add: st1_def)
    with drain_run [of st1 calm now] show thesis using that by auto
  qed
  have "stream st1 = stream st" by (simp add: st1_def stream_def)
  then have log: "map entry_content (db_log (tl_db st')) = stream st"
    using exec_few_offers [OF r(1,4)] assms(3) r(3,6) by (simp add: stream_def st1_def split: if_splits)
  show ?thesis
  proof (cases "tl_draining st")
    case True
    then have "st1 = st" by (simp add: st1_def)
    with r log show ?thesis by (intro exI [of _ evs] exI [of _ st']) simp
  next
    case False
    then have "tele_step calm now st Drain st1" using assms(1) by (simp add: st1_def tele_step_simps)
    then have "tele_exec calm now st (Drain # evs) st'" using r(1) by (rule tele_exec.Step)
    with r log show ?thesis by (intro exI [of _ "Drain # evs"] exI [of _ st']) simp
  qed
qed

lemma telemetry_close_drains_witness:
  "\<exists>evs st'. tele_exec calm [] (sample_open\<lparr>tl_queue := [sample_entry], tl_done := True\<rparr>) evs st' \<and>
     map entry_content (db_log (tl_db st')) = [entry_content sample_entry]"
proof -
  let ?st = "sample_open\<lparr>tl_queue := [sample_entry], tl_done := True\<rparr>"
  have "tl_done ?st" "\<not> tl_writer_ended ?st" "length (tl_queue ?st) \<le> telemetry_buffer_size"
    by (simp_all add: sample_open_def tele_open_def telemetry_buffer_size_def)
  from telemetry_close_drains [OF this] have "\<exists>evs st'. tele_exec calm [] ?st evs st' \<and>
      map entry_content (db_log (tl_db st')) = stream ?st" by blast
  then show ?thesis by (simp add: stream_def sample_open_def tele_open_def empty_db_def)
qed

end
