(* ===== verification/Feed_Status.thy ===== *)
theory Feed_Status
  imports Osint
begin

text \<open>
  \<^verbatim>\<open>internal/feed/status.go\<close>: the keys of a threat feed in Redis, the sources of a feed, and the
  status record of each source with its summary.  Parameters are the record \<open>feed_env\<close>: the clock
  with the formatter and parser of its time stamps (\<^verbatim>\<open>time.RFC3339Nano\<close>), the printer of a
  duration, SHA-256, the percentage format, and the JSON codec of a status.  The decoder fills a given
  status, as \<^verbatim>\<open>json.Unmarshal\<close> does, and may have filled part of it when it fails.
\<close>

record parse_stats =
  ps_valid :: int
  ps_invalid :: int
  ps_duplicates :: int
  ps_skipped :: int

record source_status =
  ss_source :: string
  ss_source_id :: string
  ss_feed_key :: string
  ss_status :: string
  ss_last_attempt :: string
  ss_last_success :: string
  ss_last_failure :: string
  ss_last_error :: string
  ss_stats :: parse_stats
  ss_written :: int
  ss_replace :: bool
  ss_finished :: string
  ss_drift :: bool
  ss_drift_reason :: string
  ss_invalidated :: bool
  ss_revision :: int
  ss_stale :: bool

record status_summary =
  sm_configured :: bool
  sm_preset :: string
  sm_feed_key :: string
  sm_status :: string
  sm_error :: string
  sm_stale :: bool
  sm_drift :: bool
  sm_revision :: int
  sm_last_attempt :: string
  sm_last_success :: string
  sm_stale_after :: string
  sm_sources :: "source_status list"

record feed_env =
  fe_now :: int
  fe_format :: "int \<Rightarrow> string"
  fe_parse_time :: "string \<Rightarrow> int option"
  fe_duration :: "int \<Rightarrow> string"
  fe_sha256 :: "string \<Rightarrow> string"
  fe_percent :: "real \<Rightarrow> string"
  fe_encode :: "source_status \<Rightarrow> string go_result"
  fe_decode :: "source_status \<Rightarrow> string \<Rightarrow> source_status \<times> err option"

definition no_stats :: parse_stats where
  "no_stats = \<lparr>ps_valid = 0, ps_invalid = 0, ps_duplicates = 0, ps_skipped = 0\<rparr>"

definition default_stale_after :: int where
  "default_stale_after = 36 * 3600 * second"

subsection \<open>Sources\<close>

definition production_free_sources :: "string list" where
  "production_free_sources =
     [''https://urlhaus.abuse.ch/downloads/csv_recent/'',
      ''https://raw.githubusercontent.com/openphish/public_feed/refs/heads/main/feed.txt'']"

definition parse_sources :: "string \<Rightarrow> string list" where
  "parse_sources raw =
     normalize_list (fields_where (\<lambda>c. c = CHR '','' \<or> byte_of c \<in> {10, 13}) [] raw)"

definition resolve_sources :: "string \<Rightarrow> string \<Rightarrow> string list go_result" where
  "resolve_sources rawSources preset =
     (let sources = parse_sources rawSources; p = to_lower (trim_space preset) in
      if sources \<noteq> [] then Inr sources
      else if p = [] then Inr []
      else if p = ''production-free'' then Inr production_free_sources
      else Inl (''unknown threat feed preset '' @ quoted preset))"

subsection \<open>Keys\<close>

definition default_threat_feed_key :: string where
  "default_threat_feed_key = ''safe-road:threat:feed''"

definition normalized_feed_key :: "string \<Rightarrow> string" where
  "normalized_feed_key feedKey =
     (let k = trim_space feedKey in if k = [] then default_threat_feed_key else k)"

definition revision_key :: "string \<Rightarrow> string" where
  "revision_key feedKey = normalized_feed_key feedKey @ '':revision''"

definition hex_lower :: "char \<Rightarrow> string" where
  "hex_lower c = [''0123456789abcdef'' ! nat (byte_of c div 16), ''0123456789abcdef'' ! nat (byte_of c mod 16)]"

definition source_id :: "feed_env \<Rightarrow> string \<Rightarrow> string \<Rightarrow> string" where
  "source_id env feedKey source =
     concat (map hex_lower (take 8 (fe_sha256 env
       (normalized_feed_key feedKey @ [char_of (10 :: nat)] @ trim_space source))))"

definition status_key :: "feed_env \<Rightarrow> string \<Rightarrow> string \<Rightarrow> string" where
  "status_key env feedKey source = normalized_feed_key feedKey @ '':status:'' @ source_id env feedKey source"

subsection \<open>Status\<close>

definition empty_status :: source_status where
  "empty_status = \<lparr>ss_source = [], ss_source_id = [], ss_feed_key = [], ss_status = [],
     ss_last_attempt = [], ss_last_success = [], ss_last_failure = [], ss_last_error = [],
     ss_stats = no_stats, ss_written = 0, ss_replace = False, ss_finished = [], ss_drift = False,
     ss_drift_reason = [], ss_invalidated = False, ss_revision = 0, ss_stale = False\<rparr>"

definition new_status :: "feed_env \<Rightarrow> string \<Rightarrow> string \<Rightarrow> source_status" where
  "new_status env feedKey source =
     empty_status\<lparr>ss_source := source, ss_source_id := source_id env feedKey source,
       ss_feed_key := normalized_feed_key feedKey\<rparr>"

definition apply_staleness :: "feed_env \<Rightarrow> int \<Rightarrow> source_status \<Rightarrow> source_status" where
  "apply_staleness env staleAfter0 s =
     (let staleAfter = (if staleAfter0 \<le> 0 then default_stale_after else staleAfter0) in
      s\<lparr>ss_stale :=
          (if trim_space (ss_last_success s) = [] then True
           else (case fe_parse_time env (ss_last_success s) of
               None \<Rightarrow> True
             | Some t \<Rightarrow> staleAfter < fe_now env - t))\<rparr>)"

definition default_source_statuses :: "feed_env \<Rightarrow> string \<Rightarrow> string list \<Rightarrow> int \<Rightarrow> source_status list" where
  "default_source_statuses env feedKey sources staleAfter =
     map (\<lambda>source. apply_staleness env staleAfter
            ((new_status env feedKey source)\<lparr>ss_status := ''never_synced''\<rparr>)) sources"

definition later_timestamp :: "feed_env \<Rightarrow> string \<Rightarrow> string \<Rightarrow> bool" where
  "later_timestamp env candidate current \<longleftrightarrow>
     (if candidate = [] then False
      else if current = [] then True
      else (case fe_parse_time env candidate of
          None \<Rightarrow> False
        | Some c \<Rightarrow> (case fe_parse_time env current of None \<Rightarrow> True | Some d \<Rightarrow> d < c)))"

text \<open>\<^verbatim>\<open>GetJSON\<close> into an existing status: the status, whether it was found, and the error.\<close>

definition get_status ::
  "feed_env \<Rightarrow> 'r redis \<Rightarrow> string \<Rightarrow> source_status \<Rightarrow> 'r \<Rightarrow> source_status \<times> bool \<times> err option" where
  "get_status env c key base s =
     (case c of
        None \<Rightarrow> (base, False, Some err_disabled)
      | Some k \<Rightarrow>
          (case rc_get k key s of
             Inl e \<Rightarrow> (base, False, Some e)
           | Inr None \<Rightarrow> (base, False, None)
           | Inr (Some v) \<Rightarrow>
               (case fe_decode env base v of
                  (st, None) \<Rightarrow> (st, True, None)
                | (st, Some e) \<Rightarrow> (st, False, Some e))))"

definition read_source_status ::
  "feed_env \<Rightarrow> 'r redis \<Rightarrow> string \<Rightarrow> int \<Rightarrow> 'r \<Rightarrow> string \<Rightarrow> source_status" where
  "read_source_status env c feedKey staleAfter s source =
     (case get_status env c (status_key env feedKey source)
             ((new_status env feedKey source)\<lparr>ss_feed_key := feedKey, ss_status := ''never_synced''\<rparr>) s of
        (state, found, e) \<Rightarrow>
          let state1 = (case e of None \<Rightarrow> state | Some msg \<Rightarrow> state\<lparr>ss_status := ''error'', ss_last_error := msg\<rparr>);
              state2 = (if \<not> found \<and> ss_status state1 \<noteq> ''error''
                        then state1\<lparr>ss_status := ''never_synced''\<rparr> else state1)
          in apply_staleness env staleAfter state2)"

definition summarize :: "feed_env \<Rightarrow> source_status list \<Rightarrow> status_summary \<Rightarrow> status_summary" where
  "summarize env states sm =
     (let stale = list_ex ss_stale states; drift = list_ex ss_drift states;
          warn = list_ex (\<lambda>s. ss_status s = ''error'' \<or> ss_drift s) states in
      sm\<lparr>sm_sources := states, sm_stale := stale, sm_drift := drift,
         sm_last_attempt := foldl (\<lambda>cur s. if later_timestamp env (ss_last_attempt s) cur
             then ss_last_attempt s else cur) (sm_last_attempt sm) states,
         sm_last_success := foldl (\<lambda>cur s. if later_timestamp env (ss_last_success s) cur
             then ss_last_success s else cur) (sm_last_success sm) states,
         sm_status := (if stale then ''stale'' else if warn then ''warning'' else ''ok'')\<rparr>)"

definition read_status_summary ::
  "feed_env \<Rightarrow> 'r redis \<Rightarrow> string \<Rightarrow> string \<Rightarrow> string list \<Rightarrow> int \<Rightarrow> 'r \<Rightarrow> status_summary" where
  "read_status_summary env c feedKey0 preset sources staleAfter0 s =
     (let feedKey = normalized_feed_key feedKey0;
          staleAfter = (if staleAfter0 \<le> 0 then default_stale_after else staleAfter0);
          sm0 = \<lparr>sm_configured = sources \<noteq> [], sm_preset = trim_space preset, sm_feed_key = feedKey,
                 sm_status = ''disabled'', sm_error = [], sm_stale = False, sm_drift = False,
                 sm_revision = 0, sm_last_attempt = [], sm_last_success = [],
                 sm_stale_after = fe_duration env staleAfter, sm_sources = []\<rparr>;
          unavailable = (\<lambda>e. sm0\<lparr>sm_status := ''unavailable'', sm_error := e, sm_stale := True,
             sm_sources := default_source_statuses env feedKey sources staleAfter\<rparr>) in
      if sources = [] then sm0
      else if \<not> redis_enabled c then unavailable err_disabled
      else (case get_int64 c (revision_key feedKey) s of
          Inl e \<Rightarrow> unavailable e
        | Inr revision \<Rightarrow>
            summarize env (map (read_source_status env c feedKey staleAfter s) sources)
              (sm0\<lparr>sm_revision := revision\<rparr>)))"

subsection \<open>Drift of the parser\<close>

definition parser_drift_defaults :: "real \<Rightarrow> int \<Rightarrow> real \<times> int" where
  "parser_drift_defaults ratio minInvalid =
     (if ratio \<le> 0 then 20 / 100 else ratio, if minInvalid \<le> 0 then 25 else minInvalid)"

definition cache_invalidation_min_writes :: "int \<Rightarrow> int" where
  "cache_invalidation_min_writes value = (if value \<le> 0 then 1 else value)"

definition parser_drift_status :: "feed_env \<Rightarrow> parse_stats \<Rightarrow> real \<Rightarrow> int \<Rightarrow> bool \<times> string" where
  "parser_drift_status env stats ratio0 minInvalid0 =
     (case parser_drift_defaults ratio0 minInvalid0 of (ratio, minInvalid) \<Rightarrow>
        let total = ps_valid stats + ps_invalid stats in
        if ps_invalid stats < minInvalid \<or> total = 0 then (False, [])
        else
          let invalidRatio = of_int (ps_invalid stats) / of_int total in
          if invalidRatio < ratio then (False, [])
          else (True, ''invalid ratio '' @ fe_percent env (invalidRatio * 100) @ ''% ('' @
                  itoa (ps_invalid stats) @ '' invalid / '' @ itoa total @ '' candidates)''))"

subsection \<open>Recording a synchronisation\<close>

definition record_sync_failure ::
  "feed_env \<Rightarrow> 'r redis \<Rightarrow> string \<Rightarrow> string \<Rightarrow> err \<Rightarrow> 'r \<Rightarrow> 'r \<times> unit go_result" where
  "record_sync_failure env c feedKey source syncErr s =
     (if \<not> redis_enabled c then (s, Inl err_disabled)
      else
        let key = status_key env feedKey source;
            status = fst (get_status env c key (new_status env feedKey source) s);
            now = fe_format env (fe_now env) in
        set_json (fe_encode env) c key
          (status\<lparr>ss_status := ''error'', ss_last_attempt := now, ss_last_failure := now,
                  ss_last_error := syncErr, ss_finished := now, ss_stale := True\<rparr>) 0 s)"

record sync_report =
  sr_source :: string
  sr_key :: string
  sr_dry_run :: bool
  sr_replace :: bool
  sr_stats :: parse_stats
  sr_written :: int
  sr_redis_addr :: string
  sr_finished :: string
  sr_drift :: bool
  sr_drift_reason :: string
  sr_invalidated :: bool
  sr_revision :: int

definition record_sync_success :: "feed_env \<Rightarrow> 'r redis \<Rightarrow> sync_report \<Rightarrow> 'r \<Rightarrow> 'r \<times> unit go_result" where
  "record_sync_success env c r s =
     (if \<not> redis_enabled c then (s, Inl err_disabled)
      else set_json (fe_encode env) c (status_key env (sr_key r) (sr_source r))
        ((new_status env (sr_key r) (sr_source r))
           \<lparr>ss_status := ''ok'', ss_last_attempt := sr_finished r, ss_last_success := sr_finished r,
            ss_stats := sr_stats r, ss_written := sr_written r, ss_replace := sr_replace r,
            ss_finished := sr_finished r, ss_drift := sr_drift r, ss_drift_reason := sr_drift_reason r,
            ss_invalidated := sr_invalidated r, ss_revision := sr_revision r\<rparr>) 0 s)"

end
