(* ===== verification/Risk.thy ===== *)
theory Risk
  imports Ai Whitelist Telemetry Feed_Status
begin

text \<open>
  \<^verbatim>\<open>internal/risk/service.go\<close>: the service that decides what happens to a domain.  A service is
  its configuration; the state it works on is the \<open>world\<close>: the Redis server, the SQLite store with
  its telemetry channel, the clean list and the report map of the OSINT service.  The TLS and WHOIS
  inspections, the AI and OSINT environments, the IDNA conversion and the JSON codecs of the cache
  entries are the record \<open>risk_env\<close>.  Time stands still during a call.  Only log lines are left out.
\<close>

record 'r service =
  sv_redis :: "'r redis"
  sv_redis_timeout :: int
  sv_ttl_allowed :: int
  sv_ttl_suspicious :: int
  sv_ttl_blocked :: int
  sv_recent_limit :: int
  sv_feed_key :: string
  sv_feed_revision_key :: string
  sv_ai :: "ai_client option"
  sv_config :: analysis_config
  sv_enrich_enabled :: bool
  sv_enrich_timeout :: int
  sv_osint :: "'r osint_service option"

record client_info =
  ci_ip :: string
  ci_id :: string

record assessment =
  as_result :: result
  as_cache_hit :: bool
  as_analyzed_at :: string
  as_evidence :: "evidence list"

record policy =
  po_domain :: string
  po_policy :: string
  po_result :: result
  po_cache_hit :: bool

record cache_entry =
  ce_result :: result
  ce_feed_revision :: string
  ce_analysis_revision :: string
  ce_osint_checked :: string

record cache_status =
  cs_configured :: bool
  cs_status :: string
  cs_error :: string

datatype lookup_mode = Lookup_None | Cached_Only | On_Demand

record risk_env =
  rk_io :: io
  rk_to_unicode :: "string \<Rightarrow> string option"
  rk_tls :: "string \<Rightarrow> int \<times> string list"
  rk_whois :: "string \<Rightarrow> int \<times> string list"
  rk_ai :: ai_env
  rk_osint :: osint_env
  rk_sql_now :: string
  rk_encode_entry :: "cache_entry \<Rightarrow> string go_result"
  rk_decode_entry :: "string \<Rightarrow> cache_entry go_result"
  rk_encode_recent :: "assessment \<Rightarrow> string go_result"
  rk_decode_recent :: "string \<Rightarrow> assessment go_result"

record 'r world =
  w_redis :: 'r
  w_store :: store
  w_queue :: "telemetry_entry list"
  w_whitelist :: "whitelist option"
  w_memory :: "string \<Rightarrow> report option"

definition threat_feed_reason :: string where
  "threat_feed_reason = ''matched local threat feed''"

definition analysis_revision :: string where
  "analysis_revision = ''2026-05-osint-v1''"

definition recent_analysis_key :: string where
  "recent_analysis_key = ''safe-road:analysis:recent''"

definition no_result :: result where
  "no_result = \<lparr>res_domain = [], res_verdict = Invalid, res_confidence = 0, res_score = 0,
     res_reasons = [], res_category = []\<rparr>"

definition now_text :: "risk_env \<Rightarrow> string" where
  "now_text env = on_format (rk_osint env) (on_now (rk_osint env))"

subsection \<open>Stages of an assessment\<close>

definition ttl_for :: "'r service \<Rightarrow> verdict \<Rightarrow> int" where
  "ttl_for s v = (case v of Malicious \<Rightarrow> sv_ttl_blocked s | Suspicious \<Rightarrow> sv_ttl_suspicious s
     | _ \<Rightarrow> sv_ttl_allowed s)"

definition current_feed_revision :: "'r service \<Rightarrow> 'r \<Rightarrow> string" where
  "current_feed_revision s r =
     (if sv_feed_revision_key s = [] then []
      else (case get_string (sv_redis s) (sv_feed_revision_key s) r of Inl _ \<Rightarrow> [] | Inr v \<Rightarrow> v))"

definition threat_feed_candidates :: "string \<Rightarrow> string list" where
  "threat_feed_candidates domain = filter (\<lambda>c. c \<noteq> []) (parent_names domain)"

fun match_any_candidate :: "'r service \<Rightarrow> 'r \<Rightarrow> string list \<Rightarrow> bool go_result" where
  "match_any_candidate s r [] = (if redis_enabled (sv_redis s) then Inr False else Inl err_disabled)"
| "match_any_candidate s r (c # cs) =
     (case set_is_member (sv_redis s) (sv_feed_key s) c r of
        Inl e \<Rightarrow> Inl e
      | Inr True \<Rightarrow> Inr True
      | Inr False \<Rightarrow> match_any_candidate s r cs)"

definition match_threat_feed :: "'r service \<Rightarrow> 'r \<Rightarrow> string \<Rightarrow> bool go_result" where
  "match_threat_feed s r domain = match_any_candidate s r (threat_feed_candidates domain)"

definition feed_result :: "'r service \<Rightarrow> 'r \<Rightarrow> string \<Rightarrow> result" where
  "feed_result s r domain =
     (case match_threat_feed s r domain of
        Inr True \<Rightarrow>
          \<lparr>res_domain = domain, res_verdict = Malicious, res_confidence = 1, res_score = 100,
           res_reasons = [threat_feed_reason], res_category = []\<rparr>
      | _ \<Rightarrow> no_result)"

definition enrich_suspicious :: "risk_env \<Rightarrow> 'r service \<Rightarrow> string \<Rightarrow> result \<Rightarrow> result" where
  "enrich_suspicious env s domain r =
     (if \<not> sv_enrich_enabled s \<or> sv_enrich_timeout s \<le> 0 then r
      else if res_score r < 20 \<or> 70 \<le> res_score r then r
      else
        (let (tlsScore, tlsReasons) = rk_tls env domain;
             (whoisScore, whoisReasons) = rk_whois env domain;
             total = res_score r + (tlsScore + whoisScore);
             score = (if 100 < total then 100 else total)
         in r\<lparr>res_score := score, res_reasons := res_reasons r @ tlsReasons @ whoisReasons,
              res_verdict := verdict_of score,
              res_confidence := min 1 (45 / 100 + of_int score / 120)\<rparr>))"

definition refine_with_ai :: "risk_env \<Rightarrow> 'r service \<Rightarrow> result \<Rightarrow> result" where
  "refine_with_ai env s current =
     (if sv_ai s = None then current
      else if res_verdict current \<noteq> Suspicious then current
      else (case ai_refine (sv_ai s) (rk_ai env) (res_domain current) current of
          Inl _ \<Rightarrow> current
        | Inr r \<Rightarrow>
            if res_verdict r \<noteq> Malicious then current\<lparr>res_reasons := res_reasons current @ res_reasons r\<rparr>
            else current\<lparr>res_verdict := Malicious,
                   res_score := (if res_score current < res_score r then res_score r else res_score current),
                   res_confidence := (if res_confidence current < res_confidence r then res_confidence r
                                      else res_confidence current),
                   res_reasons := res_reasons current @ res_reasons r\<rparr>))"

definition osint_state_of :: "'r world \<Rightarrow> 'r osint_state" where
  "osint_state_of w = \<lparr>om_memory = w_memory w, om_redis = w_redis w\<rparr>"

definition with_osint_state :: "'r world \<Rightarrow> 'r osint_state \<Rightarrow> 'r world" where
  "with_osint_state w st = w\<lparr>w_memory := om_memory st, w_redis := om_redis st\<rparr>"

definition store_evidence :: "string \<Rightarrow> evidence \<Rightarrow> osint_evidence" where
  "store_evidence expiresAt ev =
     \<lparr>oe_id = 0, oe_domain = ev_domain ev, oe_source_url = ev_source_url ev,
      oe_source_title = ev_source_title ev, oe_source_type = ev_source_type ev,
      oe_confidence = ev_confidence ev, oe_terms = ev_terms ev, oe_retrieved = ev_retrieved ev,
      oe_expires = expiresAt\<rparr>"

definition record_osint_evidence :: "risk_env \<Rightarrow> report \<Rightarrow> 'r world \<Rightarrow> 'r world" where
  "record_osint_evidence env rep w =
     (if \<not> enabled (w_store w) \<or> rp_evidence rep = [] then w
      else
        let expiresAt = (if rp_expires_at rep = []
              then on_format (rk_osint env) (on_now (rk_osint env) + 6 * 3600 * second)
              else rp_expires_at rep) in
        w\<lparr>w_store := fst (replace_osint_evidence (rk_io env) (rp_domain rep)
              (map (store_evidence expiresAt) (rp_evidence rep)) (w_store w))\<rparr>)"

definition osint_enabled :: "'r osint_service option \<Rightarrow> bool" where
  "osint_enabled os \<longleftrightarrow> (case os of None \<Rightarrow> False | Some o' \<Rightarrow> oi_enabled o')"

definition lookup_osint ::
  "risk_env \<Rightarrow> 'r service \<Rightarrow> string \<Rightarrow> result \<Rightarrow> lookup_mode \<Rightarrow> bool \<Rightarrow> 'r world \<Rightarrow> 'r world \<times> report" where
  "lookup_osint env s domain r mode force w =
     (if \<not> osint_enabled (sv_osint s) \<or> mode = Lookup_None then (w, no_report)
      else if \<not> force \<and> \<not> should_lookup domain r then (w, no_report)
      else (case mode of
          Cached_Only \<Rightarrow>
            (case osint_cached (rk_osint env) (sv_osint s) domain (osint_state_of w) of
               None \<Rightarrow> (w, no_report)
             | Some rep \<Rightarrow> (w, rep\<lparr>rp_cache_hit := True\<rparr>))
        | On_Demand \<Rightarrow>
            (case osint_lookup (rk_osint env) (sv_osint s) domain force (osint_state_of w) of
               (st, rep, _) \<Rightarrow> (record_osint_evidence env rep (with_osint_state w st), rep))
        | Lookup_None \<Rightarrow> (w, no_report)))"

definition analysis_key :: "string \<Rightarrow> string" where
  "analysis_key domain = ''safe-road:analysis:'' @ domain"

definition write_entry_cache :: "risk_env \<Rightarrow> 'r service \<Rightarrow> string \<Rightarrow> cache_entry \<Rightarrow> 'r world \<Rightarrow> 'r world" where
  "write_entry_cache env s domain entry w =
     w\<lparr>w_redis := fst (set_json (rk_encode_entry env) (sv_redis s) (analysis_key domain) entry
          (ttl_for s (res_verdict (ce_result entry))) (w_redis w))\<rparr>"

definition apply_osint ::
  "risk_env \<Rightarrow> 'r service \<Rightarrow> string \<Rightarrow> result \<Rightarrow> report \<Rightarrow> string \<Rightarrow> 'r world \<Rightarrow> 'r world \<times> result" where
  "apply_osint env s domain r rep feedRevision w =
     (if sv_osint s = None \<or> \<not> rp_should_block rep then (w, r)
      else
        let updated = osint_apply r rep in
        if res_verdict updated = res_verdict r \<and> res_score updated = res_score r then (w, updated)
        else (write_entry_cache env s domain
                \<lparr>ce_result = updated, ce_feed_revision = feedRevision,
                 ce_analysis_revision = analysis_revision, ce_osint_checked = rp_checked_at rep\<rparr> w, updated))"

text \<open>The cache read: the second, legacy, read of \<^verbatim>\<open>analyze\<close> only decides what is logged.\<close>

definition cached_result :: "risk_env \<Rightarrow> 'r service \<Rightarrow> string \<Rightarrow> string \<Rightarrow> 'r \<Rightarrow> result option" where
  "cached_result env s domain currentRevision r =
     (case get_json (rk_decode_entry env) (sv_redis s) (analysis_key domain) r of
        Inr (Some entry) \<Rightarrow>
          if res_domain (ce_result entry) \<noteq> [] \<and> ce_analysis_revision entry = analysis_revision \<and>
             (currentRevision = [] \<or> ce_feed_revision entry = currentRevision)
          then Some (ce_result entry) else None
      | _ \<Rightarrow> None)"

definition fresh_result :: "risk_env \<Rightarrow> 'r service \<Rightarrow> string \<Rightarrow> 'r \<Rightarrow> result" where
  "fresh_result env s domain r =
     (let r0 = feed_result s r domain;
          r1 = (if res_domain r0 = [] then analyze (rk_to_unicode env) (sv_config s) domain else r0)
      in refine_with_ai env s (enrich_suspicious env s domain r1))"

definition assess ::
  "risk_env \<Rightarrow> 'r service \<Rightarrow> string \<Rightarrow> lookup_mode \<Rightarrow> bool \<Rightarrow> 'r world \<Rightarrow>
     'r world \<times> result \<times> bool \<times> evidence list" where
  "assess env s domain mode force w =
     (case normalize_domain domain of
        Inl _ \<Rightarrow> (w, analyze (rk_to_unicode env) (sv_config s) domain, False, [])
      | Inr normalized \<Rightarrow>
          let rev = current_feed_revision s (w_redis w) in
          (case cached_result env s normalized rev (w_redis w) of
             Some cached \<Rightarrow>
               (case lookup_osint env s normalized cached mode force w of (w1, rep) \<Rightarrow>
                (case apply_osint env s normalized cached rep rev w1 of (w2, updated) \<Rightarrow>
                   (w2, updated, True, rp_evidence rep)))
           | None \<Rightarrow>
               let r = fresh_result env s normalized (w_redis w) in
               (case lookup_osint env s normalized r mode force w of (w1, rep) \<Rightarrow>
                (case apply_osint env s normalized r rep rev w1 of (w2, final) \<Rightarrow>
                   (write_entry_cache env s normalized
                      \<lparr>ce_result = final, ce_feed_revision = rev,
                       ce_analysis_revision = analysis_revision, ce_osint_checked = []\<rparr> w2,
                    final, False, rp_evidence rep)))))"


subsection \<open>Decisions\<close>

definition fallback_group :: client_group where
  "fallback_group = \<lparr>g_id = 1, g_name = ''default'', g_description = [], g_block_categories = [],
     g_strict_phishing = False, g_strict_malware = True, g_created = [], g_updated = []\<rparr>"

definition group_of_client :: "risk_env \<Rightarrow> store \<Rightarrow> client_info \<Rightarrow> client_group" where
  "group_of_client env st client =
     (if \<not> enabled st then fallback_group
      else (case get_group_for_client (rk_io env) (ci_ip client) (ci_id client) st of
          Inl _ \<Rightarrow> fallback_group
        | Inr g \<Rightarrow> g))"

text \<open>The override that applies, when there is one and it could be read.\<close>

definition effective_override :: "risk_env \<Rightarrow> store \<Rightarrow> int \<Rightarrow> string \<Rightarrow> override option" where
  "effective_override env st gid domain =
     (if \<not> enabled st then None
      else (case get_effective_override (rk_io env) gid domain st of
          Inl _ \<Rightarrow> None
        | Inr o' \<Rightarrow> o'))"

definition override_reason :: "override \<Rightarrow> string" where
  "override_reason o' =
     (if ov_reason o' = [] then ''admin override: '' @ ov_action o'
      else ''admin override: '' @ ov_action o' @ '' ('' @ ov_reason o' @ '')'')"

definition override_result :: "string \<Rightarrow> override \<Rightarrow> result" where
  "override_result domain o' =
     \<lparr>res_domain = domain, res_verdict = (if ov_action o' = ''block'' then Malicious else Safe),
      res_confidence = 1, res_score = (if ov_action o' = ''block'' then 100 else 0),
      res_reasons = [override_reason o'], res_category = classify_category domain\<rparr>"

definition whitelisted_result :: "string \<Rightarrow> result" where
  "whitelisted_result domain =
     \<lparr>res_domain = domain, res_verdict = Safe, res_confidence = 1, res_score = 0,
      res_reasons = [''whitelisted''], res_category = ''uncategorized''\<rparr>"

definition infer_source :: "assessment \<Rightarrow> string" where
  "infer_source a =
     (if as_cache_hit a then ''cache''
      else (case first_some (\<lambda>r. if has_prefix r ''admin override'' then Some ''override''
                      else if r = ''whitelisted'' then Some ''whitelist''
                      else if r = threat_feed_reason then Some ''feed'' else None)
                  (res_reasons (as_result a)) of
          None \<Rightarrow> ''lexical''
        | Some source \<Rightarrow> source))"

definition record_telemetry :: "assessment \<Rightarrow> client_info \<Rightarrow> 'r world \<Rightarrow> 'r world" where
  "record_telemetry a client w =
     (if \<not> enabled (w_store w) then w
      else w\<lparr>w_queue := record_analysis
        \<lparr>t_id = 0, t_domain = res_domain (as_result a), t_verdict = verdict_string (res_verdict (as_result a)),
         t_score = res_score (as_result a), t_confidence = res_confidence (as_result a),
         t_reasons = res_reasons (as_result a), t_cache_hit = as_cache_hit a, t_source = infer_source a,
         t_analyzed_at = as_analyzed_at a, t_created_at = [], t_client_ip = ci_ip client,
         t_client_id = ci_id client\<rparr> (w_queue w)\<rparr>)"

definition assessment_of :: "risk_env \<Rightarrow> result \<Rightarrow> bool \<Rightarrow> evidence list \<Rightarrow> assessment" where
  "assessment_of env r hit evs =
     \<lparr>as_result = r, as_cache_hit = hit, as_analyzed_at = now_text env, as_evidence = evs\<rparr>"

definition is_phishing :: "result \<Rightarrow> bool" where
  "is_phishing r \<longleftrightarrow>
     list_ex (\<lambda>x. contains (to_lower x) ''phishing'') (res_reasons r) \<or> res_category r = ''phishing''"

text \<open>Step 5 of \<^verbatim>\<open>Policy\<close>.\<close>

definition enforce :: "client_group \<Rightarrow> result \<Rightarrow> string" where
  "enforce g r =
     (let p1 = (if res_verdict r = Malicious \<and> g_strict_malware g then ''block'' else ''allow'');
          p2 = (if g_strict_phishing g \<and> 40 \<le> res_score r \<and> is_phishing r then ''block'' else p1)
      in if g_block_categories g \<noteq> [] \<and> res_category r \<noteq> [] \<and> res_category r \<noteq> ''uncategorized'' \<and>
            list_ex (\<lambda>c. to_lower (trim_space c) = to_lower (res_category r)) (g_block_categories g)
         then ''block'' else p2)"

definition decide_policy ::
  "risk_env \<Rightarrow> 'r service \<Rightarrow> string \<Rightarrow> client_info \<Rightarrow> 'r world \<Rightarrow> 'r world \<times> policy" where
  "decide_policy env s domain client w =
     (case normalize_domain domain of
        Inl _ \<Rightarrow>
          (w, \<lparr>po_domain = domain, po_policy = ''block'',
               po_result = analyze (rk_to_unicode env) (sv_config s) domain, po_cache_hit = False\<rparr>)
      | Inr normalized \<Rightarrow>
          let g = group_of_client env (w_store w) client in
          (case effective_override env (w_store w) (g_id g) normalized of
             Some o' \<Rightarrow>
               let r = override_result normalized o' in
               (record_telemetry (assessment_of env r False []) client w,
                \<lparr>po_domain = normalized, po_policy = ov_action o', po_result = r, po_cache_hit = False\<rparr>)
           | None \<Rightarrow>
               if is_allowed (rk_io env) (w_store w) (w_whitelist w) normalized then
                 (record_telemetry (assessment_of env (whitelisted_result normalized) False []) client w,
                  \<lparr>po_domain = normalized, po_policy = ''allow'',
                   po_result = whitelisted_result normalized, po_cache_hit = False\<rparr>)
               else
                 (case assess env s normalized Cached_Only False w of (w1, r, hit, _) \<Rightarrow>
                    (record_telemetry (assessment_of env r hit []) client w1,
                     \<lparr>po_domain = res_domain r, po_policy = enforce g r, po_result = r,
                      po_cache_hit = hit\<rparr>))))"

definition analyze_with_options ::
  "risk_env \<Rightarrow> 'r service \<Rightarrow> string \<Rightarrow> client_info \<Rightarrow> bool \<Rightarrow> bool \<Rightarrow> 'r world \<Rightarrow> 'r world \<times> assessment" where
  "analyze_with_options env s domain client includeEvidence forceOSINT w =
     (case (case normalize_domain domain of
              Inl _ \<Rightarrow> (w, analyze (rk_to_unicode env) (sv_config s) domain, False, [])
            | Inr normalized \<Rightarrow>
                let g = group_of_client env (w_store w) client in
                (case effective_override env (w_store w) (g_id g) normalized of
                   Some o' \<Rightarrow> (w, override_result normalized o', False, [])
                 | None \<Rightarrow>
                     if is_allowed (rk_io env) (w_store w) (w_whitelist w) normalized
                     then (w, whitelisted_result normalized, False, [])
                     else assess env s normalized On_Demand forceOSINT w)) of
        (w1, r, hit, evs) \<Rightarrow>
          let a = assessment_of env r hit (if includeEvidence then evs else []) in
          (record_telemetry a client w1, a))"

definition service_analyze ::
  "risk_env \<Rightarrow> 'r service \<Rightarrow> string \<Rightarrow> client_info \<Rightarrow> 'r world \<Rightarrow> 'r world \<times> assessment" where
  "service_analyze env s domain client w = analyze_with_options env s domain client False False w"

subsection \<open>Recent analyses and status\<close>

definition record_recent :: "risk_env \<Rightarrow> 'r service \<Rightarrow> assessment \<Rightarrow> 'r world \<Rightarrow> 'r world" where
  "record_recent env s item w =
     w\<lparr>w_redis := fst (push_json (rk_encode_recent env) (sv_redis s) recent_analysis_key item
          (sv_recent_limit s) (w_redis w))\<rparr>"

definition recent :: "risk_env \<Rightarrow> 'r service \<Rightarrow> 'r world \<Rightarrow> assessment list" where
  "recent env s w =
     (case list_json (rk_decode_recent env) (sv_redis s) recent_analysis_key 0 (sv_recent_limit s - 1)
             (w_redis w) of
        Inl _ \<Rightarrow> []
      | Inr xs \<Rightarrow> xs)"

definition service_cache_status :: "'r service option \<Rightarrow> 'r world \<Rightarrow> cache_status" where
  "service_cache_status os w =
     (case os of
        None \<Rightarrow> \<lparr>cs_configured = False, cs_status = ''disabled'', cs_error = []\<rparr>
      | Some s \<Rightarrow>
          if \<not> redis_enabled (sv_redis s)
          then \<lparr>cs_configured = False, cs_status = ''disabled'', cs_error = []\<rparr>
          else (case redis_ping (sv_redis s) (w_redis w) of
              Inl e \<Rightarrow> \<lparr>cs_configured = True, cs_status = ''unavailable'', cs_error = e\<rparr>
            | Inr _ \<Rightarrow> \<lparr>cs_configured = True, cs_status = ''ok'', cs_error = []\<rparr>))"

subsection \<open>Wrappers of the store\<close>

definition check_override :: "risk_env \<Rightarrow> string \<Rightarrow> 'r world \<Rightarrow> result option" where
  "check_override env domain w =
     (if \<not> enabled (w_store w) then None
      else (case get_override (rk_io env) domain (w_store w) of
          Inl _ \<Rightarrow> None
        | Inr None \<Rightarrow> None
        | Inr (Some o') \<Rightarrow>
            if ov_action o' = ''block'' then
              Some \<lparr>res_domain = domain, res_verdict = Malicious, res_confidence = 1, res_score = 100,
                    res_reasons = [override_reason o'], res_category = []\<rparr>
            else if ov_action o' = ''allow'' then
              Some \<lparr>res_domain = domain, res_verdict = Safe, res_confidence = 1, res_score = 0,
                    res_reasons = [override_reason o'], res_category = []\<rparr>
            else None))"

definition service_list_overrides :: "risk_env \<Rightarrow> string \<Rightarrow> 'r world \<Rightarrow> override list go_result" where
  "service_list_overrides env action w = list_overrides (rk_io env) action (w_store w)"

definition service_upsert_override ::
  "risk_env \<Rightarrow> string \<Rightarrow> string \<Rightarrow> string \<Rightarrow> 'r world \<Rightarrow> 'r world \<times> unit go_result" where
  "service_upsert_override env domain action reason w =
     (if \<not> enabled (w_store w) then (w, Inl ''store not configured'')
      else (case normalize_domain domain of
          Inl e \<Rightarrow> (w, Inl (''invalid domain: '' @ e))
        | Inr normalized \<Rightarrow>
            (case upsert_override (rk_io env) (rk_sql_now env) normalized action reason (w_store w) of
               (st, r) \<Rightarrow> (w\<lparr>w_store := st\<rparr>, r))))"

definition service_delete_override :: "risk_env \<Rightarrow> string \<Rightarrow> 'r world \<Rightarrow> 'r world \<times> unit go_result" where
  "service_delete_override env domain w =
     (if \<not> enabled (w_store w) then (w, Inl ''store not configured'')
      else (case normalize_domain domain of
          Inl e \<Rightarrow> (w, Inl (''invalid domain: '' @ e))
        | Inr normalized \<Rightarrow>
            (case delete_override (rk_io env) normalized (w_store w) of
               (st, r) \<Rightarrow> (w\<lparr>w_store := st\<rparr>, r))))"

definition telemetry_recent :: "risk_env \<Rightarrow> int \<Rightarrow> int \<Rightarrow> 'r world \<Rightarrow> telemetry_entry list go_result" where
  "telemetry_recent env limit offset w = query_recent (rk_io env) limit offset (w_store w)"

definition telemetry_stats :: "risk_env \<Rightarrow> string \<Rightarrow> 'r world \<Rightarrow> stats go_result" where
  "telemetry_stats env since w = query_stats (rk_io env) since (w_store w)"

subsection \<open>Stored evidence\<close>

definition evidence_of_store :: "osint_evidence \<Rightarrow> evidence" where
  "evidence_of_store item =
     \<lparr>ev_domain = oe_domain item, ev_source_url = oe_source_url item, ev_source_title = oe_source_title item,
      ev_source_type = oe_source_type item, ev_confidence = oe_confidence item, ev_terms = oe_terms item,
      ev_retrieved = oe_retrieved item\<rparr>"

definition stored_osint_evidence :: "risk_env \<Rightarrow> string \<Rightarrow> 'r world \<Rightarrow> report option" where
  "stored_osint_evidence env domain w =
     (if \<not> enabled (w_store w) then None
      else (case normalize_domain domain of
          Inl _ \<Rightarrow> None
        | Inr normalized \<Rightarrow>
            (case list_osint_evidence (rk_io env) normalized (now_text env) (w_store w) of
               Inl _ \<Rightarrow> None
             | Inr [] \<Rightarrow> None
             | Inr (item # items) \<Rightarrow>
                 let evs = map evidence_of_store (item # items); strong = has_strong_warning evs in
                 Some (no_report\<lparr>rp_domain := normalized, rp_enabled := True, rp_cache_hit := True,
                    rp_should_block := strong, rp_evidence := evs,
                    rp_checked_at := oe_retrieved item, rp_expires_at := oe_expires item,
                    rp_impact := (if strong then ''escalate_malicious'' else [])\<rparr>))))"

definition service_osint_evidence ::
  "risk_env \<Rightarrow> 'r service \<Rightarrow> string \<Rightarrow> bool \<Rightarrow> 'r world \<Rightarrow> 'r world \<times> report \<times> err option" where
  "service_osint_evidence env s domain force w =
     (if \<not> osint_enabled (sv_osint s) then (w, no_report\<lparr>rp_domain := domain\<rparr>, None)
      else
        let lookup = (case osint_lookup (rk_osint env) (sv_osint s) domain force (osint_state_of w) of
               (st, rep, e) \<Rightarrow> (with_osint_state w st, rep, e)) in
        if force then lookup
        else (case osint_cached (rk_osint env) (sv_osint s) domain (osint_state_of w) of
            Some rep \<Rightarrow> (w, rep\<lparr>rp_cache_hit := True\<rparr>, None)
          | None \<Rightarrow>
              (case stored_osint_evidence env domain w of
                 Some rep \<Rightarrow> (w, rep, None)
               | None \<Rightarrow> lookup)))"


subsection \<open>Construction\<close>

record 'r risk_options =
  ro_redis :: "'r redis"
  ro_redis_timeout :: int
  ro_ttl_allowed :: int
  ro_ttl_suspicious :: int
  ro_ttl_blocked :: int
  ro_recent_limit :: int
  ro_feed_key :: string
  ro_ai :: ai_config
  ro_whitelist_path :: string
  ro_config :: analysis_config
  ro_store :: store
  ro_enrich_enabled :: bool
  ro_enrich_timeout :: int
  ro_osint :: "'r osint_service option"

definition new_service :: "os_env \<Rightarrow> io \<Rightarrow> 'r risk_options \<Rightarrow> 'r service \<times> store \<times> whitelist" where
  "new_service os io options =
     (let feedKey = (if ro_feed_key options = [] then default_threat_feed_key else ro_feed_key options);
          client = new_ai_client (ro_ai options);
          st = ro_store options;
          (st', wl) = (if ro_whitelist_path options \<noteq> []
            then fst (load_from_file os io (ro_whitelist_path options) st new_whitelist)
            else if enabled st then (st, fst (load_from_db io st new_whitelist))
            else (st, new_whitelist))
      in (\<lparr>sv_redis = ro_redis options, sv_redis_timeout = ro_redis_timeout options,
           sv_ttl_allowed = ro_ttl_allowed options, sv_ttl_suspicious = ro_ttl_suspicious options,
           sv_ttl_blocked = ro_ttl_blocked options,
           sv_recent_limit = (if ro_recent_limit options \<le> 0 then 25 else ro_recent_limit options),
           sv_feed_key = feedKey, sv_feed_revision_key = revision_key feedKey,
           sv_ai = (if ai_enabled (Some client) then Some client else None),
           sv_config = ro_config options, sv_enrich_enabled = ro_enrich_enabled options,
           sv_enrich_timeout = ro_enrich_timeout options, sv_osint = ro_osint options\<rparr>, st', wl))"

text \<open>\<^verbatim>\<open>NewServiceFromEnv\<close>: the database file, the Redis connector and the decoder of the
  scoring file are parameters; a database that does not open is a missing one.\<close>

definition read_secret :: "os_env \<Rightarrow> string \<Rightarrow> string" where
  "read_secret os key = (case secret_string_e os key of Inl _ \<Rightarrow> [] | Inr value \<Rightarrow> value)"

definition options_from_env ::
  "os_env \<Rightarrow> io \<Rightarrow> string \<Rightarrow> db \<Rightarrow> (string \<Rightarrow> string \<Rightarrow> int \<Rightarrow> 'r redis_client) \<Rightarrow>
     (string \<Rightarrow> analysis_config go_result) \<Rightarrow> 'r risk_options" where
  "options_from_env os io now disk connect unmarshal =
     (let redis = new_redis connect (env_string os ''SAFE_ROAD_REDIS_ADDR'' [])
                    (read_secret os ''SAFE_ROAD_REDIS_PASSWORD'') (env_int os ''SAFE_ROAD_REDIS_DB'' 0);
          timeout = duration_millis os ''SAFE_ROAD_REDIS_TIMEOUT_MS'' (250 * millisecond);
          st = (case new_store io now (env_string os ''SAFE_ROAD_SQLITE_PATH'' ''./data/safe-road.db'')
                       (env_int os ''SAFE_ROAD_TELEMETRY_RETENTION_DAYS'' 30) disk of
                  Inl _ \<Rightarrow> None
                | Inr s \<Rightarrow> s);
          osint = new_osint
            \<lparr>oo_enabled = env_bool os ''SAFE_ROAD_OSINT_ENABLED'' False,
             oo_mode = env_string os ''SAFE_ROAD_OSINT_MODE'' ''background_on_demand'',
             oo_timeout = duration_millis os ''SAFE_ROAD_OSINT_TIMEOUT_MS'' (2 * second),
             oo_cache_ttl = duration_seconds os ''SAFE_ROAD_OSINT_CACHE_TTL_SECONDS'' (6 * 3600 * second),
             oo_trusted = split_list (env_string os ''SAFE_ROAD_OSINT_TRUSTED_DOMAINS'' []),
             oo_sources = split_list (env_string os ''SAFE_ROAD_OSINT_SOURCES'' []),
             oo_redis = redis, oo_redis_timeout = timeout, oo_max_bytes = 0, oo_allow_private = False\<rparr>
      in \<lparr>ro_redis = redis, ro_redis_timeout = timeout,
          ro_ttl_allowed = duration_seconds os ''SAFE_ROAD_CACHE_TTL_ALLOWED_SECONDS'' (3 * 3600 * second),
          ro_ttl_suspicious = duration_seconds os ''SAFE_ROAD_CACHE_TTL_SUSPICIOUS_SECONDS'' (3600 * second),
          ro_ttl_blocked = duration_seconds os ''SAFE_ROAD_CACHE_TTL_BLOCKED_SECONDS'' (6 * 3600 * second),
          ro_recent_limit = env_int os ''SAFE_ROAD_DASHBOARD_RECENT_LIMIT'' 25,
          ro_feed_key = env_string os ''SAFE_ROAD_THREAT_FEED_KEY'' default_threat_feed_key,
          ro_ai =
            \<lparr>cfg_provider = env_string os ''SAFE_ROAD_AI_PROVIDER'' ''gemini'',
             cfg_gemini_base = env_string os ''SAFE_ROAD_GEMINI_BASE_URL''
               ''https://generativelanguage.googleapis.com/v1beta'',
             cfg_gemini_key = read_secret os ''SAFE_ROAD_GEMINI_API_KEY'',
             cfg_gemini_model = env_string os ''SAFE_ROAD_GEMINI_MODEL'' ''gemini-2.5-flash-lite'',
             cfg_gemini_timeout = duration_millis os ''SAFE_ROAD_GEMINI_TIMEOUT_MS'' (3 * second),
             cfg_ollama_base = env_string os ''SAFE_ROAD_OLLAMA_BASE_URL'' ''http://localhost:11434'',
             cfg_ollama_model = env_string os ''SAFE_ROAD_OLLAMA_MODEL'' ''gemma2:2b'',
             cfg_ollama_timeout = duration_millis os ''SAFE_ROAD_OLLAMA_TIMEOUT_MS'' (5000 * millisecond)\<rparr>,
          ro_whitelist_path = env_string os ''SAFE_ROAD_WHITELIST_PATH'' ''./data/whitelist.txt'',
          ro_config = load_analysis_config os unmarshal (env_string os ''SAFE_ROAD_ANALYSIS_CONFIG_PATH'' []),
          ro_store = st, ro_enrich_enabled = env_bool os ''SAFE_ROAD_ENRICH_ENABLED'' True,
          ro_enrich_timeout = duration_millis os ''SAFE_ROAD_ENRICH_TIMEOUT_MS'' (3 * second),
          ro_osint = Some osint\<rparr>)"

definition new_service_from_env ::
  "os_env \<Rightarrow> io \<Rightarrow> string \<Rightarrow> db \<Rightarrow> (string \<Rightarrow> string \<Rightarrow> int \<Rightarrow> 'r redis_client) \<Rightarrow>
     (string \<Rightarrow> analysis_config go_result) \<Rightarrow> 'r service \<times> store \<times> whitelist" where
  "new_service_from_env os io now disk connect unmarshal =
     new_service os io (options_from_env os io now disk connect unmarshal)"

end
