(* ===== verification/Risk_Facts.thy ===== *)
theory Risk_Facts
  imports Risk
begin

text \<open>
  What the risk service guarantees: the precedence of its decisions, the effect of an administrator's
  rule, that later stages of an assessment only escalate, and that cached assessments are the ones that
  were made.
\<close>

subsection \<open>Precedence\<close>

lemma record_telemetry_keeps [simp]:
  "w_redis (record_telemetry a c w) = w_redis w" "w_store (record_telemetry a c w) = w_store w"
  "w_whitelist (record_telemetry a c w) = w_whitelist w" "w_memory (record_telemetry a c w) = w_memory w"
  by (simp_all add: record_telemetry_def)

definition blocks :: "client_group \<Rightarrow> result \<Rightarrow> bool" where
  "blocks g r \<longleftrightarrow>
     (res_verdict r = Malicious \<and> g_strict_malware g) \<or>
     (g_strict_phishing g \<and> 40 \<le> res_score r \<and> is_phishing r) \<or>
     (res_category r \<notin> {[], ''uncategorized''} \<and>
      to_lower (res_category r) \<in> (to_lower \<circ> trim_space) ` set (g_block_categories g))"

lemma enforce_blocks: "enforce g r = (if blocks g r then ''block'' else ''allow'')"
proof -
  have "list_ex (\<lambda>c. to_lower (trim_space c) = x) cs \<longleftrightarrow> x \<in> (to_lower \<circ> trim_space) ` set cs"
    "cs = [] \<Longrightarrow> x \<notin> (to_lower \<circ> trim_space) ` set cs" for x cs
    by (auto simp: list_ex_iff image_iff)
  then show ?thesis unfolding enforce_def blocks_def Let_def by auto
qed

lemma policy_precedence_lemma:
  assumes "decide_policy env s domain client w = (w', p)"
  shows "case normalize_domain domain of
      Inl _ \<Rightarrow> po_policy p = ''block'' \<and> w' = w
    | Inr n \<Rightarrow>
        let g = group_of_client env (w_store w) client in
        (case effective_override env (w_store w) (g_id g) n of
           Some o' \<Rightarrow> po_policy p = ov_action o' \<and> po_domain p = n \<and> w_redis w' = w_redis w \<and> w_memory w' = w_memory w
         | None \<Rightarrow>
             if is_allowed (rk_io env) (w_store w) (w_whitelist w) n
             then po_policy p = ''allow'' \<and> po_domain p = n \<and> w_redis w' = w_redis w \<and> w_memory w' = w_memory w
             else po_result p = fst (snd (assess env s n Cached_Only False w)) \<and>
               po_policy p = (if blocks g (po_result p) then ''block'' else ''allow''))"
proof (cases "normalize_domain domain")
  case (Inl e)
  with assms show ?thesis by (auto simp: decide_policy_def)
next
  case (Inr n)
  let ?g = "group_of_client env (w_store w) client"
  show ?thesis
  proof (cases "effective_override env (w_store w) (g_id ?g) n")
    case (Some o')
    with assms Inr show ?thesis by (auto simp: decide_policy_def Let_def)
  next
    case None
    with assms Inr show ?thesis
      by (cases "is_allowed (rk_io env) (w_store w) (w_whitelist w) n")
         (auto simp: decide_policy_def Let_def enforce_blocks split: prod.splits)
  qed
qed

text \<open>C7. The order of decisions for a client: an invalid name is blocked; otherwise the
  administrator's rule that applies to the client's group decides alone; otherwise a whitelisted name is
  allowed; in these cases neither Redis nor the OSINT cache is touched.  Only then is the threat
  assessed, and the name is blocked exactly when the verdict is malicious in a group strict on malware,
  or the score is at least 40 with phishing named in a group strict on phishing, or its category is one
  the group blocks.\<close>

theorem policy_precedence:
  assumes "decide_policy env s domain client w = (w', p)"
  shows "case normalize_domain domain of
      Inl _ \<Rightarrow> po_policy p = ''block'' \<and> w' = w
    | Inr n \<Rightarrow>
        let g = group_of_client env (w_store w) client in
        (case effective_override env (w_store w) (g_id g) n of
           Some o' \<Rightarrow> po_policy p = ov_action o' \<and> po_domain p = n \<and> w_redis w' = w_redis w \<and> w_memory w' = w_memory w
         | None \<Rightarrow>
             if is_allowed (rk_io env) (w_store w) (w_whitelist w) n
             then po_policy p = ''allow'' \<and> po_domain p = n \<and> w_redis w' = w_redis w \<and> w_memory w' = w_memory w
             else po_result p = fst (snd (assess env s n Cached_Only False w)) \<and>
               po_policy p = (if blocks g (po_result p) then ''block'' else ''allow''))"
  using assms by (rule policy_precedence_lemma)

definition toy_risk_env :: risk_env where
  "toy_risk_env = \<lparr>rk_io = no_faults, rk_to_unicode = (\<lambda>_. None), rk_tls = (\<lambda>_. (0, [])),
     rk_whois = (\<lambda>_. (0, [])), rk_ai = toy_ai_env, rk_osint = toy_osint_env, rk_sql_now = [],
     rk_encode_entry = (\<lambda>_. Inl ''down''), rk_decode_entry = (\<lambda>_. Inl ''down''),
     rk_encode_recent = (\<lambda>_. Inl ''down''), rk_decode_recent = (\<lambda>_. Inl ''down'')\<rparr>"

definition toy_service :: "toy service" where
  "toy_service = \<lparr>sv_redis = None, sv_redis_timeout = 1, sv_ttl_allowed = 1, sv_ttl_suspicious = 1,
     sv_ttl_blocked = 1, sv_recent_limit = 25, sv_feed_key = default_threat_feed_key,
     sv_feed_revision_key = revision_key default_threat_feed_key, sv_ai = None,
     sv_config = default_analysis_config, sv_enrich_enabled = False, sv_enrich_timeout = 0, sv_osint = None\<rparr>"

definition toy_world :: "toy world" where
  "toy_world = \<lparr>w_redis = [], w_store = None, w_queue = [],
     w_whitelist = Some (new_whitelist\<lparr>wl_allowed := [''a'']\<rparr>), w_memory = (\<lambda>_. None)\<rparr>"

definition toy_ci :: client_info where
  "toy_ci = \<lparr>ci_ip = [], ci_id = []\<rparr>"

theorem policy_precedence_witness:
  "po_policy (snd (decide_policy toy_risk_env toy_service ''a.'' toy_ci toy_world)) = ''allow''"
proof -
  have "is_allowed (rk_io toy_risk_env) (w_store toy_world) (w_whitelist toy_world) ''a''"
    by (simp add: toy_world_def is_allowed_def candidate_allowed_def enabled_def list_ex_iff
        bexI [OF _ parent_names_self])
  with policy_precedence [OF prod.collapse [symmetric], of toy_risk_env toy_service "''a.''" toy_ci toy_world]
  show ?thesis
    by (simp add: normalize_a effective_override_def toy_world_def enabled_def Let_def)
qed


subsection \<open>An administrator's rule\<close>

lemma normal_name_trim:
  assumes "normal_name n"
  shows "trim_space (to_lower n) = n"
proof -
  have a: "is_ascii n" "upper_free n" using assms by (simp_all add: normal_name_def)
  moreover have "list_all (\<lambda>c. \<not> ascii_space c) n"
    unfolding list_all_iff using normal_chars [OF assms] by blast
  ultimately show ?thesis by (simp add: to_lower_id trim_space_id)
qed

lemma upserted_effective:
  assumes "valid_action action" "\<forall>g' \<in> set (db_group_overrides d). go_domain g' \<noteq> n"
    "trim_space (to_lower n) = n"
  shows "\<exists>o'. get_effective_override no_faults gid n (Some (put_override_row now n action reason d)) = Inr (Some o') \<and>
    ov_action o' = action \<and> ov_reason o' = reason \<and> ov_domain o' = n"
proof -
  let ?d = "put_override_row now n action reason d"
  have "override_value ?d n = Some (action, reason)"
    using overrides.look_put [of now d n "(action, reason)" n] by (simp add: put_override_value_def)
  then obtain o' where o': "find (\<lambda>o'. ov_domain o' = n) (db_overrides ?d) = Some o'"
      "ov_action o' = action" "ov_reason o' = reason"
    by (auto simp: override_value_def)
  have "db_group_overrides ?d = db_group_overrides d" by (simp add: put_override_row_def)
  then have "find (\<lambda>g'. go_group g' = gid \<and> go_domain g' = n) (db_group_overrides ?d) = None"
    using assms(2) by (simp add: find_None_all)
  then have c: "effective_candidate no_faults gid ?d n = Inr (Some o')"
    using o' by (simp add: effective_candidate_def no_faults_def select_override_def wrap_error_def)
  have "get_effective_override no_faults gid n (Some ?d) =
      first_hit (effective_candidate no_faults gid ?d) (n # tl (parent_names n))"
    by (simp add: get_effective_override_def ask_db_def assms(3) flip: parent_names_hd)
  with c o' find_Some_key [OF o'(1)] show ?thesis by simp
qed

lemma admin_rule_lemma:
  assumes "rk_io env = no_faults" "w_store w = Some d" "\<forall>g' \<in> set (db_group_overrides d). go_domain g' \<noteq> n"
    "normalize_domain domain = Inr n" "normalize_domain other = Inr n" "normal_name n"
    "service_upsert_override env domain action reason w = (w1, Inr ())"
    "decide_policy env s other client w1 = (w2, p)"
  shows "po_policy p = action \<and> res_verdict (po_result p) = (if action = ''block'' then Malicious else Safe) \<and>
    res_score (po_result p) = (if action = ''block'' then 100 else 0)"
proof -
  have va: "valid_action action" and st: "w_store w1 = Some (put_override_row (rk_sql_now env) n action reason d)"
    using assms(1,2,4,7)
    by (auto simp: service_upsert_override_def enabled_def upsert_override_def run_db_def no_faults_def
        split: if_splits prod.splits)
  obtain o' where o': "get_effective_override no_faults (g_id (group_of_client env (w_store w1) client)) n (w_store w1)
      = Inr (Some o')" "ov_action o' = action"
    using upserted_effective [OF va assms(3) normal_name_trim [OF assms(6)]] st by metis
  have e: "effective_override env (w_store w1) (g_id (group_of_client env (w_store w1) client)) n = Some o'"
    using o'(1) st by (simp add: effective_override_def enabled_def assms(1))
  from assms(8) assms(5) e o'(2) show ?thesis
    by (auto simp: decide_policy_def Let_def override_result_def)
qed


definition ruled_world :: "toy world" where
  "ruled_world = toy_world\<lparr>w_store := Some (fresh_db [] 30 True)\<rparr>"



subsection \<open>Later stages only escalate\<close>

text \<open>The order of assessments: the same domain, and neither verdict, score nor reasons go down.\<close>

definition escalates :: "result \<Rightarrow> result \<Rightarrow> bool" where
  "escalates r r' \<longleftrightarrow> res_domain r' = res_domain r \<and> res_verdict r \<le> res_verdict r' \<and>
     res_score r \<le> res_score r' \<and> set (res_reasons r) \<subseteq> set (res_reasons r')"

lemma escalates_refl [simp]: "escalates r r"
  by (simp add: escalates_def)

lemma escalates_trans: "escalates a b \<Longrightarrow> escalates b c \<Longrightarrow> escalates a c"
  by (auto simp: escalates_def)

lemma verdict_of_mono: "a \<le> b \<Longrightarrow> verdict_of a \<le> verdict_of b"
  by (auto simp: verdict_of_def less_eq_verdict_def)

lemma enrich_escalates:
  assumes "0 \<le> fst (rk_tls env d)" "0 \<le> fst (rk_whois env d)" "res_verdict r = verdict_of (res_score r)"
  shows "escalates r (enrich_suspicious env s d r)"
proof -
  have "verdict_of (res_score r) \<le> verdict_of x" if "res_score r \<le> x" for x
    using verdict_of_mono [OF that] .
  with assms show ?thesis
    by (auto simp: escalates_def enrich_suspicious_def Let_def split: prod.splits)
qed

lemma refine_escalates: "escalates r (refine_with_ai env s r)"
proof (cases "sv_ai s = None \<or> res_verdict r \<noteq> Suspicious")
  case False
  then show ?thesis
    by (cases "ai_refine (sv_ai s) (rk_ai env) (res_domain r) r")
       (auto simp: refine_with_ai_def escalates_def)
qed (auto simp: refine_with_ai_def)

lemma osint_escalates: "escalates r (osint_apply r rep)"
  using osint_apply_mono [of r rep] by (auto simp: escalates_def osint_apply_def)

lemma apply_osint_snd: "snd (apply_osint env s d r rep frev w) = (if sv_osint s = None then r else osint_apply r rep)"
  by (auto simp: apply_osint_def osint_apply_def Let_def)

lemma apply_osint_escalates: "escalates r (snd (apply_osint env s d r rep frev w))"
  by (simp add: apply_osint_snd osint_escalates)

definition base_result :: "risk_env \<Rightarrow> 'r service \<Rightarrow> string \<Rightarrow> 'r \<Rightarrow> result" where
  "base_result env s n r =
     (if match_threat_feed s r n = Inr True then feed_result s r n
      else analyze (rk_to_unicode env) (sv_config s) n)"

lemma analyze_verdict_of:
  assumes "normalize_domain n = Inr m"
  shows "res_verdict (analyze u cfg n) = verdict_of (res_score (analyze u cfg n))"
  using assms by (simp add: analyze_def Let_def split: prod.splits)

lemma fresh_escalates:
  assumes "\<And>d. 0 \<le> fst (rk_tls env d)" "\<And>d. 0 \<le> fst (rk_whois env d)" "normalize_domain n = Inr m" "n \<noteq> []"
  shows "escalates (base_result env s n r) (fresh_result env s n r)"
proof -
  let ?b = "base_result env s n r"
  have v: "res_verdict ?b = verdict_of (res_score ?b)"
    using analyze_verdict_of [OF assms(3)]
    by (simp add: base_result_def feed_result_def verdict_of_def)
  have "fresh_result env s n r = refine_with_ai env s (enrich_suspicious env s n ?b)"
    using assms(4)
    by (auto simp: fresh_result_def base_result_def feed_result_def no_result_def Let_def
        split: sum.splits bool.splits)
  then show ?thesis
    using escalates_trans [OF enrich_escalates [OF assms(1,2) v] refine_escalates] by simp
qed

lemma assess_miss:
  assumes "normalize_domain n = Inr n" "assess env s n mode force w = (w', r, False, evs)"
  shows "\<exists>rep w1. lookup_osint env s n (fresh_result env s n (w_redis w)) mode force w = (w1, rep) \<and>
    r = snd (apply_osint env s n (fresh_result env s n (w_redis w)) rep (current_feed_revision s (w_redis w)) w1) \<and>
    w' = write_entry_cache env s n
           \<lparr>ce_result = r, ce_feed_revision = current_feed_revision s (w_redis w),
            ce_analysis_revision = analysis_revision, ce_osint_checked = []\<rparr>
           (fst (apply_osint env s n (fresh_result env s n (w_redis w)) rep (current_feed_revision s (w_redis w)) w1)) \<and>
    evs = rp_evidence rep"
  using assms by (auto simp: assess_def Let_def split: option.splits prod.splits)

text \<open>C11. No later stage can talk a threat away: a fresh assessment has at least the verdict, the score
  and the reasons of the threat feed match or lexical analysis it starts from, whatever the TLS and WHOIS
  inspections (which never score below zero), the models and the OSINT sources answer.\<close>

theorem assess_only_escalates:
  assumes "\<And>d. 0 \<le> fst (rk_tls env d)" "\<And>d. 0 \<le> fst (rk_whois env d)" "normalize_domain n = Inr n"
    "assess env s n mode force w = (w', r, False, evs)"
  shows "let b = base_result env s n (w_redis w) in
    res_domain r = res_domain b \<and> res_verdict b \<le> res_verdict r \<and> res_score b \<le> res_score r \<and>
    set (res_reasons b) \<subseteq> set (res_reasons r)"
proof -
  have "n \<noteq> []" using normalize_Inr [OF assms(3)] by simp
  then have f: "escalates (base_result env s n (w_redis w)) (fresh_result env s n (w_redis w))"
    by (rule fresh_escalates [OF assms(1,2,3)])
  obtain rep w1 where
    r: "r = snd (apply_osint env s n (fresh_result env s n (w_redis w)) rep (current_feed_revision s (w_redis w)) w1)"
    using assess_miss [OF assms(3,4)] by (elim exE conjE) (rule that)
  have "escalates (base_result env s n (w_redis w)) r"
    unfolding r by (rule escalates_trans [OF f apply_osint_escalates])
  then show ?thesis by (simp add: escalates_def Let_def)
qed

lemma toy_assess: "fst (snd (snd (assess toy_risk_env toy_service ''a'' Cached_Only False toy_world))) = False"
  by (simp add: assess_def normalize_a cached_result_def get_json_def toy_service_def Let_def split: prod.splits)

theorem assess_only_escalates_witness:
  "res_domain (fst (snd (assess toy_risk_env toy_service ''a'' Cached_Only False toy_world))) = ''a''"
proof -
  obtain w' r evs where a: "assess toy_risk_env toy_service ''a'' Cached_Only False toy_world = (w', r, False, evs)"
    using toy_assess by (metis prod.collapse)
  have z: "0 \<le> fst (rk_tls toy_risk_env d)" "0 \<le> fst (rk_whois toy_risk_env d)" for d
    by (simp_all add: toy_risk_env_def)
  have "match_threat_feed toy_service (w_redis toy_world) ''a'' \<noteq> Inr True"
  proof -
    have "match_any_candidate toy_service x cs \<noteq> Inr True" for x cs
      by (induction cs) (simp_all add: toy_service_def redis_enabled_def set_is_member_def)
    then show ?thesis by (simp add: match_threat_feed_def)
  qed
  then have "res_domain (base_result toy_risk_env toy_service ''a'' (w_redis toy_world)) = ''a''"
    by (simp add: base_result_def analyze_def normalize_a Let_def split: prod.splits)
  with assess_only_escalates [OF z normalize_a(3) a] a show ?thesis by (simp add: Let_def)
qed


subsection \<open>The assessment cache\<close>

lemma fresh_domain:
  assumes "normalize_domain n = Inr n"
  shows "res_domain (fresh_result env s n r) = n"
proof -
  have e: "res_domain (enrich_suspicious env s n x) = res_domain x" for x
    by (simp add: enrich_suspicious_def Let_def split: prod.splits)
  have a: "res_domain (refine_with_ai env s x) = res_domain x" for x
    using refine_escalates [of x env s] by (simp add: escalates_def)
  have "res_domain (analyze (rk_to_unicode env) (sv_config s) n) = n"
    using assms by (simp add: analyze_def Let_def split: prod.splits)
  then show ?thesis
    by (auto simp: fresh_result_def e a Let_def feed_result_def no_result_def split: sum.splits bool.splits)
qed

lemma fresh_ok:
  "sv_osint s = None \<Longrightarrow> lookup_osint env s n r mode force w = (w, no_report)"
  "sv_osint s = None \<Longrightarrow> apply_osint env s n r rep frev w = (w, r)"
  by (simp_all add: lookup_osint_def osint_enabled_def apply_osint_def)

definition writes_land :: "risk_env \<Rightarrow> 'r redis_client \<Rightarrow> bool" where
  "writes_land env k \<longleftrightarrow> redis_strings k \<and>
     (\<forall>key v ttl x. snd (rc_set k key v ttl x) = Inr ()) \<and>
     (\<forall>e t. rk_encode_entry env e = Inr t \<longrightarrow> rk_decode_entry env t = Inr e)"

definition made_entry :: "'r service \<Rightarrow> 'r \<Rightarrow> result \<Rightarrow> cache_entry" where
  "made_entry s x r = \<lparr>ce_result = r, ce_feed_revision = current_feed_revision s x,
     ce_analysis_revision = analysis_revision, ce_osint_checked = []\<rparr>"

lemma set_entry:
  assumes "writes_land env k" "sv_redis s = Some k" "\<not> isl (rk_encode_entry env e)"
  shows "get_json (rk_decode_entry env) (Some k) (analysis_key n) (w_redis (write_entry_cache env s n e w)) = Inr (Some e)"
    "key' \<noteq> analysis_key n \<Longrightarrow> rc_get k key' (w_redis (write_entry_cache env s n e w)) = rc_get k key' (w_redis w)"
proof -
  obtain t where t: "rk_encode_entry env e = Inr t" "rk_decode_entry env t = Inr e"
    using assms(1,3) unfolding writes_land_def isl_iff by (cases "rk_encode_entry env e") auto
  have "snd (rc_set k (analysis_key n) t (ttl_for s (res_verdict (ce_result e))) (w_redis w)) = Inr ()"
    using assms(1) by (simp add: writes_land_def)
  then have s': "set_json (rk_encode_entry env) (Some k) (analysis_key n) e (ttl_for s (res_verdict (ce_result e)))
      (w_redis w) = (w_redis (write_entry_cache env s n e w), Inr ())"
    using t by (simp add: write_entry_cache_def set_json_def assms(2) prod_eq_iff)
  have k: "redis_strings k" using assms(1) by (simp add: writes_land_def)
  show "get_json (rk_decode_entry env) (Some k) (analysis_key n) (w_redis (write_entry_cache env s n e w)) = Inr (Some e)"
    by (rule get_set_json [OF k s']) (use t in simp)
  show "key' \<noteq> analysis_key n \<Longrightarrow> rc_get k key' (w_redis (write_entry_cache env s n e w)) = rc_get k key' (w_redis w)"
    by (rule set_json_other [OF k s'])
qed

lemma assess_caches:
  assumes "sv_osint s = None" "sv_redis s = Some k" "writes_land env k" "normalize_domain n = Inr n"
    "sv_feed_revision_key s \<noteq> analysis_key n" "assess env s n mode force w = (w', r, False, evs)"
    "\<not> isl (rk_encode_entry env (made_entry s (w_redis w) r))"
  shows "get_json (rk_decode_entry env) (Some k) (analysis_key n) (w_redis w') =
      Inr (Some (made_entry s (w_redis w) r)) \<and>
    current_feed_revision s (w_redis w') = current_feed_revision s (w_redis w) \<and> res_domain r = n"
proof -
  have r: "r = fresh_result env s n (w_redis w)"
    and w': "w' = write_entry_cache env s n (made_entry s (w_redis w) r) w"
    using assess_miss [OF assms(4,6)] by (auto simp: fresh_ok [OF assms(1)] made_entry_def)
  have "rc_get k (sv_feed_revision_key s) (w_redis w') = rc_get k (sv_feed_revision_key s) (w_redis w)"
    unfolding w' using set_entry(2) [OF assms(3,2,7,5)] .
  then have "current_feed_revision s (w_redis w') = current_feed_revision s (w_redis w)"
    by (simp add: current_feed_revision_def get_string_def assms(2))
  with set_entry(1) [OF assms(3,2,7)] fresh_domain [OF assms(4)] show ?thesis by (simp add: w' r)
qed


definition cached_service :: "toy service" where
  "cached_service = toy_service\<lparr>sv_redis := Some toy_client\<rparr>"

definition made_a :: cache_entry where
  "made_a = made_entry cached_service [] (fresh_result toy_risk_env cached_service ''a'' [])"

definition codec_env :: risk_env where
  "codec_env = toy_risk_env\<lparr>rk_encode_entry := (\<lambda>e. if e = made_a then Inr ''x'' else Inl ''down''),
     rk_decode_entry := (\<lambda>_. Inr made_a)\<rparr>"

lemma codec_writes_land: "writes_land codec_env toy_client"
  using toy_strings by (auto simp: writes_land_def codec_env_def toy_client_def split: if_splits)



subsection \<open>The threat feed\<close>

text \<open>The content of the feed as a set, when its queries succeed.\<close>

definition feed_holds :: "'r service \<Rightarrow> 'r \<Rightarrow> string set \<Rightarrow> bool" where
  "feed_holds s r M \<longleftrightarrow> (\<exists>k. sv_redis s = Some k \<and>
     (\<forall>c. rc_sismember k (sv_feed_key s) c r = Inr (c \<in> M)))"

lemma match_feed:
  assumes "feed_holds s r M"
  shows "match_threat_feed s r n = Inr (\<exists>c \<in> set (parent_names n). c \<noteq> [] \<and> c \<in> M)"
proof -
  obtain k where k: "sv_redis s = Some k" "\<And>c. rc_sismember k (sv_feed_key s) c r = Inr (c \<in> M)"
    using assms by (auto simp: feed_holds_def)
  have "match_any_candidate s r cs = Inr (\<exists>c \<in> set cs. c \<in> M)" for cs
    by (induction cs) (auto simp: k redis_enabled_def set_is_member_def split: bool.split)
  then show ?thesis by (auto simp: match_threat_feed_def threat_feed_candidates_def)
qed

lemma feed_hit_fresh:
  assumes "feed_holds s r M" "\<exists>c \<in> set (parent_names n). c \<noteq> [] \<and> c \<in> M" "n \<noteq> []"
  shows "fresh_result env s n r = \<lparr>res_domain = n, res_verdict = Malicious, res_confidence = 1,
    res_score = 100, res_reasons = [threat_feed_reason], res_category = []\<rparr>"
    (is "_ = ?f")
proof -
  have "feed_result s r n = ?f" using match_feed [OF assms(1), of n] assms(2) by (simp add: feed_result_def)
  moreover have "enrich_suspicious env s n ?f = ?f" by (simp add: enrich_suspicious_def)
  moreover have "refine_with_ai env s ?f = ?f" by (simp add: refine_with_ai_def)
  ultimately show ?thesis using assms(3) by (simp add: fresh_result_def Let_def)
qed

lemma feed_reason_not_phishing: "\<not> contains (to_lower threat_feed_reason) ''phishing''"
  by code_simp


definition feed_client :: "toy redis_client" where
  "feed_client = toy_client\<lparr>rc_sismember := (\<lambda>key m s. Inr (m \<in> {''a''}))\<rparr>"

definition feed_service :: "toy service" where
  "feed_service = toy_service\<lparr>sv_redis := Some feed_client\<rparr>"

definition bare_world :: "toy world" where
  "bare_world = toy_world\<lparr>w_whitelist := None\<rparr>"


subsection \<open>The clean list at start\<close>

lemma load_missing_file:
  assumes "path \<noteq> []" "read_file_within (os_cwd os) (os_open os) (feed_file_root os) path = Inl e"
  shows "load_from_file os io path st w = ((st, w), Inl e)"
  using assms by (simp add: load_from_file_def)

text \<open>A service started with a whitelist path whose file cannot be read starts with no clean list at
  all: the error is dropped and, since the path is set, the table of the database is not loaded either,
  so no name is allowed, however many the table holds.\<close>

lemma missing_whitelist_file_disables_table:
  assumes "ro_whitelist_path options \<noteq> []" "enabled (ro_store options)"
    "isl (read_file_within (os_cwd os) (os_open os) (feed_file_root os) (ro_whitelist_path options))"
  shows "\<exists>s wl. new_service os io options = (s, ro_store options, wl) \<and>
    \<not> is_allowed io' (ro_store options) (Some wl) n"
proof -
  obtain e where "read_file_within (os_cwd os) (os_open os) (feed_file_root os) (ro_whitelist_path options) = Inl e"
    using assms(3) by (auto simp: isl_iff)
  from load_missing_file [OF assms(1) this]
  have "load_from_file os io (ro_whitelist_path options) (ro_store options) new_whitelist
      = ((ro_store options, new_whitelist), Inl e)" .
  moreover have "\<not> is_allowed io' (ro_store options) (Some new_whitelist) n"
    using assms(2) by (auto simp: is_allowed_def candidate_allowed_def new_whitelist_def list_ex_iff)
  ultimately show ?thesis using assms(1) by (simp add: new_service_def Let_def)
qed

definition bare_os :: os_env where
  "bare_os = \<lparr>getenv = (\<lambda>_. []), os_cwd = ''/srv'', os_open = (\<lambda>_ _. Inl ''no such file'')\<rparr>"

definition default_options :: "toy risk_options" where
  "default_options = options_from_env bare_os no_faults [] listed_db (\<lambda>_ _ _. toy_client) (\<lambda>_. Inl [])"

lemma missing_whitelist_file_disables_table_witness:
  "\<not> is_allowed no_faults (ro_store (default_options\<lparr>ro_store := Some listed_db\<rparr>)) (Some (snd (snd
     (new_service bare_os no_faults (default_options\<lparr>ro_store := Some listed_db\<rparr>))))) ''a.x.vn''"
proof -
  let ?o = "default_options\<lparr>ro_store := Some listed_db\<rparr>"
  have w: "ro_whitelist_path ?o = ''./data/whitelist.txt''"
    by (simp add: default_options_def options_from_env_def Let_def env_string_def bare_os_def)
  have "isl (read_file_within (os_cwd bare_os) (os_open bare_os) (feed_file_root bare_os) (ro_whitelist_path ?o))"
    by (simp add: read_file_within_def bare_os_def split: sum.splits)
  moreover have "enabled (ro_store ?o)" by (simp add: enabled_def)
  ultimately show ?thesis
    using missing_whitelist_file_disables_table [of ?o bare_os no_faults no_faults "''a.x.vn''"] w by auto
qed

end
