(* ===== verification/Rate_Limit.thy ===== *)
theory Rate_Limit
  imports Go_Net Complex_Main "HOL-Library.AList"
begin

text \<open>
  \<^verbatim>\<open>internal/ratelimit\<close>: token buckets per key, and the middleware that applies them to requests.
  The clock is an argument, in nanoseconds; tokens and rates are reals.  The bucket map is an
  association list.  A nil \<^verbatim>\<open>*Limiter\<close> is \<^term>\<open>None\<close>.
\<close>

subsection \<open>limiter.go\<close>

record bucket =
  bk_tokens :: real
  bk_last :: int

record limiter =
  lm_buckets :: "(string \<times> bucket) list"
  lm_rate :: real
  lm_burst :: int
  lm_closed :: bool

definition new_limiter :: "real \<Rightarrow> int \<Rightarrow> limiter" where
  "new_limiter ratePerMinute burst =
     \<lparr>lm_buckets = [], lm_rate = ratePerMinute / 60, lm_burst = burst, lm_closed = False\<rparr>"

definition seconds :: "int \<Rightarrow> real" where
  "seconds ns = of_int ns / 1000000000"

text \<open>Refilling a bucket at a time.\<close>

definition refill :: "real \<Rightarrow> int \<Rightarrow> int \<Rightarrow> bucket \<Rightarrow> real" where
  "refill rate burst now b =
     (let tokens = bk_tokens b + seconds (now - bk_last b) * rate in
      if of_int burst < tokens then of_int burst else tokens)"

definition bucket_of :: "limiter \<Rightarrow> int \<Rightarrow> string \<Rightarrow> bucket" where
  "bucket_of l now key =
     (case map_of (lm_buckets l) key of
        None \<Rightarrow> \<lparr>bk_tokens = of_int (lm_burst l), bk_last = now\<rparr>
      | Some b \<Rightarrow> b)"

definition limiter_allow :: "int \<Rightarrow> string \<Rightarrow> limiter \<Rightarrow> limiter \<times> bool" where
  "limiter_allow now key l =
     (if lm_rate l \<le> 0 then (l, True)
      else
        let tokens = refill (lm_rate l) (lm_burst l) now (bucket_of l now key) in
        if tokens < 1
        then (l\<lparr>lm_buckets := AList.update key \<lparr>bk_tokens = tokens, bk_last = now\<rparr> (lm_buckets l)\<rparr>, False)
        else (l\<lparr>lm_buckets := AList.update key \<lparr>bk_tokens = tokens - 1, bk_last = now\<rparr> (lm_buckets l)\<rparr>, True))"

definition seconds_until_next :: "string \<Rightarrow> limiter \<Rightarrow> real" where
  "seconds_until_next key l =
     (if lm_rate l \<le> 0 then 0
      else (case map_of (lm_buckets l) key of
          None \<Rightarrow> 0
        | Some b \<Rightarrow> if 1 \<le> bk_tokens b then 0 else (1 - bk_tokens b) / lm_rate l))"

definition limiter_close :: "limiter \<Rightarrow> limiter" where
  "limiter_close l = l\<lparr>lm_closed := True\<rparr>"

definition idle_threshold :: int where
  "idle_threshold = 600 * 1000000000"

definition limiter_cleanup :: "int \<Rightarrow> limiter \<Rightarrow> limiter" where
  "limiter_cleanup now l =
     l\<lparr>lm_buckets := filter (\<lambda>p. \<not> bk_last (snd p) < now - idle_threshold) (lm_buckets l)\<rparr>"

definition limiter_len :: "limiter \<Rightarrow> nat" where
  "limiter_len l = length (lm_buckets l)"

subsection \<open>middleware.go\<close>

record request =
  rq_path :: string
  rq_forwarded :: string
  rq_real_ip :: string
  rq_remote :: string

record tier =
  ti_prefix :: string
  ti_limiter :: "limiter option"

record tiered =
  tm_tiers :: "tier list"
  tm_fallback :: "limiter option"

definition client_ip :: "request \<Rightarrow> string" where
  "client_ip r =
     (let first = trim_space (fst (cut CHR '','' (rq_forwarded r))); real_ip = trim_space (rq_real_ip r) in
      if first \<noteq> [] then first
      else if real_ip \<noteq> [] then real_ip
      else (case split_host_port (rq_remote r) of None \<Rightarrow> rq_remote r | Some (h, _) \<Rightarrow> h))"

definition sanitize_log :: "string \<Rightarrow> string" where
  "sanitize_log s = encode_runes (filter (\<lambda>r. \<not> (r < 32 \<or> r = 127)) (runes s))"

datatype http_outcome = Passed | Too_Many int

definition allow_option :: "int \<Rightarrow> string \<Rightarrow> limiter option \<Rightarrow> limiter option \<times> bool" where
  "allow_option now key ol =
     (case ol of None \<Rightarrow> (None, True) | Some l \<Rightarrow> (case limiter_allow now key l of (l', ok) \<Rightarrow> (Some l', ok)))"

definition until_option :: "string \<Rightarrow> limiter option \<Rightarrow> real" where
  "until_option key ol = (case ol of None \<Rightarrow> 0 | Some l \<Rightarrow> seconds_until_next key l)"

text \<open>One request through a limiter: the limiter after it and whether the next handler runs, or the
  value of \<^verbatim>\<open>Retry-After\<close>.\<close>

definition limit_request :: "int \<Rightarrow> string \<Rightarrow> limiter option \<Rightarrow> limiter option \<times> http_outcome" where
  "limit_request now ip ol =
     (case allow_option now ip ol of
        (ol', True) \<Rightarrow> (ol', Passed)
      | (ol', False) \<Rightarrow>
          let secs = \<lceil>until_option ip ol'\<rceil> in (ol', Too_Many (if secs < 1 then 1 else secs)))"

text \<open>\<^verbatim>\<open>limiterFor\<close> is a pointer; the model carries the limiter back to its tier.\<close>

fun wrap_tiers :: "int \<Rightarrow> string \<Rightarrow> string \<Rightarrow> tier list \<Rightarrow> (tier list \<times> http_outcome) option" where
  "wrap_tiers now ip path [] = None"
| "wrap_tiers now ip path (t # ts) =
     (if has_prefix path (ti_prefix t)
      then (case limit_request now ip (ti_limiter t) of (ol, r) \<Rightarrow> Some (t\<lparr>ti_limiter := ol\<rparr> # ts, r))
      else map_option (\<lambda>(ts', r). (t # ts', r)) (wrap_tiers now ip path ts))"

definition wrap_request :: "int \<Rightarrow> request \<Rightarrow> tiered \<Rightarrow> tiered \<times> http_outcome" where
  "wrap_request now r tm =
     (case wrap_tiers now (client_ip r) (rq_path r) (tm_tiers tm) of
        Some (ts, res) \<Rightarrow> (tm\<lparr>tm_tiers := ts\<rparr>, res)
      | None \<Rightarrow> (case limit_request now (client_ip r) (tm_fallback tm) of
          (ol, res) \<Rightarrow> (tm\<lparr>tm_fallback := ol\<rparr>, res)))"

definition limiter_for :: "tiered \<Rightarrow> string \<Rightarrow> limiter option" where
  "limiter_for tm path =
     (case find (\<lambda>t. has_prefix path (ti_prefix t)) (tm_tiers tm) of
        None \<Rightarrow> tm_fallback tm
      | Some t \<Rightarrow> ti_limiter t)"

definition single_middleware :: "limiter option \<Rightarrow> tiered" where
  "single_middleware ol = \<lparr>tm_tiers = [], tm_fallback = ol\<rparr>"

subsection \<open>The bound\<close>

text \<open>The tokens a key could use at a time: what it holds, refilled, or a full bucket.\<close>

definition available :: "limiter \<Rightarrow> string \<Rightarrow> int \<Rightarrow> real" where
  "available l key now = refill (lm_rate l) (lm_burst l) now (bucket_of l now key)"

definition limiter_ok :: "limiter \<Rightarrow> int \<Rightarrow> bool" where
  "limiter_ok l now \<longleftrightarrow> 0 < lm_rate l \<and> distinct (map fst (lm_buckets l)) \<and>
     (\<forall>p \<in> set (lm_buckets l). 0 \<le> bk_tokens (snd p) \<and> bk_last (snd p) \<le> now)"

datatype limiter_event = Ask int string | Sweep int

fun event_time :: "limiter_event \<Rightarrow> int" where
  "event_time (Ask t _) = t"
| "event_time (Sweep t) = t"

fun limiter_step :: "limiter_event \<Rightarrow> limiter \<Rightarrow> limiter" where
  "limiter_step (Ask t k) l = fst (limiter_allow t k l)"
| "limiter_step (Sweep t) l = limiter_cleanup t l"

fun granted :: "string \<Rightarrow> limiter_event list \<Rightarrow> limiter \<Rightarrow> nat" where
  "granted key [] l = 0"
| "granted key (ev # evs) l =
     (case ev of Ask t k \<Rightarrow> if k = key \<and> snd (limiter_allow t k l) then 1 else 0 | Sweep _ \<Rightarrow> 0) +
     granted key evs (limiter_step ev l)"

lemma map_of_filter_snd:
  "distinct (map fst xs) \<Longrightarrow>
     map_of (filter (\<lambda>p. P (snd p)) xs) k = (case map_of xs k of None \<Rightarrow> None | Some v \<Rightarrow> if P v then Some v else None)"
proof (induction xs)
  case (Cons p xs)
  have "map_of xs (fst p) = None" using Cons.prems by (simp add: map_of_eq_None_iff)
  with Cons show ?case by (cases p) (auto split: option.splits)
qed simp

lemma seconds_add: "seconds (a + b) = seconds a + seconds b"
  by (simp add: seconds_def add_divide_distrib)

lemma seconds_mono: "a \<le> b \<Longrightarrow> seconds a \<le> seconds b"
  by (simp add: seconds_def divide_right_mono)

lemma seconds_0 [simp]: "seconds 0 = 0"
  by (simp add: seconds_def)

lemma limiter_allow_fields [simp]:
  "lm_rate (fst (limiter_allow t k l)) = lm_rate l" "lm_burst (fst (limiter_allow t k l)) = lm_burst l"
  by (simp_all add: limiter_allow_def Let_def)

lemma cleanup_fields [simp]:
  "lm_rate (limiter_cleanup t l) = lm_rate l" "lm_burst (limiter_cleanup t l) = lm_burst l"
  by (simp_all add: limiter_cleanup_def)

text \<open>Time adds at most the rate.\<close>

lemma available_later:
  assumes "0 < lm_rate l" "t \<le> t'"
  shows "available l key t' \<le> available l key t + seconds (t' - t) * lm_rate l"
proof (cases "map_of (lm_buckets l) key")
  case None
  then have "available l key x = of_int (lm_burst l)" for x
    by (simp add: available_def refill_def bucket_of_def Let_def)
  moreover have "0 \<le> seconds (t' - t) * lm_rate l"
    using assms by (simp add: seconds_def)
  ultimately show ?thesis by simp
next
  case (Some b)
  have "seconds (t' - bk_last b) = seconds (t - bk_last b) + seconds (t' - t)"
    using seconds_add [of "t - bk_last b" "t' - t"] by simp
  then have "seconds (t' - bk_last b) * lm_rate l = seconds (t - bk_last b) * lm_rate l + seconds (t' - t) * lm_rate l"
    by (simp add: algebra_simps)
  moreover have "0 \<le> seconds (t' - t) * lm_rate l"
    using assms by (simp add: seconds_def)
  ultimately show ?thesis
    by (auto simp: available_def refill_def bucket_of_def Some Let_def)
qed

lemma available_le_burst: "available l k t \<le> of_int (lm_burst l)"
  by (simp add: available_def refill_def Let_def)

definition spent :: "limiter \<Rightarrow> int \<Rightarrow> string \<Rightarrow> limiter" where
  "spent l t k = l\<lparr>lm_buckets := AList.update k
     \<lparr>bk_tokens = (if available l k t < 1 then available l k t else available l k t - 1), bk_last = t\<rparr>
     (lm_buckets l)\<rparr>"

lemma limiter_allow_spent:
  "0 < lm_rate l \<Longrightarrow> limiter_allow t k l = (spent l t k, 1 \<le> available l k t)"
  by (auto simp: limiter_allow_def spent_def available_def Let_def)

lemma spent_fields [simp]: "lm_rate (spent l t k) = lm_rate l" "lm_burst (spent l t k) = lm_burst l"
  by (simp_all add: spent_def)

lemma available_spent_same:
  "available (spent l t k) k t = (if available l k t < 1 then available l k t else available l k t - 1)"
proof -
  have "bucket_of (spent l t k) t k =
      \<lparr>bk_tokens = (if available l k t < 1 then available l k t else available l k t - 1), bk_last = t\<rparr>"
    by (simp add: bucket_of_def spent_def update_conv)
  then show ?thesis
    using available_le_burst [of l k t] by (simp add: available_def [of "spent l t k"] refill_def Let_def)
qed

lemma available_spent_other: "k \<noteq> key \<Longrightarrow> available (spent l t k) key t' = available l key t'"
proof -
  assume "k \<noteq> key"
  then have "bucket_of (spent l t k) t' key = bucket_of l t' key"
    by (simp add: bucket_of_def spent_def update_conv split: option.split)
  then show ?thesis by (simp add: available_def)
qed

lemma available_allow:
  assumes "0 < lm_rate l"
  shows "available (fst (limiter_allow t k l)) key t =
    available l key t - (if k = key \<and> snd (limiter_allow t k l) then 1 else 0)"
  using assms by (cases "k = key")
    (simp_all add: limiter_allow_spent available_spent_same available_spent_other)

text \<open>A sweep drops a bucket only after it had the time to fill up.\<close>

lemma available_cleanup:
  assumes "limiter_ok l t" "of_int (lm_burst l) \<le> lm_rate l * 600"
  shows "available (limiter_cleanup t l) key t = available l key t"
proof -
  have m: "map_of (lm_buckets (limiter_cleanup t l)) key =
      (case map_of (lm_buckets l) key of None \<Rightarrow> None
       | Some b \<Rightarrow> if \<not> bk_last b < t - idle_threshold then Some b else None)"
    using assms(1) map_of_filter_snd [of "lm_buckets l" "\<lambda>b. \<not> bk_last b < t - idle_threshold" key]
    by (simp add: limiter_cleanup_def limiter_ok_def)
  show ?thesis
  proof (cases "map_of (lm_buckets l) key")
    case None
    then show ?thesis by (simp add: available_def bucket_of_def m)
  next
    case (Some b)
    show ?thesis
    proof (cases "bk_last b < t - idle_threshold")
      case True
      have "0 \<le> bk_tokens b" using assms(1) Some by (force simp: limiter_ok_def dest: map_of_SomeD)
      moreover have "600 \<le> seconds (t - bk_last b)"
        using True seconds_mono [of idle_threshold "t - bk_last b"] by (simp add: idle_threshold_def seconds_def)
      then have "lm_rate l * 600 \<le> seconds (t - bk_last b) * lm_rate l"
        using assms(1) by (simp add: limiter_ok_def mult.commute mult_left_mono)
      ultimately show ?thesis using True Some assms(2)
        by (simp add: available_def bucket_of_def m refill_def Let_def)
    next
      case False
      then show ?thesis using Some by (simp add: available_def bucket_of_def m)
    qed
  qed
qed

lemma limiter_ok_step:
  assumes "limiter_ok l t0" "t0 \<le> event_time ev" "1 \<le> lm_burst l"
  shows "limiter_ok (limiter_step ev l) (event_time ev)"
proof (cases ev)
  case (Ask t k)
  have pos: "0 < lm_rate l" using assms(1) by (simp add: limiter_ok_def)
  have a: "0 \<le> available l k t"
  proof (cases "map_of (lm_buckets l) k")
    case None
    then show ?thesis using assms(3) by (simp add: available_def bucket_of_def refill_def Let_def)
  next
    case (Some b)
    then have b: "0 \<le> bk_tokens b" "bk_last b \<le> t0"
      using assms(1) by (force simp: limiter_ok_def dest: map_of_SomeD)+
    then have "0 \<le> seconds (t - bk_last b) * lm_rate l"
      using pos assms(2) Ask by (simp add: seconds_def)
    with b Some assms(3) show ?thesis by (simp add: available_def bucket_of_def refill_def Let_def)
  qed
  have "set (AList.update k v xs) \<subseteq> insert (k, v) (set xs)" for v :: bucket and xs
    by (induction xs) auto
  then have "\<forall>p \<in> set (lm_buckets (spent l t k)). 0 \<le> bk_tokens (snd p) \<and> bk_last (snd p) \<le> t"
    using assms(1,2) a Ask by (fastforce simp: spent_def limiter_ok_def)
  then show ?thesis using assms(1) Ask pos
    by (simp add: limiter_ok_def limiter_allow_spent) (simp add: spent_def distinct_update)
next
  case (Sweep t)
  then show ?thesis using assms
    by (auto simp: limiter_ok_def limiter_cleanup_def distinct_map_filter)
qed

lemma available_nonneg:
  assumes "limiter_ok l t0" "1 \<le> lm_burst l"
  shows "0 \<le> available l key t0"
proof (cases "map_of (lm_buckets l) key")
  case None
  then show ?thesis using assms(2) by (simp add: available_def bucket_of_def refill_def seconds_def)
next
  case (Some b)
  then have "(key, b) \<in> set (lm_buckets l)" by (rule map_of_SomeD)
  then have "0 \<le> bk_tokens b" "bk_last b \<le> t0" "0 < lm_rate l"
    using assms(1) by (force simp: limiter_ok_def)+
  then have "0 \<le> bk_tokens b + seconds (t0 - bk_last b) * lm_rate l" by (simp add: seconds_def)
  then show ?thesis using Some assms(2) by (simp add: available_def bucket_of_def refill_def Let_def)
qed

lemma granted_bound:
  assumes "limiter_ok l t0" "1 \<le> lm_burst l" "of_int (lm_burst l) \<le> lm_rate l * 600"
    "sorted (map event_time evs)" "list_all (\<lambda>ev. t0 \<le> event_time ev \<and> event_time ev \<le> t1) evs" "t0 \<le> t1"
  shows "of_nat (granted key evs l) \<le> available l key t0 + seconds (t1 - t0) * lm_rate l"
  using assms
proof (induction evs arbitrary: l t0)
  case Nil
  then have "0 \<le> seconds (t1 - t0) * lm_rate l" by (simp add: limiter_ok_def seconds_def)
  moreover have "0 \<le> available l key t0" using available_nonneg [OF Nil(1,2)] .
  ultimately show ?case by simp
next
  case (Cons ev evs)
  let ?t = "event_time ev" and ?l = "limiter_step ev l"
  have pos: "0 < lm_rate l" using Cons.prems(1) by (simp add: limiter_ok_def)
  have f: "lm_rate ?l = lm_rate l" "lm_burst ?l = lm_burst l" by (cases ev; simp)+
  have le: "t0 \<le> ?t" "?t \<le> t1" using Cons.prems(5) by simp_all
  have ok: "limiter_ok ?l ?t" using limiter_ok_step [OF Cons.prems(1) le(1) Cons.prems(2)] .
  have "of_nat (granted key evs ?l) \<le> available ?l key ?t + seconds (t1 - ?t) * lm_rate l"
    using Cons.IH [OF ok] Cons.prems le f by (auto simp: list_all_iff)
  moreover have "available ?l key ?t =
      available l key ?t - (case ev of Ask t k \<Rightarrow> if k = key \<and> snd (limiter_allow t k l) then 1 else 0 | Sweep _ \<Rightarrow> 0)"
  proof (cases ev)
    case (Ask t k)
    then show ?thesis using available_allow [OF pos, of t k key] by simp
  next
    case (Sweep t)
    have "limiter_ok l t" using Cons.prems(1) le(1) Sweep by (force simp: limiter_ok_def)
    then show ?thesis using available_cleanup [of l t key] Cons.prems(3) Sweep by simp
  qed
  moreover have "available l key ?t \<le> available l key t0 + seconds (?t - t0) * lm_rate l"
    using available_later [OF pos le(1)] .
  moreover have "seconds (t1 - t0) * lm_rate l = seconds (?t - t0) * lm_rate l + seconds (t1 - ?t) * lm_rate l"
    using seconds_add [of "?t - t0" "t1 - ?t"] by (simp add: algebra_simps)
  ultimately show ?case by (cases ev) (auto split: if_splits)
qed


lemma limiter_ok_new: "0 < r \<Longrightarrow> limiter_ok (new_limiter r b) t"
  by (simp add: limiter_ok_def new_limiter_def)



lemma denied_state:
  assumes "0 < lm_rate l" "limiter_allow t k l = (l', False)"
  shows "available l k t < 1" "lm_rate l' = lm_rate l" "lm_burst l' = lm_burst l"
    "map_of (lm_buckets l') k = Some \<lparr>bk_tokens = available l k t, bk_last = t\<rparr>"
proof -
  have l': "l' = spent l t k" and a: "available l k t < 1"
    using assms by (auto simp: limiter_allow_spent)
  show "available l k t < 1" by (rule a)
  show "lm_rate l' = lm_rate l" "lm_burst l' = lm_burst l" by (simp_all add: l')
  show "map_of (lm_buckets l') k = Some \<lparr>bk_tokens = available l k t, bk_last = t\<rparr>"
    using a by (simp add: l' spent_def update_conv)
qed

lemma retry_exact:
  assumes "0 < lm_rate l" "1 \<le> lm_burst l" "limiter_allow t k l = (l', False)"
  shows "snd (limiter_allow t' k l') \<longleftrightarrow> seconds_until_next k l' \<le> seconds (t' - t)"
proof -
  note d = denied_state [OF assms(1,3)]
  have "seconds_until_next k l' = (1 - available l k t) / lm_rate l"
    using d assms(1) by (simp add: seconds_until_next_def)
  then have "seconds_until_next k l' \<le> seconds (t' - t) \<longleftrightarrow>
      1 \<le> available l k t + seconds (t' - t) * lm_rate l"
    using assms(1) by (simp add: divide_le_eq algebra_simps)
  moreover have "available l' k t' = (let x = available l k t + seconds (t' - t) * lm_rate l in
      if of_int (lm_burst l) < x then of_int (lm_burst l) else x)"
    using d by (simp add: available_def [of l'] refill_def bucket_of_def)
  moreover have "snd (limiter_allow t' k l') \<longleftrightarrow> 1 \<le> available l' k t'"
    using d(2) assms(1) by (simp add: limiter_allow_spent)
  ultimately show ?thesis using assms(2) by (auto simp: Let_def)
qed

text \<open>\<^verbatim>\<open>Retry-After\<close> is honest: a client that is refused is told at least one second, and when it
  asks again after that many seconds, with no request of its own in between, it is served; sooner than the
  bucket's own waiting time it is refused again.\<close>

lemma retry_after_honest:
  assumes "0 < lm_rate l" "1 \<le> lm_burst l" "limit_request t ip (Some l) = (ol, Too_Many secs)"
  shows "1 \<le> secs \<and>
    (t + secs * 1000000000 \<le> t' \<longrightarrow> snd (limit_request t' ip ol) = Passed) \<and>
    (seconds (t' - t) < until_option ip ol \<longrightarrow> snd (limit_request t' ip ol) \<noteq> Passed)"
proof -
  obtain l' where l': "limiter_allow t ip l = (l', False)" "ol = Some l'"
    "secs = (if \<lceil>until_option ip (Some l')\<rceil> < 1 then 1 else \<lceil>until_option ip (Some l')\<rceil>)"
    using assms(3) by (auto simp: limit_request_def allow_option_def Let_def split: prod.splits bool.splits)
  have p: "snd (limit_request t' ip ol) = Passed \<longleftrightarrow> snd (limiter_allow t' ip l')"
    by (simp add: limit_request_def allow_option_def l'(2) Let_def split: prod.splits bool.splits)
  note e = retry_exact [OF assms(1,2) l'(1), of t']
  have "seconds_until_next ip l' \<le> of_int secs"
    using le_of_int_ceiling [of "seconds_until_next ip l'"] by (simp add: l'(3) until_option_def)
  moreover have "of_int secs \<le> seconds (t' - t)" if "t + secs * 1000000000 \<le> t'"
    using seconds_mono [of "secs * 1000000000" "t' - t"] that by (simp add: seconds_def)
  ultimately have "t + secs * 1000000000 \<le> t' \<longrightarrow> snd (limiter_allow t' ip l')"
    using e by linarith
  moreover have "1 \<le> secs" by (simp add: l'(3))
  ultimately show ?thesis using p e by (auto simp: until_option_def l'(2))
qed

definition empty_limiter :: limiter where
  "empty_limiter = (new_limiter 60 1)\<lparr>lm_buckets := [(''k'', \<lparr>bk_tokens = 0, bk_last = 0\<rparr>)]\<rparr>"

lemma empty_refuses: "limit_request 0 ''k'' (Some empty_limiter) = (Some empty_limiter, Too_Many 1)"
  by (simp add: limit_request_def allow_option_def limiter_allow_def empty_limiter_def new_limiter_def
      bucket_of_def refill_def until_option_def seconds_until_next_def)

lemma retry_after_honest_witness:
  "snd (limit_request 1000000000 ''k'' (Some empty_limiter)) = Passed"
  using retry_after_honest [OF _ _ empty_refuses, of 1000000000] by (simp add: empty_limiter_def new_limiter_def)

subsection \<open>The key of a client\<close>

fun run_requests :: "int \<Rightarrow> request list \<Rightarrow> tiered \<Rightarrow> http_outcome list" where
  "run_requests now [] tm = []"
| "run_requests now (r # rs) tm = (case wrap_request now r tm of (tm', res) \<Rightarrow> res # run_requests now rs tm')"

definition forged :: "string \<Rightarrow> nat \<Rightarrow> request" where
  "forged remote i = \<lparr>rq_path = ''/'', rq_forwarded = replicate (Suc i) CHR ''x'', rq_real_ip = [], rq_remote = remote\<rparr>"

lemma client_ip_forged: "client_ip (forged remote i) = replicate (Suc i) CHR ''x''"
proof -
  let ?x = "replicate (Suc i) CHR ''x''"
  have "is_ascii ?x" "list_all (\<lambda>c. \<not> ascii_space c) ?x"
    by (simp_all add: is_ascii_def list_all_iff byte_of_def ascii_space_def)
  then have "trim_space ?x = ?x" by (rule trim_space_id)
  moreover have "cut CHR '','' ?x = (?x, None)" by (rule cut_None) auto
  ultimately show ?thesis by (simp add: client_ip_def forged_def Let_def)
qed

lemma fresh_key_allowed:
  assumes "0 < lm_rate l" "1 \<le> lm_burst l" "k \<notin> fst ` set (lm_buckets l)"
  shows "\<exists>v. limiter_allow t k l = (l\<lparr>lm_buckets := AList.update k v (lm_buckets l)\<rparr>, True)"
proof -
  have "map_of (lm_buckets l) k = None" using assms(3) by (simp add: map_of_eq_None_iff)
  then have "1 \<le> available l k t" using assms(2) by (simp add: available_def bucket_of_def refill_def)
  then show ?thesis using assms(1) unfolding limiter_allow_spent [OF assms(1)] spent_def by auto
qed

lemma forged_pass:
  assumes "0 < lm_rate l" "1 \<le> lm_burst l" "fst ` set (lm_buckets l) \<inter> (\<lambda>i. replicate (Suc i) CHR ''x'') ` {j..} = {}"
  shows "run_requests t (map (forged remote) [j..<j + n]) (single_middleware (Some l)) = replicate n Passed"
  using assms
proof (induction n arbitrary: j l)
  case (Suc n)
  let ?k = "replicate (Suc j) CHR ''x''"
  have "?k \<notin> fst ` set (lm_buckets l)" using Suc.prems(3) by blast
  then obtain v where v: "limiter_allow t ?k l = (l\<lparr>lm_buckets := AList.update ?k v (lm_buckets l)\<rparr>, True)"
    using fresh_key_allowed [OF Suc.prems(1,2)] by blast
  let ?l = "l\<lparr>lm_buckets := AList.update ?k v (lm_buckets l)\<rparr>"
  have "fst ` set (AList.update ?k v (lm_buckets l)) = insert ?k (fst ` set (lm_buckets l))"
    by (simp add: dom_update)
  moreover have "?k \<notin> (\<lambda>i. replicate (Suc i) CHR ''x'') ` {Suc j..}"
    by (auto dest: arg_cong [where f = length])
  ultimately have "fst ` set (lm_buckets ?l) \<inter> (\<lambda>i. replicate (Suc i) CHR ''x'') ` {Suc j..} = {}"
    using Suc.prems(3) by force
  from Suc.IH [of ?l "Suc j", OF _ _ this] Suc.prems
  have "run_requests t (map (forged remote) [Suc j..<Suc j + n]) (single_middleware (Some ?l)) = replicate n Passed"
    by simp
  moreover have "wrap_request t (forged remote j) (single_middleware (Some l)) = (single_middleware (Some ?l), Passed)"
    unfolding wrap_request_def client_ip_forged
    by (simp add: single_middleware_def limit_request_def allow_option_def v del: replicate_Suc)
  ultimately show ?case by (simp add: upt_conv_Cons del: replicate_Suc upt_Suc)
     (simp add: replicate_Suc)
qed simp

text \<open>The limit does not bind a client that chooses its key: the key is taken from the header
  \<^verbatim>\<open>X-Forwarded-For\<close>, so any number of requests from one address, at one instant and with a different
  value of the header each, all pass.\<close>

lemma forwarded_header_evades_limit:
  assumes "0 < r" "1 \<le> b"
  shows "run_requests t (map (forged remote) [0..<n]) (single_middleware (Some (new_limiter r b))) = replicate n Passed"
  using forged_pass [of "new_limiter r b" 0 t remote n] assms by (simp add: new_limiter_def)

lemma forwarded_header_evades_limit_witness:
  "run_requests 0 (map (forged ''1.2.3.4:5'') [0..<1000]) (single_middleware (Some (new_limiter 5 1))) = replicate 1000 Passed"
  using forwarded_header_evades_limit [of 5 1] by simp

end
