(* ===== verification/Auth.thy ===== *)
theory Auth
  imports Go_Strings
begin

text \<open>
  \<^verbatim>\<open>internal/auth/auth.go\<close>: signed session cookies.  HMAC-SHA256 and the JSON codec of the claims
  are the record \<open>auth_env\<close> with the clock in nanoseconds; unpadded URL-safe base64 is modelled, with
  the decoder's tolerance for line breaks and left-over bits.
\<close>

subsection \<open>\<^verbatim>\<open>base64.RawURLEncoding\<close>\<close>

definition alphabet :: string where
  "alphabet = ''ABCDEFGHIJKLMNOPQRSTUVWXYZabcdefghijklmnopqrstuvwxyz0123456789-_''"

definition digit64 :: "nat \<Rightarrow> char" where
  "digit64 n = alphabet ! n"

definition value64 :: "char \<Rightarrow> nat option" where
  "value64 c = map_option fst (find (\<lambda>p. snd p = c) (enumerate 0 alphabet))"

definition code_of :: "char \<Rightarrow> nat" where
  "code_of c = of_char c"

fun encode64 :: "string \<Rightarrow> string" where
  "encode64 [] = []"
| "encode64 [a] = [digit64 (code_of a div 4), digit64 (code_of a mod 4 * 16)]"
| "encode64 [a, b] =
     [digit64 (code_of a div 4), digit64 (code_of a mod 4 * 16 + code_of b div 16),
      digit64 (code_of b mod 16 * 4)]"
| "encode64 (a # b # c # s) =
     [digit64 (code_of a div 4), digit64 (code_of a mod 4 * 16 + code_of b div 16),
      digit64 (code_of b mod 16 * 4 + code_of c div 64), digit64 (code_of c mod 64)] @ encode64 s"

fun decode_values :: "nat list \<Rightarrow> string option" where
  "decode_values [] = Some []"
| "decode_values [v] = None"
| "decode_values [v, w] = Some [char_of (v * 4 + w div 16)]"
| "decode_values [v, w, x] = Some [char_of (v * 4 + w div 16), char_of (w mod 16 * 16 + x div 4)]"
| "decode_values (v # w # x # y # s) =
     map_option ((@) [char_of (v * 4 + w div 16), char_of (w mod 16 * 16 + x div 4), char_of (x mod 4 * 64 + y)])
       (decode_values s)"

definition decode64 :: "string \<Rightarrow> string option" where
  "decode64 s =
     (let vs = map value64 (filter (\<lambda>c. code_of c \<noteq> 10 \<and> code_of c \<noteq> 13) s) in
      if list_ex (\<lambda>v. v = None) vs then None else decode_values (map the vs))"

subsection \<open>Tokens\<close>

record session_claims =
  cl_username :: string
  cl_expires :: int

record auth_env =
  au_now :: int
  au_hmac :: "string \<Rightarrow> string \<Rightarrow> string"
  au_encode :: "session_claims \<Rightarrow> string go_result"
  au_decode :: "string \<Rightarrow> session_claims option"
  au_random :: "nat \<Rightarrow> string go_result"

definition unix :: "int \<Rightarrow> int" where
  "unix ns = ns div 1000000000"

definition err_invalid_token :: err where "err_invalid_token = ''invalid session token''"
definition err_expired_token :: err where "err_expired_token = ''session token expired''"

definition hex_of :: "char \<Rightarrow> string" where
  "hex_of c = [''0123456789abcdef'' ! (code_of c div 16), ''0123456789abcdef'' ! (code_of c mod 16)]"

definition secure_random_string :: "auth_env \<Rightarrow> nat \<Rightarrow> string go_result" where
  "secure_random_string env n =
     (case au_random env n of
        Inl e \<Rightarrow> Inl (''failed to generate random bytes: '' @ e)
      | Inr bytes \<Rightarrow> Inr (concat (map hex_of bytes)))"

definition sign_token :: "auth_env \<Rightarrow> string \<Rightarrow> string \<Rightarrow> string" where
  "sign_token env msg secret = encode64 (au_hmac env secret msg)"

definition verify_token :: "auth_env \<Rightarrow> string \<Rightarrow> string \<Rightarrow> string \<Rightarrow> bool" where
  "verify_token env msg signature secret \<longleftrightarrow> signature = sign_token env msg secret"

definition generate_session :: "auth_env \<Rightarrow> string \<Rightarrow> int \<Rightarrow> string \<Rightarrow> string go_result" where
  "generate_session env username duration secret =
     (case au_encode env \<lparr>cl_username = username, cl_expires = unix (au_now env + duration)\<rparr> of
        Inl e \<Rightarrow> Inl (''failed to marshal session claims: '' @ e)
      | Inr json \<Rightarrow>
          let payload = encode64 json in Inr (payload @ ''.'' @ sign_token env payload secret))"

definition verify_session :: "auth_env \<Rightarrow> string \<Rightarrow> string \<Rightarrow> string go_result" where
  "verify_session env cookieVal secret =
     (case split_on CHR ''.'' cookieVal of
        [payload, signature] \<Rightarrow>
          if \<not> verify_token env payload signature secret then Inl err_invalid_token
          else (case decode64 payload of
              None \<Rightarrow> Inl err_invalid_token
            | Some bytes \<Rightarrow>
                (case au_decode env bytes of
                   None \<Rightarrow> Inl err_invalid_token
                 | Some claims \<Rightarrow>
                     if cl_expires claims < unix (au_now env) then Inl err_expired_token
                     else Inr (cl_username claims)))
      | _ \<Rightarrow> Inl err_invalid_token)"

subsection \<open>Round trip of the encoding\<close>

lemma alphabet_length: "length alphabet = 64"
  by (simp add: alphabet_def)

lemma alphabet_distinct: "distinct alphabet"
  by (simp add: alphabet_def)

lemma find_enumerate:
  "distinct xs \<Longrightarrow> n < length xs \<Longrightarrow> find (\<lambda>p. snd p = xs ! n) (enumerate k xs) = Some (k + n, xs ! n)"
proof (induction xs arbitrary: k n)
  case (Cons x xs)
  then show ?case by (cases n) auto
qed simp

lemma value_digit [simp]: "n < 64 \<Longrightarrow> value64 (digit64 n) = Some n"
  by (simp add: value64_def digit64_def find_enumerate alphabet_distinct alphabet_length)

lemma digit_in_alphabet: "n < 64 \<Longrightarrow> digit64 n \<in> set alphabet"
  by (simp add: digit64_def alphabet_length)

lemma code_bound: "code_of c < 256"
  by (simp add: code_of_def)

lemma char_of_code [simp]: "char_of (code_of c) = c"
  by (simp add: code_of_def)

lemma encode64_alphabet: "set (encode64 s) \<subseteq> set alphabet"
proof (induction s rule: encode64.induct)
  case (4 a b c s)
  then show ?case using code_bound [of a] code_bound [of b] code_bound [of c]
    by (auto intro!: digit_in_alphabet)
next
  case (3 a b)
  then show ?case using code_bound [of a] code_bound [of b] by (auto intro!: digit_in_alphabet)
next
  case (2 a)
  then show ?case using code_bound [of a] by (auto intro!: digit_in_alphabet)
qed simp

lemma decode_values_encode: "decode_values (map (\<lambda>c. the (value64 c)) (encode64 s)) = Some s"
proof (induction s rule: encode64.induct)
  case (4 a b c s)
  then show ?case using code_bound [of a] code_bound [of b] code_bound [of c] by simp
next
  case (3 a b)
  then show ?case using code_bound [of a] code_bound [of b] by simp
next
  case (2 a)
  then show ?case using code_bound [of a] by simp
qed simp

lemma alphabet_plain: "c \<in> set alphabet \<Longrightarrow> code_of c \<noteq> 10 \<and> code_of c \<noteq> 13 \<and> c \<noteq> CHR ''.'' \<and> value64 c \<noteq> None"
proof -
  assume "c \<in> set alphabet"
  then obtain n where n: "n < 64" "c = digit64 n" by (auto simp: in_set_conv_nth digit64_def alphabet_length)
  moreover have "list_all (\<lambda>c. code_of c \<noteq> 10 \<and> code_of c \<noteq> 13 \<and> c \<noteq> CHR ''.'') alphabet"
    by (simp add: alphabet_def code_of_def)
  ultimately show ?thesis using digit_in_alphabet [OF n(1)] by (simp add: list_all_iff)
qed

lemma decode_encode64: "decode64 (encode64 s) = Some s"
proof -
  have p: "code_of c \<noteq> 10 \<and> code_of c \<noteq> 13 \<and> value64 c \<noteq> None" if "c \<in> set (encode64 s)" for c
    using that encode64_alphabet [of s] alphabet_plain by blast
  then have "filter (\<lambda>c. code_of c \<noteq> 10 \<and> code_of c \<noteq> 13) (encode64 s) = encode64 s"
    by (intro filter_True) blast
  moreover have "\<not> list_ex (\<lambda>v. v = None) (map value64 (encode64 s))"
    using p by (force simp: list_ex_iff)
  ultimately show ?thesis
    using decode_values_encode [of s] by (simp add: decode64_def Let_def comp_def)
qed


subsection \<open>Sessions\<close>

lemma encode64_no_dot: "CHR ''.'' \<notin> set (encode64 s)"
  using encode64_alphabet [of s] alphabet_plain by blast

lemma verify_signed:
  "verify_session env (payload @ ''.'' @ sign_token env payload secret) secret =
     (case decode64 payload of
        None \<Rightarrow> Inl err_invalid_token
      | Some bytes \<Rightarrow>
          (case au_decode env bytes of
             None \<Rightarrow> Inl err_invalid_token
           | Some claims \<Rightarrow>
               if cl_expires claims < unix (au_now env) then Inl err_expired_token
               else Inr (cl_username claims)))"
  if "CHR ''.'' \<notin> set payload"
proof -
  have "split_on CHR ''.'' (payload @ ''.'' @ sign_token env payload secret) = [payload, sign_token env payload secret]"
    using that encode64_no_dot by (simp add: split_on_append split_on_notin sign_token_def)
  then show ?thesis by (simp add: verify_session_def verify_token_def)
qed

lemma generated_verifies:
  assumes "\<And>claims json. au_encode env claims = Inr json \<Longrightarrow> au_decode env json = Some claims"
    "generate_session env username duration secret = Inr cookie"
  shows "verify_session (env\<lparr>au_now := t\<rparr>) cookie secret =
      (if unix (au_now env + duration) < unix t then Inl err_expired_token else Inr username)"
proof -
  let ?claims = "\<lparr>cl_username = username, cl_expires = unix (au_now env + duration)\<rparr>"
  let ?later = "env\<lparr>au_now := t\<rparr>"
  obtain json where json: "au_encode env ?claims = Inr json"
    and c: "cookie = encode64 json @ ''.'' @ sign_token env (encode64 json) secret"
    using assms(2) by (auto simp: generate_session_def Let_def split: sum.splits)
  have "sign_token env p secret = sign_token ?later p secret" for p by (simp add: sign_token_def)
  then show ?thesis
    using assms(1) [OF json] verify_signed [OF encode64_no_dot, of ?later json secret]
    unfolding c by (simp add: decode_encode64)
qed

lemma verified_signed:
  assumes "verify_session env c secret = Inr u"
  shows "\<exists>payload claims json. c = payload @ ''.'' @ encode64 (au_hmac env secret payload) \<and>
     decode64 payload = Some json \<and> au_decode env json = Some claims \<and>
     cl_username claims = u \<and> unix (au_now env) \<le> cl_expires claims"
proof -
  obtain payload where p: "split_on CHR ''.'' c = [payload, sign_token env payload secret]"
    using assms by (auto simp: verify_session_def verify_token_def split: list.splits if_splits)
  moreover have c: "c = payload @ ''.'' @ sign_token env payload secret"
    using arg_cong [OF p, of "join_with ''.''"] by simp
  moreover have d: "CHR ''.'' \<notin> set payload"
    using split_on_parts [of payload "CHR ''.''" c] p by simp
  ultimately show ?thesis
    using assms verify_signed [OF d, of env secret] by (auto simp: sign_token_def split: option.splits if_splits)
qed


definition toy_auth :: auth_env where
  "toy_auth = \<lparr>au_now = 5, au_hmac = (\<lambda>k m. k @ m), au_encode = (\<lambda>c. if cl_expires c = 0 then Inr (cl_username c) else Inl []),
     au_decode = (\<lambda>s. Some \<lparr>cl_username = s, cl_expires = 0\<rparr>), au_random = (\<lambda>n. Inr (replicate n (char_of (0 :: nat))))\<rparr>"


end
