(* ===== verification/Feed_Parse.thy ===== *)
theory Feed_Parse
  imports Feed_Status
begin

text \<open>
  \<^verbatim>\<open>internal/feed/parse.go\<close>: the parser of threat feeds, as CSV or as text.  A reader is its
  bytes and what happens after them: the errors of the reads that fail next, and then the error of
  every further read, as for the body of a broken HTTP response, or \<^term>\<open>None\<close> for the end of the
  file.  The
  callback for a domain passes a state of any type and may fail.  The parts of \<^verbatim>\<open>encoding/csv\<close> and
  \<^verbatim>\<open>bufio.Scanner\<close> the parser relies on are written out.  The loop over CSV records need not end:
  it is a partial function, \<^term>\<open>None\<close> standing for a call that never returns.
\<close>

record feed_reader =
  fr_text :: string
  fr_faults :: "err list"
  fr_broken :: "err option"

definition newline :: char where "newline = char_of (10 :: nat)"
definition carriage :: char where "carriage = char_of (13 :: nat)"
definition dquote :: char where "dquote = char_of (34 :: nat)"

definition read_error :: "feed_reader \<Rightarrow> err option" where
  "read_error r = (case fr_faults r of [] \<Rightarrow> fr_broken r | e # _ \<Rightarrow> Some e)"

definition decompressed_limit :: nat where
  "decompressed_limit = 100 * 1024 * 1024"

text \<open>\<^verbatim>\<open>io.LimitReader\<close>.\<close>

definition limit_reader :: "feed_reader \<Rightarrow> feed_reader" where
  "limit_reader r =
     (if decompressed_limit \<le> length (fr_text r)
      then r\<lparr>fr_text := take decompressed_limit (fr_text r), fr_faults := [], fr_broken := None\<rparr> else r)"

text \<open>\<^verbatim>\<open>Peek(4096)\<close> reads on when there is less, and keeps a failure to itself.\<close>

definition after_peek :: "feed_reader \<Rightarrow> feed_reader" where
  "after_peek r = (if length (fr_text r) < 4096 then r\<lparr>fr_faults := tl (fr_faults r)\<rparr> else r)"

subsection \<open>Candidates\<close>

definition strip_comment :: "string \<Rightarrow> string" where
  "strip_comment value =
     (if has_prefix value ''#'' then []
      else (case cut CHR ''#'' value of (_, None) \<Rightarrow> value | (before, Some _) \<Rightarrow> trim_space before))"

definition candidate_domain :: "string \<Rightarrow> string go_result" where
  "candidate_domain value =
     (case normalize_domain value of
        Inl e \<Rightarrow> Inl e
      | Inr domain \<Rightarrow>
          if \<not> contains domain ''.'' then Inl ''feed candidate must be a domain, not a single label''
          else Inr domain)"

definition normalize_candidate :: "string \<Rightarrow> string go_result" where
  "normalize_candidate v =
     (let value = trim_space v in
      if value = [] then Inl ''empty feed candidate''
      else if contains value ''://'' then
        (case url_parse value of
           None \<Rightarrow> Inl ''invalid feed url candidate''
         | Some u \<Rightarrow> if url_hostname u = [] then Inl ''invalid feed url candidate''
             else candidate_domain (url_hostname u))
      else candidate_domain value)"

definition first_domain :: "string list \<Rightarrow> string option" where
  "first_domain fs =
     first_some (\<lambda>f. let field = strip_comment (trim_space f) in
        if field = [] then None
        else (case normalize_candidate field of Inl _ \<Rightarrow> None | Inr d \<Rightarrow> Some d)) fs"

definition is_probably_csv :: "string \<Rightarrow> bool" where
  "is_probably_csv peek =
     (case first_some (\<lambda>l. let line = trim_space l in
          if line = [] \<or> has_prefix line ''#'' then None else Some (contains line '',''))
        (split_on newline peek) of
        None \<Rightarrow> False
      | Some b \<Rightarrow> b)"

subsection \<open>Counting\<close>

record 's parse_state =
  pr_stats :: parse_stats
  pr_seen :: "string list"
  pr_user :: 's

definition count_invalid :: "int \<Rightarrow> 's parse_state \<Rightarrow> 's parse_state" where
  "count_invalid n st = st\<lparr>pr_stats := (pr_stats st)\<lparr>ps_invalid := ps_invalid (pr_stats st) + n\<rparr>\<rparr>"

definition count_skipped :: "'s parse_state \<Rightarrow> 's parse_state" where
  "count_skipped st = st\<lparr>pr_stats := (pr_stats st)\<lparr>ps_skipped := ps_skipped (pr_stats st) + 1\<rparr>\<rparr>"

type_synonym 's handler = "'s \<Rightarrow> string \<Rightarrow> 's \<times> err option"

definition add_domain :: "'s handler \<Rightarrow> string \<Rightarrow> 's parse_state \<Rightarrow> 's parse_state \<times> err option" where
  "add_domain on_domain domain st =
     (if domain \<in> set (pr_seen st)
      then (st\<lparr>pr_stats := (pr_stats st)\<lparr>ps_duplicates := ps_duplicates (pr_stats st) + 1\<rparr>\<rparr>, None)
      else (case on_domain (pr_user st) domain of
          (u, e) \<Rightarrow> (\<lparr>pr_stats = (pr_stats st)\<lparr>ps_valid := ps_valid (pr_stats st) + 1\<rparr>,
                      pr_seen = domain # pr_seen st, pr_user = u\<rparr>, e)))"

subsection \<open>Text\<close>

text \<open>The fields of a line, with \<^verbatim>\<open>parsedAny\<close>, \<^verbatim>\<open>lineHadValid\<close> and \<^verbatim>\<open>lineInvalid\<close>.\<close>

fun text_fields ::
  "'s handler \<Rightarrow> string list \<Rightarrow> 's parse_state \<Rightarrow> bool \<Rightarrow> bool \<Rightarrow> int \<Rightarrow>
     ('s parse_state \<times> bool \<times> bool \<times> int) \<times> err option" where
  "text_fields h [] st anyp valid bad = ((st, anyp, valid, bad), None)"
| "text_fields h (f # fs) st anyp valid bad =
     (if has_prefix f ''#'' then ((st, anyp, valid, bad), None)
      else
        (let field = strip_comment (trim_space f) in
         if field = [] then text_fields h fs st anyp valid bad
         else (case normalize_candidate field of
             Inl _ \<Rightarrow> text_fields h fs st True valid (bad + 1)
           | Inr domain \<Rightarrow>
               (case add_domain h domain st of
                  (st', Some e) \<Rightarrow> ((st', True, True, bad), Some e)
                | (st', None) \<Rightarrow> text_fields h fs st' True True bad))))"

definition text_line :: "'s handler \<Rightarrow> string \<Rightarrow> 's parse_state \<Rightarrow> 's parse_state \<times> err option" where
  "text_line h l st =
     (let line = trim_space l in
      if line = [] \<or> has_prefix line ''#'' then (count_skipped st, None)
      else (case text_fields h (space_fields line) st False False 0 of
          ((st', _, _, _), Some e) \<Rightarrow> (st', Some e)
        | ((st', anyp, valid, bad), None) \<Rightarrow>
            if \<not> anyp then (count_skipped st', None)
            else if valid then (count_invalid bad st', None)
            else if 0 < bad then (count_invalid 1 st', None)
            else (st', None)))"

fun text_lines :: "'s handler \<Rightarrow> string list \<Rightarrow> 's parse_state \<Rightarrow> 's parse_state \<times> err option" where
  "text_lines h [] st = (st, None)"
| "text_lines h (l # ls) st =
     (case text_line h l st of (st', Some e) \<Rightarrow> (st', Some e) | (st', None) \<Rightarrow> text_lines h ls st')"

definition max_line :: nat where "max_line = 1024 * 1024"

text \<open>\<^verbatim>\<open>bufio.Scanner\<close>: the lines before the first one that is too long, and the error at the
  end.\<close>

definition scan_text :: "feed_reader \<Rightarrow> string list \<times> err option" where
  "scan_text r =
     (let raw = split_on newline (fr_text r);
          lines = (if last raw = [] then butlast raw else raw);
          short = takeWhile (\<lambda>l. length l < max_line) lines in
      (map (\<lambda>l. trim_suffix l [carriage]) short,
       if length short < length lines
       then Some ''feed line exceeds 1048576 bytes: bufio.Scanner: token too long''
       else read_error r))"

definition parse_text_stream ::
  "'s handler \<Rightarrow> feed_reader \<Rightarrow> 's parse_state \<Rightarrow> 's parse_state \<times> err option" where
  "parse_text_stream h r st =
     (case scan_text r of (lines, e) \<Rightarrow>
        (case text_lines h lines st of (st', Some e') \<Rightarrow> (st', Some e') | (st', None) \<Rightarrow> (st', e)))"

subsection \<open>CSV\<close>

datatype line_end = Line_Ok | Line_Eof | Line_Fault

text \<open>\<^verbatim>\<open>readLine\<close> of \<^verbatim>\<open>csv.Reader\<close>.\<close>

definition csv_read_line :: "feed_reader \<Rightarrow> string \<times> line_end \<times> feed_reader" where
  "csv_read_line r =
     (case cut newline (fr_text r) of
        (l, Some rest) \<Rightarrow> (trim_suffix l [carriage] @ [newline], Line_Ok, r\<lparr>fr_text := rest\<rparr>)
      | (l, None) \<Rightarrow>
          if read_error r = None then
            (if l = [] then ([], Line_Eof, r)
             else (trim_suffix l [carriage], Line_Ok, r\<lparr>fr_text := []\<rparr>))
          else (l, Line_Fault, r\<lparr>fr_text := [], fr_faults := tl (fr_faults r)\<rparr>))"

datatype csv_event = Csv_Row "string list" | Csv_Bad | Csv_End

lemma csv_read_line_ends:
  assumes "csv_read_line r = (l, e, r')"
  shows "length l + length (fr_text r') \<le> length (fr_text r)"
    and "e = Line_Ok \<Longrightarrow> length (fr_text r') < length (fr_text r) \<and> fr_faults r' = fr_faults r \<and> fr_broken r' = fr_broken r"
    and "e = Line_Eof \<longleftrightarrow> fr_text r = [] \<and> read_error r = None"
    and "e = Line_Fault \<Longrightarrow> fr_text r' = [] \<and> read_error r \<noteq> None \<and>
      fr_faults r' = tl (fr_faults r) \<and> fr_broken r' = fr_broken r"
    and "e = Line_Eof \<Longrightarrow> r' = r \<and> l = []"
proof -
  have t: "length (trim_suffix x [carriage]) \<le> length x" for x
    by (simp add: trim_suffix_char)
  have n: "cut d s = (a, None) \<Longrightarrow> a = s" for d s a
    by (induction s arbitrary: a) (auto split: if_splits prod.splits)
  show "length l + length (fr_text r') \<le> length (fr_text r)"
    using assms t by (auto simp: csv_read_line_def cut_Some split: prod.splits option.splits if_splits)
       (auto dest!: n)
  show "e = Line_Ok \<Longrightarrow> length (fr_text r') < length (fr_text r) \<and> fr_faults r' = fr_faults r \<and> fr_broken r' = fr_broken r"
    using assms by (auto simp: csv_read_line_def cut_Some split: prod.splits option.splits if_splits)
  show "e = Line_Eof \<longleftrightarrow> fr_text r = [] \<and> read_error r = None"
    using assms by (auto simp: csv_read_line_def cut_Some split: prod.splits option.splits if_splits)
       (auto dest!: n)
  show "e = Line_Fault \<Longrightarrow> fr_text r' = [] \<and> read_error r \<noteq> None \<and>
      fr_faults r' = tl (fr_faults r) \<and> fr_broken r' = fr_broken r"
    using assms by (auto simp: csv_read_line_def split: prod.splits option.splits if_splits)
  show "e = Line_Eof \<Longrightarrow> r' = r \<and> l = []"
    using assms by (auto simp: csv_read_line_def split: prod.splits option.splits if_splits)
qed

lemma length_cut: "cut d s = (a, Some b) \<Longrightarrow> length a + length b < length s"
  by (simp add: cut_Some)

definition csv_more :: "string \<Rightarrow> string list option \<times> feed_reader \<Rightarrow> string list option \<times> feed_reader" where
  "csv_more f res = (case res of (fs, r) \<Rightarrow> (map_option (\<lambda>xs. f # xs) fs, r))"

text \<open>The fields of a record from the start of a field (\<open>buf\<close> is \<^term>\<open>None\<close>) or inside a quoted one
  (\<open>buf\<close> holds what it has so far), reading on at the end of a line inside quotes.  \<^term>\<open>None\<close> is a
  parse or read error, which leaves the reader after the last line it took.\<close>

function csv_fields :: "string option \<Rightarrow> string \<Rightarrow> feed_reader \<Rightarrow> string list option \<times> feed_reader" where
  "csv_fields None line r =
     (if line \<noteq> [] \<and> hd line = dquote then csv_fields (Some []) (tl line) r
      else (case cut CHR '','' line of
          (f, Some rest) \<Rightarrow>
            if dquote \<in> set f then (None, r) else csv_more f (csv_fields None rest r)
        | (f, None) \<Rightarrow>
            let f' = trim_suffix f [newline] in if dquote \<in> set f' then (None, r) else (Some [f'], r)))"
| "csv_fields (Some buf) line r =
     (case cut dquote line of
        (a, Some rest) \<Rightarrow>
          if rest = [] \<or> rest = [newline] then (Some [buf @ a], r)
          else if hd rest = dquote then csv_fields (Some (buf @ a @ [dquote])) (tl rest) r
          else if hd rest = CHR '','' then csv_more (buf @ a) (csv_fields None (tl rest) r)
          else (None, r)
      | (_, None) \<Rightarrow>
          if line = [] then (None, r)
          else (case csv_read_line r of
              (_, Line_Fault, r') \<Rightarrow> (None, r')
            | (l, _, r') \<Rightarrow> csv_fields (Some (buf @ line)) l r'))"
  by pat_completeness auto
termination
  by (relation "measure (\<lambda>(_, line, r). length line + length (fr_text r))")
     (auto dest!: sym [of "(_, _)" "cut _ _"] sym [of "(_, _)" "csv_read_line _"]
        length_cut csv_read_line_ends(1) simp flip: length_greater_0_conv)

text \<open>\<^verbatim>\<open>Read\<close>: empty lines are skipped.\<close>

function csv_next :: "feed_reader \<Rightarrow> csv_event \<times> feed_reader" where
  "csv_next r =
     (case csv_read_line r of
        (_, Line_Eof, r') \<Rightarrow> (Csv_End, r')
      | (_, Line_Fault, r') \<Rightarrow> (Csv_Bad, r')
      | (l, Line_Ok, r') \<Rightarrow>
          if l = [] \<or> l = [newline] then csv_next r'
          else (case csv_fields None l r' of
              (None, r'') \<Rightarrow> (Csv_Bad, r'')
            | (Some row, r'') \<Rightarrow> (Csv_Row row, r'')))"
  by pat_completeness auto
termination
  by (relation "measure (\<lambda>r. length (fr_text r))") (auto dest!: sym [of "(_, _)" "csv_read_line _"] csv_read_line_ends(2))

declare csv_fields.simps [simp del] csv_next.simps [simp del]

text \<open>The body of the loop: leave with a result, or go on.\<close>

definition csv_handle ::
  "'s handler \<Rightarrow> csv_event \<Rightarrow> 's parse_state \<Rightarrow> ('s parse_state \<times> err option) + 's parse_state" where
  "csv_handle h ev st =
     (case ev of
        Csv_End \<Rightarrow> Inl (st, None)
      | Csv_Bad \<Rightarrow> Inr (count_invalid 1 st)
      | Csv_Row row \<Rightarrow>
          if row = [] then Inr (count_skipped st)
          else (case first_domain row of
              None \<Rightarrow> Inr (count_invalid 1 st)
            | Some domain \<Rightarrow>
                (case add_domain h domain st of
                   (st', Some e) \<Rightarrow> Inl (st', Some e)
                 | (st', None) \<Rightarrow> Inr st')))"

partial_function (option) parse_csv_stream ::
  "'s handler \<Rightarrow> feed_reader \<Rightarrow> 's parse_state \<Rightarrow> ('s parse_state \<times> err option) option" where
  "parse_csv_stream h r st =
     (case csv_next r of
        (ev, r') \<Rightarrow>
          (case csv_handle h ev st of
             Inl res \<Rightarrow> Some res
           | Inr st' \<Rightarrow> parse_csv_stream h r' st'))"

subsection \<open>The entry points\<close>

definition parse_each ::
  "'s handler \<Rightarrow> feed_reader \<Rightarrow> 's \<Rightarrow> parse_stats \<Rightarrow> ('s parse_state \<times> err option) option" where
  "parse_each h r0 u stats =
     (let r = limit_reader r0; st = \<lparr>pr_stats = stats, pr_seen = [], pr_user = u\<rparr> in
      if is_probably_csv (take 4096 (fr_text r))
      then parse_csv_stream h (after_peek r) st
      else Some (parse_text_stream h (after_peek r) st))"

definition collect :: "string list handler" where
  "collect ds domain = (ds @ [domain], None)"

definition parse :: "feed_reader \<Rightarrow> (string list \<times> parse_stats) go_result option" where
  "parse r =
     (case parse_each collect r [] no_stats of
        None \<Rightarrow> None
      | Some (st, Some e) \<Rightarrow> Some (Inl e)
      | Some (st, None) \<Rightarrow> Some (Inr (pr_user st, pr_stats st)))"

subsection \<open>What a CSV feed costs\<close>

text \<open>A reader after some reading: no more bytes, and perhaps one failing read fewer.\<close>

definition read_on :: "feed_reader \<Rightarrow> feed_reader \<Rightarrow> bool" where
  "read_on r r' \<longleftrightarrow> length (fr_text r') \<le> length (fr_text r) \<and>
     (fr_faults r' = fr_faults r \<or> fr_faults r' = tl (fr_faults r)) \<and> fr_broken r' = fr_broken r"

lemma csv_more_eq [simp]: "csv_more f res = (x, r) \<Longrightarrow> snd res = r"
  by (auto simp: csv_more_def split: prod.splits)

lemma read_on_refl [simp]: "read_on r r"
  by (simp add: read_on_def)

lemma read_on_line:
  assumes "csv_read_line r = (l, e, r1)" "e \<noteq> Line_Fault" "read_on r1 r2"
  shows "read_on r r2"
proof -
  have "length (fr_text r1) \<le> length (fr_text r) \<and> fr_faults r1 = fr_faults r \<and> fr_broken r1 = fr_broken r"
    using csv_read_line_ends [OF assms(1)] assms(2) by (cases e) auto
  with assms(3) show ?thesis by (auto simp: read_on_def)
qed

lemma read_on_fault: "csv_read_line r = (l, Line_Fault, r1) \<Longrightarrow> read_on r r1"
  using csv_read_line_ends [of r l Line_Fault r1] by (auto simp: read_on_def)

lemma csv_fields_read_on: "read_on r (snd (csv_fields m line r))"
proof (induction m line r rule: csv_fields.induct)
  case (1 line r)
  then show ?case
    by (subst csv_fields.simps) (auto simp: csv_more_def Let_def split: prod.splits option.splits)
next
  case (2 buf line r)
  show ?case
  proof (cases "cut dquote line")
    case (Pair a o')
    show ?thesis
    proof (cases o')
      case None
      obtain l e r1 where l: "csv_read_line r = (l, e, r1)" by (metis prod.exhaust)
      show ?thesis
      proof (cases "line = [] \<or> e = Line_Fault")
        case True
        then show ?thesis using None Pair l by (auto simp: csv_fields.simps(2) intro: read_on_fault)
      next
        case False
        then have "read_on r1 (snd (csv_fields (Some (buf @ line)) l r1))"
          using 2(1,2) [OF Pair [symmetric] None] l [symmetric] by (cases e) auto
        then show ?thesis using None Pair l False read_on_line [OF l]
          by (cases e) (auto simp: csv_fields.simps(2) [of buf line])
      qed
    next
      case (Some rest)
      then show ?thesis using 2(3,4) Pair
        by (subst csv_fields.simps) (auto simp: csv_more_def split: prod.splits)
    qed
  qed
qed

definition progress :: "csv_event \<Rightarrow> feed_reader \<Rightarrow> feed_reader \<Rightarrow> bool" where
  "progress ev r r' \<longleftrightarrow>
     fr_broken r' = fr_broken r \<and>
     (if ev = Csv_End then read_error r = None
      else length (fr_text r') < length (fr_text r) \<and>
             (fr_faults r' = fr_faults r \<or> fr_faults r' = tl (fr_faults r))
           \<or> fr_text r' = [] \<and> read_error r \<noteq> None \<and> fr_faults r' = tl (fr_faults r))"

lemma csv_next_progress: "csv_next r = (ev, r') \<Longrightarrow> progress ev r r'"
proof (induction r arbitrary: ev r' rule: csv_next.induct)
  case (1 r)
  obtain l e r1 where l: "csv_read_line r = (l, e, r1)" by (metis prod.exhaust)
  note ends = csv_read_line_ends [OF l]
  show ?case
  proof (cases e)
    case Line_Ok
    show ?thesis
    proof (cases "l = [] \<or> l = [newline]")
      case True
      then have "progress ev r1 r'" using 1 l Line_Ok by (auto simp: csv_next.simps [of r])
      then show ?thesis using ends(2) [OF Line_Ok] by (auto simp: progress_def read_error_def split: if_splits list.splits)
    next
      case False
      have "read_on r1 r' \<and> ev \<noteq> Csv_End"
        using csv_fields_read_on [of r1 None l] 1(2) l Line_Ok False
        by (auto simp: csv_next.simps [of r] split: prod.splits option.splits)
      then show ?thesis using ends(2) [OF Line_Ok] by (auto simp: read_on_def progress_def)
    qed
  next
    case Line_Eof
    then show ?thesis using 1(2) l ends(3,5) by (simp add: csv_next.simps [of r] progress_def)
  next
    case Line_Fault
    then show ?thesis using 1(2) l ends(4) by (simp add: csv_next.simps [of r] progress_def)
  qed
qed

lemma progress_Some:
  "progress ev r r' \<Longrightarrow> ev \<noteq> Csv_End \<Longrightarrow> fr_broken r = None \<Longrightarrow> fr_broken r' = None \<and>
     length (fr_text r') + length (fr_faults r') < length (fr_text r) + length (fr_faults r)"
  by (cases "fr_faults r") (auto simp: progress_def read_error_def)

lemma progress_broken:
  "progress ev r r' \<Longrightarrow> fr_broken r \<noteq> None \<Longrightarrow> ev \<noteq> Csv_End \<and> fr_broken r' \<noteq> None"
  by (cases "fr_faults r") (auto simp: progress_def read_error_def split: if_splits)

lemma csv_handle_Inl: "csv_handle h ev st = Inl res \<Longrightarrow> ev \<noteq> Csv_End \<Longrightarrow> snd res \<noteq> None"
  by (auto simp: csv_handle_def split: csv_event.splits if_splits option.splits prod.splits)
     (metis option.distinct(1) snd_conv)

lemma csv_handle_no_error:
  assumes "\<And>u d. snd (h u d) = None" "csv_handle h ev st = Inl res"
  shows "ev = Csv_End \<and> res = (st, None)"
proof -
  have "snd (add_domain h d st) = None" for d
    using assms(1) [of "pr_user st" d] by (auto simp: add_domain_def split: prod.splits)
  then show ?thesis using assms(2)
    by (auto simp: csv_handle_def split: csv_event.splits if_splits option.splits prod.splits)
       (metis option.distinct(1) snd_conv)
qed

text \<open>With a reader whose failures end, the loop ends: every event uses up bytes or failures.\<close>

lemma csv_stream_returns:
  "fr_broken r = None \<Longrightarrow> \<exists>res. parse_csv_stream h r st = Some res"
proof (induction "length (fr_text r) + length (fr_faults r)" arbitrary: r st rule: less_induct)
  case less
  obtain ev r' where ev: "csv_next r = (ev, r')" by fastforce
  show ?case
  proof (cases "csv_handle h ev st")
    case (Inl res)
    then show ?thesis by (subst parse_csv_stream.simps) (simp add: ev)
  next
    case (Inr st')
    then have "ev \<noteq> Csv_End" by (auto simp: csv_handle_def)
    then have "fr_broken r' = None"
        "length (fr_text r') + length (fr_faults r') < length (fr_text r) + length (fr_faults r)"
      using progress_Some [OF csv_next_progress [OF ev] _ less(2)] by auto
    then show ?thesis using Inr less(1) [of r' st']
      by (subst parse_csv_stream.simps) (simp add: ev)
  qed
qed

text \<open>What holds of the state at the end of the loop, and of its reader.\<close>

lemma csv_stream_rule:
  assumes "parse_csv_stream h r st = Some res" "I r st"
    and "\<And>r st ev r' st'. I r st \<Longrightarrow> csv_next r = (ev, r') \<Longrightarrow> csv_handle h ev st = Inr st' \<Longrightarrow> I r' st'"
    and "\<And>r st ev r' res. I r st \<Longrightarrow> csv_next r = (ev, r') \<Longrightarrow> csv_handle h ev st = Inl res \<Longrightarrow> Q res"
  shows "Q res"
proof -
  have "h' = h \<longrightarrow> I r st \<longrightarrow> Q res" if "parse_csv_stream h' r st = Some res" for h' r st res
  proof (rule parse_csv_stream.raw_induct
      [where P = "\<lambda>h' r st res. h' = h \<longrightarrow> I r st \<longrightarrow> Q res", OF _ that], intro impI)
    fix f h' r st res
    assume ih: "\<And>h' r st res. f h' r st = Some res \<Longrightarrow> h' = h \<longrightarrow> I r st \<longrightarrow> Q res"
      and eq: "(case csv_next r of (ev, r') \<Rightarrow> (case csv_handle h' ev st of
             Inl res \<Rightarrow> Some res | Inr st' \<Rightarrow> f h' r' st')) = Some res"
      and h: "h' = h" and inv: "I r st"
    obtain ev r' where ev: "csv_next r = (ev, r')" by fastforce
    show "Q res"
    proof (cases "csv_handle h ev st")
      case (Inl x)
      then show ?thesis using eq ev h assms(4) [OF inv ev] by simp
    next
      case (Inr st')
      then show ?thesis using eq ev h ih assms(3) [OF inv ev] by simp
    qed
  qed
  with assms(1,2) show ?thesis by blast
qed

text \<open>With a reader that fails for ever, it only returns with an error of the callback.\<close>

lemma csv_stream_broken:
  assumes "parse_csv_stream h r st = Some res" "fr_broken r \<noteq> None"
  shows "snd res \<noteq> None"
proof (rule csv_stream_rule [OF assms(1), where I = "\<lambda>r st. fr_broken r \<noteq> None"])
  fix r :: feed_reader and st :: "'a parse_state" and ev r' st'
  assume a: "fr_broken r \<noteq> None" "csv_next r = (ev, r')"
  note p = progress_broken [OF csv_next_progress [OF a(2)] a(1)]
  show "fr_broken r' \<noteq> None" using p by simp
  show "snd res \<noteq> None" if "csv_handle h ev st = Inl res" for res
    using csv_handle_Inl [OF that] p by simp
qed (use assms in auto)

lemma csv_stream_no_error:
  assumes "\<And>u d. snd (h u d) = None" "parse_csv_stream h r st = Some res"
  shows "snd res = None"
proof (rule csv_stream_rule [OF assms(2), where I = "\<lambda>r st. True"])
  fix r :: feed_reader and st :: "'a parse_state" and ev res
  assume "csv_handle h ev st = Inl res"
  then show "snd res = None" using csv_handle_no_error [of h ev st res] assms(1) by simp
qed auto

text \<open>The loop over CSV records with a callback that does not fail: it returns, and then
  without an error, exactly when reads do not fail for ever.  A read error is never reported: it counts
  as an invalid row, and a connection that stays broken keeps the parser busy without end.\<close>

lemma csv_stream_ignores_read_errors:
  assumes "\<forall>u d. snd (h u d) = None"
  shows "case parse_csv_stream h r st of
      None \<Rightarrow> fr_broken r \<noteq> None
    | Some (st', e) \<Rightarrow> fr_broken r = None \<and> e = None"
proof (cases "fr_broken r")
  case None
  then obtain res where "parse_csv_stream h r st = Some res" using csv_stream_returns by blast
  then show ?thesis using csv_stream_no_error [of h r st res] assms None by (cases res) auto
next
  case (Some e)
  then show ?thesis using csv_stream_broken [of h r st] csv_stream_no_error [of h r st] assms
    by (cases "parse_csv_stream h r st") (auto split: prod.splits)
qed

lemma csv_stream_ignores_read_errors_witness:
  "parse_csv_stream collect \<lparr>fr_text = ''a.vn,x'', fr_faults = [], fr_broken = Some ''reset''\<rparr>
     \<lparr>pr_stats = no_stats, pr_seen = [], pr_user = []\<rparr> = None"
  using csv_stream_ignores_read_errors
    [of collect "\<lparr>fr_text = ''a.vn,x'', fr_faults = [], fr_broken = Some ''reset''\<rparr>"
      "\<lparr>pr_stats = no_stats, pr_seen = [], pr_user = []\<rparr>"]
  by (auto simp: collect_def split: option.splits prod.splits)

subsection \<open>What a parsed feed holds\<close>

definition feed_name :: "string \<Rightarrow> bool" where
  "feed_name d \<longleftrightarrow> CHR ''.'' \<in> set d \<and> (\<exists>v. normalize_domain v = Inr d)"

lemma normalize_candidate_name: "normalize_candidate v = Inr d \<Longrightarrow> feed_name d"
  by (auto simp: normalize_candidate_def candidate_domain_def feed_name_def contains_singleton Let_def
      split: if_splits option.splits sum.splits)

lemma first_domain_name: "first_domain fs = Some d \<Longrightarrow> feed_name d"
  by (auto simp: first_domain_def first_some_Some_split Let_def normalize_candidate_name
      split: if_splits sum.splits)

definition counted :: "string list parse_state \<Rightarrow> bool" where
  "counted st \<longleftrightarrow> pr_seen st = rev (pr_user st) \<and> distinct (pr_user st) \<and>
     ps_valid (pr_stats st) = int (length (pr_user st)) \<and> (\<forall>d \<in> set (pr_user st). feed_name d) \<and>
     0 \<le> ps_invalid (pr_stats st) \<and> 0 \<le> ps_duplicates (pr_stats st) \<and> 0 \<le> ps_skipped (pr_stats st)"

lemma counted_count:
  "counted st \<Longrightarrow> 0 \<le> n \<Longrightarrow> counted (count_invalid n st)"
  "counted st \<Longrightarrow> counted (count_skipped st)"
  by (auto simp: counted_def count_invalid_def count_skipped_def)

lemma counted_add:
  "counted st \<Longrightarrow> feed_name d \<Longrightarrow> counted (fst (add_domain collect d st)) \<and> snd (add_domain collect d st) = None"
  by (auto simp: counted_def add_domain_def collect_def)

lemma text_fields_counted:
  assumes "counted st" "0 \<le> n"
  shows "case text_fields collect fs st anyp valid n of ((st', _, _, n'), e) \<Rightarrow> counted st' \<and> 0 \<le> n' \<and> e = None"
  using assms
proof (induction fs arbitrary: st anyp valid n)
  case (Cons f fs)
  show ?case
  proof (cases "has_prefix f ''#'' \<or> strip_comment (trim_space f) = []")
    case True
    then show ?thesis using Cons by (auto simp: Let_def)
  next
    case False
    show ?thesis
    proof (cases "normalize_candidate (strip_comment (trim_space f))")
      case (Inl e)
      then show ?thesis using Cons.IH [of st "n + 1" True valid] Cons.prems False by (simp add: Let_def)
    next
      case (Inr d)
      obtain st' where a: "add_domain collect d st = (st', None)" "counted st'"
        using counted_add [OF Cons.prems(1) normalize_candidate_name [OF Inr]] by (metis prod.collapse)
      then show ?thesis using Cons.IH [OF a(2) Cons.prems(2)] Inr False by (simp add: Let_def)
    qed
  qed
qed simp

lemma text_line_counted:
  "counted st \<Longrightarrow> counted (fst (text_line collect l st)) \<and> snd (text_line collect l st) = None"
  using text_fields_counted [of st 0 "space_fields (trim_space l)" False False]
  by (auto simp: text_line_def Let_def counted_count split: prod.splits option.splits)

lemma text_lines_counted:
  "counted st \<Longrightarrow> counted (fst (text_lines collect ls st)) \<and> snd (text_lines collect ls st) = None"
proof (induction ls arbitrary: st)
  case (Cons l ls)
  obtain st' where l: "text_line collect l st = (st', None)" "counted st'"
    using text_line_counted [OF Cons.prems, of l] by (metis prod.collapse)
  then show ?case using Cons.IH [OF l(2)] by simp
qed simp

lemma csv_handle_counted: "counted st \<Longrightarrow> csv_handle collect ev st = Inr st' \<Longrightarrow> counted st'"
  using counted_add [of st] first_domain_name
  by (auto simp: csv_handle_def counted_count split: csv_event.splits if_splits option.splits prod.splits)
     (metis fst_conv)

lemma csv_stream_counted:
  assumes "parse_csv_stream collect r st = Some res" "counted st"
  shows "counted (fst res)"
proof (rule csv_stream_rule [OF assms(1), where I = "\<lambda>r st. counted st"])
  fix st ev and res :: "string list parse_state \<times> err option"
  assume "counted st" "csv_handle collect ev st = Inl res"
  then show "counted (fst res)" using csv_handle_no_error [of collect ev st res] by (simp add: collect_def)
qed (auto intro: csv_handle_counted assms(2))

lemma parse_each_counted:
  assumes "parse_each collect r [] no_stats = Some (st, e)"
  shows "counted st"
proof -
  define r1 where "r1 = after_peek (limit_reader r)"
  have c: "counted \<lparr>pr_stats = no_stats, pr_seen = [], pr_user = []\<rparr>" (is "counted ?st")
    by (simp add: counted_def no_stats_def)
  have "parse_csv_stream collect r1 ?st = Some (st, e) \<or> parse_text_stream collect r1 ?st = (st, e)"
    using assms by (auto simp: parse_each_def Let_def r1_def split: if_splits)
  then show ?thesis
    using csv_stream_counted [OF _ c, of r1 "(st, e)"] text_lines_counted [OF c, of "fst (scan_text r1)"]
    by (auto simp: parse_text_stream_def split: prod.splits option.splits)
qed

text \<open>C24. What \<^verbatim>\<open>Parse\<close> returns: distinct normalised domain names of at least two labels, as many as
  its statistics count as valid, whatever the feed holds.\<close>

theorem parse_domains:
  assumes "parse r = Some (Inr (ds, stats))"
  shows "distinct ds \<and> ps_valid stats = int (length ds) \<and> list_all feed_name ds \<and>
    0 \<le> ps_invalid stats \<and> 0 \<le> ps_duplicates stats \<and> 0 \<le> ps_skipped stats"
proof -
  obtain st where "parse_each collect r [] no_stats = Some (st, None)" "ds = pr_user st" "stats = pr_stats st"
    using assms by (auto simp: parse_def split: option.splits prod.splits)
  then show ?thesis using parse_each_counted [of r st None] by (auto simp: counted_def list_all_iff)
qed

definition sample_feed :: feed_reader where
  "sample_feed = \<lparr>fr_text = ''# feed'' @ [newline] @ ''evil.vn https://EVIL.vn/x bad_name'' @ [newline] @ ''a'',
     fr_faults = [], fr_broken = None\<rparr>"

lemma split_on_short: "w \<in> set (split_on d s) \<Longrightarrow> length w \<le> length s"
proof (induction s arbitrary: w)
  case (Cons c s)
  obtain a as where "split_on d s = a # as" using split_on_nonempty [of d s] by (cases "split_on d s") auto
  with Cons show ?case by (fastforce split: if_splits)
qed simp

lemma limit_reader_short: "length (fr_text r) < 4096 \<Longrightarrow> limit_reader r = r"
  by (simp add: limit_reader_def decompressed_limit_def)

definition feed_lines :: "string \<Rightarrow> string list" where
  "feed_lines t = (let raw = split_on newline t in if last raw = [] then butlast raw else raw)"

lemma scan_text_short:
  assumes "length (fr_text r) < 4096" "read_error r = None"
  shows "scan_text r = (map (\<lambda>l. trim_suffix l [carriage]) (feed_lines (fr_text r)), None)"
proof -
  have short: "length l < max_line" if "l \<in> set (feed_lines (fr_text r))" for l
  proof -
    have "l \<in> set (split_on newline (fr_text r))"
      using that by (auto simp: feed_lines_def Let_def dest: in_set_butlastD split: if_splits)
    then show ?thesis using split_on_short [of l newline "fr_text r"] assms by (simp add: max_line_def)
  qed
  have "takeWhile (\<lambda>l. length l < max_line) (feed_lines (fr_text r)) = feed_lines (fr_text r)"
    using short by (simp add: takeWhile_eq_all_conv)
  then show ?thesis using assms(2) by (simp only: scan_text_def Let_def flip: feed_lines_def [unfolded Let_def]) simp
qed

lemma text_feed_short:
  assumes "length (fr_text r) < 4096" "read_error r = None" "\<not> is_probably_csv (fr_text r)"
  shows "parse_each h r u stats = Some (text_lines h
    (map (\<lambda>l. trim_suffix l [carriage]) (feed_lines (fr_text r))) \<lparr>pr_stats = stats, pr_seen = [], pr_user = u\<rparr>)"
proof -
  have "after_peek r = r" using assms by (cases r) (auto simp: after_peek_def read_error_def split: list.splits)
  then show ?thesis
    using assms by (simp add: parse_each_def limit_reader_short Let_def parse_text_stream_def scan_text_short
        split: prod.splits option.splits)
qed

lemma parse_sample: "parse sample_feed = Some (Inr ([''evil.vn''],
    \<lparr>ps_valid = 1, ps_invalid = 2, ps_duplicates = 1, ps_skipped = 1\<rparr>))"
proof -
  have csv: "\<not> is_probably_csv (fr_text sample_feed)" by code_simp
  have ls: "text_lines collect (map (\<lambda>l. trim_suffix l [carriage]) (feed_lines (fr_text sample_feed))) \<lparr>pr_stats = no_stats, pr_seen = [], pr_user = []\<rparr> =
    (\<lparr>pr_stats = \<lparr>ps_valid = 1, ps_invalid = 2, ps_duplicates = 1, ps_skipped = 1\<rparr>,
      pr_seen = [''evil.vn''], pr_user = [''evil.vn'']\<rparr>, None)"
    by code_simp
  have "length (fr_text sample_feed) < 4096" "read_error sample_feed = None"
    by (simp_all add: sample_feed_def read_error_def)
  note short = text_feed_short [OF this csv, where h = collect and u = "[]" and stats = no_stats]
  show ?thesis by (simp add: parse_def short ls)
qed

theorem parse_domains_witness: "distinct [''evil.vn''] \<and> list_all feed_name [''evil.vn'']"
  using parse_domains [OF parse_sample] by blast

subsection \<open>Callbacks that correspond\<close>

text \<open>A run whose callback does not fail is matched by a run with any callback that simulates it:
  the same rows are counted and the same domains delivered.\<close>

definition handler_sim :: "('s \<Rightarrow> 't \<Rightarrow> bool) \<Rightarrow> 's handler \<Rightarrow> 't handler \<Rightarrow> bool" where
  "handler_sim R h h' \<longleftrightarrow>
     (\<forall>u v d u'. R u v \<and> h u d = (u', None) \<longrightarrow> (\<exists>v'. h' v d = (v', None) \<and> R u' v'))"

definition state_sim :: "('s \<Rightarrow> 't \<Rightarrow> bool) \<Rightarrow> 's parse_state \<Rightarrow> 't parse_state \<Rightarrow> bool" where
  "state_sim R a b \<longleftrightarrow> pr_stats a = pr_stats b \<and> pr_seen a = pr_seen b \<and> R (pr_user a) (pr_user b)"

lemma sim_count:
  "state_sim R a b \<Longrightarrow> state_sim R (count_invalid n a) (count_invalid n b)"
  "state_sim R a b \<Longrightarrow> state_sim R (count_skipped a) (count_skipped b)"
  by (simp_all add: state_sim_def count_invalid_def count_skipped_def)

lemma sim_add:
  assumes "handler_sim R h h'" "state_sim R a b" "add_domain h d a = (a', None)"
  shows "\<exists>b'. add_domain h' d b = (b', None) \<and> state_sim R a' b'"
proof (cases "d \<in> set (pr_seen a)")
  case True
  then show ?thesis using assms by (auto simp: add_domain_def state_sim_def)
next
  case False
  then obtain u' where u: "h (pr_user a) d = (u', None)"
    using assms(3) by (auto simp: add_domain_def split: prod.splits)
  then obtain v' where v: "h' (pr_user b) d = (v', None)" "R u' v'"
    using assms(1,2) unfolding handler_sim_def state_sim_def by blast
  show ?thesis using assms(2,3) False u v by (auto simp: add_domain_def state_sim_def)
qed

lemma sim_text_fields:
  assumes "handler_sim R h h'" "state_sim R a b" "text_fields h fs a x y n = ((a', x', y', n'), None)"
  shows "\<exists>b'. text_fields h' fs b x y n = ((b', x', y', n'), None) \<and> state_sim R a' b'"
  using assms(2,3)
proof (induction fs arbitrary: a b x y n)
  case (Cons f fs)
  show ?case
  proof (cases "has_prefix f ''#'' \<or> strip_comment (trim_space f) = []")
    case True
    then show ?thesis using Cons by (auto simp: Let_def split: if_splits)
  next
    case False
    show ?thesis
    proof (cases "normalize_candidate (strip_comment (trim_space f))")
      case (Inl e)
      then show ?thesis using Cons.IH [OF Cons.prems(1), of True y "n + 1"] Cons.prems(2) False
        by (simp add: Let_def)
    next
      case (Inr d)
      obtain a1 where a1: "add_domain h d a = (a1, None)" "text_fields h fs a1 True True n = ((a', x', y', n'), None)"
        using Cons.prems(2) False Inr by (auto simp: Let_def split: prod.splits option.splits)
      obtain b1 where "add_domain h' d b = (b1, None)" "state_sim R a1 b1"
        using sim_add [OF assms(1) Cons.prems(1) a1(1)] by blast
      then show ?thesis using Cons.IH [OF _ a1(2)] False Inr by (simp add: Let_def)
    qed
  qed
qed auto

lemma sim_text_line:
  assumes "handler_sim R h h'" "state_sim R a b" "text_line h l a = (a', None)"
  shows "\<exists>b'. text_line h' l b = (b', None) \<and> state_sim R a' b'"
proof (cases "trim_space l = [] \<or> has_prefix (trim_space l) ''#''")
  case True
  then show ?thesis using assms sim_count by (auto simp: text_line_def Let_def)
next
  case False
  then obtain a1 x y n where a1: "text_fields h (space_fields (trim_space l)) a False False 0 = ((a1, x, y, n), None)"
    using assms(3) by (auto simp: text_line_def Let_def split: prod.splits option.splits)
  then obtain b1 where "text_fields h' (space_fields (trim_space l)) b False False 0 = ((b1, x, y, n), None)"
      "state_sim R a1 b1"
    using sim_text_fields [OF assms(1,2)] by blast
  then show ?thesis using assms(3) False a1 sim_count [of R a1 b1]
    by (auto simp: text_line_def Let_def split: if_splits)
qed

lemma sim_text_lines:
  assumes "handler_sim R h h'" "state_sim R a b" "text_lines h ls a = (a', None)"
  shows "\<exists>b'. text_lines h' ls b = (b', None) \<and> state_sim R a' b'"
  using assms(2,3)
proof (induction ls arbitrary: a b)
  case (Cons l ls)
  obtain a1 where a1: "text_line h l a = (a1, None)" "text_lines h ls a1 = (a', None)"
    using Cons.prems(2) by (auto split: prod.splits option.splits)
  obtain b1 where "text_line h' l b = (b1, None)" "state_sim R a1 b1"
    using sim_text_line [OF assms(1) Cons.prems(1) a1(1)] by blast
  then show ?case using Cons.IH [OF _ a1(2)] by simp
qed auto

lemma sim_handle:
  assumes "handler_sim R h h'" "state_sim R a b"
  shows "csv_handle h ev a = Inr a' \<Longrightarrow> \<exists>b'. csv_handle h' ev b = Inr b' \<and> state_sim R a' b'"
    and "csv_handle h ev a = Inl (a', None) \<Longrightarrow> csv_handle h' ev b = Inl (b, None) \<and> a' = a"
proof -
  show "\<exists>b'. csv_handle h' ev b = Inr b' \<and> state_sim R a' b'" if "csv_handle h ev a = Inr a'"
  proof (cases ev)
    case (Csv_Row row)
    show ?thesis
    proof (cases "row = [] \<or> first_domain row = None")
      case True
      then show ?thesis using that Csv_Row sim_count [OF assms(2)] by (auto simp: csv_handle_def)
    next
      case False
      then obtain d where d: "row \<noteq> []" "first_domain row = Some d" by auto
      then have "add_domain h d a = (a', None)"
        using that Csv_Row by (auto simp: csv_handle_def split: option.splits prod.splits)
      then show ?thesis using sim_add [OF assms] Csv_Row d by (fastforce simp: csv_handle_def)
    qed
  qed (use that sim_count [OF assms(2)] in \<open>auto simp: csv_handle_def\<close>)
  show "csv_handle h' ev b = Inl (b, None) \<and> a' = a" if "csv_handle h ev a = Inl (a', None)"
    using that by (auto simp: csv_handle_def split: csv_event.splits if_splits option.splits prod.splits)
qed

lemma sim_csv_stream:
  assumes "handler_sim R h h'" "state_sim R a b" "parse_csv_stream h r a = Some (a', None)"
  shows "\<exists>b'. parse_csv_stream h' r b = Some (b', None) \<and> state_sim R a' b'"
proof -
  let ?I = "\<lambda>r1 a1. \<exists>b1. state_sim R a1 b1 \<and> parse_csv_stream h' r b = parse_csv_stream h' r1 b1"
  let ?Q = "\<lambda>res. snd res = None \<longrightarrow>
    (\<exists>b'. parse_csv_stream h' r b = Some (b', None) \<and> state_sim R (fst res) b')"
  have "?Q (a', None :: err option)"
  proof (rule csv_stream_rule [OF assms(3), where I = ?I])
    show "?I r a" using assms(2) by blast
  next
    fix r1 a1 ev r2 a2
    assume "?I r1 a1" and n: "csv_next r1 = (ev, r2)" and h: "csv_handle h ev a1 = Inr a2"
    then obtain b1 where b1: "state_sim R a1 b1" "parse_csv_stream h' r b = parse_csv_stream h' r1 b1" by blast
    obtain b2 where b2: "csv_handle h' ev b1 = Inr b2" "state_sim R a2 b2"
      using sim_handle(1) [OF assms(1) b1(1) h] by blast
    have "parse_csv_stream h' r1 b1 = parse_csv_stream h' r2 b2"
      by (subst parse_csv_stream.simps) (simp add: n b2)
    then show "?I r2 a2" using b1 b2 by auto
  next
    fix r1 a1 ev r2 res
    assume "?I r1 a1" and n: "csv_next r1 = (ev, r2)" and h: "csv_handle h ev a1 = Inl res"
    then obtain b1 where b1: "state_sim R a1 b1" "parse_csv_stream h' r b = parse_csv_stream h' r1 b1" by blast
    show "?Q res"
    proof
      assume "snd res = None"
      then have "csv_handle h ev a1 = Inl (fst res, None)" using h by (metis prod.collapse)
      note m = sim_handle(2) [OF assms(1) b1(1) this]
      have "parse_csv_stream h' r1 b1 = Some (b1, None)"
        by (subst parse_csv_stream.simps) (simp add: n m)
      then show "\<exists>b'. parse_csv_stream h' r b = Some (b', None) \<and> state_sim R (fst res) b'"
        using b1 m by auto
    qed
  qed
  then show ?thesis by simp
qed

lemma sim_parse_each:
  assumes "handler_sim R h h'" "R u v" "parse_each h r u stats = Some (a', None)"
  shows "\<exists>b'. parse_each h' r v stats = Some (b', None) \<and> state_sim R a' b'"
proof -
  let ?a = "\<lparr>pr_stats = stats, pr_seen = [], pr_user = u\<rparr>" and ?b = "\<lparr>pr_stats = stats, pr_seen = [], pr_user = v\<rparr>"
  have s: "state_sim R ?a ?b" using assms(2) by (simp add: state_sim_def)
  define r1 where "r1 = after_peek (limit_reader r)"
  show ?thesis
  proof (cases "is_probably_csv (take 4096 (fr_text (limit_reader r)))")
    case True
    then show ?thesis using sim_csv_stream [OF assms(1) s, of r1] assms(3)
      by (simp add: parse_each_def Let_def r1_def)
  next
    case False
    then have "text_lines h (fst (scan_text r1)) ?a = (a', None)" "snd (scan_text r1) = None"
      using assms(3) by (auto simp: parse_each_def Let_def r1_def parse_text_stream_def
        split: prod.splits option.splits)
    then show ?thesis using sim_text_lines [OF assms(1) s] False
      by (fastforce simp: parse_each_def Let_def r1_def parse_text_stream_def split: prod.splits option.splits)
  qed
qed

text \<open>What every call of the callback keeps, a run of the parser keeps.\<close>

lemma text_fields_keeps:
  assumes "\<And>u d. P u \<Longrightarrow> P (fst (h u d))" "P (pr_user a)"
  shows "P (pr_user (fst (fst (text_fields h fs a x y n))))"
  using assms(2)
proof (induction fs arbitrary: a x y n)
  case (Cons f fs)
  have "P (pr_user (fst (add_domain h d a)))" for d
    using assms(1) [OF Cons.prems, of d] Cons.prems by (auto simp: add_domain_def split: prod.splits)
  then show ?case using Cons
    by (auto simp: Let_def split: prod.splits sum.splits option.splits) (metis fst_conv)+
qed simp

lemma text_line_keeps:
  assumes "\<And>u d. P u \<Longrightarrow> P (fst (h u d))" "P (pr_user a)"
  shows "P (pr_user (fst (text_line h l a)))"
  using text_fields_keeps [of P h a "space_fields (trim_space l)" False False 0, OF assms] assms(2)
  by (auto simp: text_line_def Let_def count_skipped_def count_invalid_def split: prod.splits option.splits)

lemma text_lines_keeps:
  assumes "\<And>u d. P u \<Longrightarrow> P (fst (h u d))" "P (pr_user a)"
  shows "P (pr_user (fst (text_lines h ls a)))"
  using assms(2)
proof (induction ls arbitrary: a)
  case (Cons l ls)
  then show ?case using text_line_keeps [of P h a l, OF assms(1)]
    by (auto split: prod.splits option.splits)
qed simp

lemma csv_handle_keeps:
  assumes "\<And>u d. P u \<Longrightarrow> P (fst (h u d))" "P (pr_user a)"
  shows "case csv_handle h ev a of Inl res \<Rightarrow> P (pr_user (fst res)) | Inr b \<Rightarrow> P (pr_user b)"
proof -
  have "P (pr_user (fst (add_domain h d a)))" for d
    using assms(1) [OF assms(2), of d] assms(2) by (auto simp: add_domain_def split: prod.splits)
  then show ?thesis using assms(2)
    by (auto simp: csv_handle_def count_skipped_def count_invalid_def
        split: csv_event.splits option.splits prod.splits) (metis fst_conv)+
qed

lemma parse_each_keeps:
  assumes "\<And>u d. P u \<Longrightarrow> P (fst (h u d))" "P u" "parse_each h r u stats = Some (a, e)"
  shows "P (pr_user a)"
proof -
  let ?a = "\<lparr>pr_stats = stats, pr_seen = [], pr_user = u\<rparr>"
  define r1 where "r1 = after_peek (limit_reader r)"
  have "P (pr_user a)" if "parse_csv_stream h r1 ?a = Some (a, e)"
  proof -
    have "P (pr_user (fst (a, e)))"
    proof (rule csv_stream_rule [OF that, where I = "\<lambda>r a. P (pr_user a)"])
      fix r1 and a1 :: "'a parse_state" and ev
      assume p: "P (pr_user a1)"
      note k = csv_handle_keeps [of P h a1 ev, OF assms(1) p]
      show "P (pr_user a2)" if "csv_handle h ev a1 = Inr a2" for a2 using k that by simp
      show "P (pr_user (fst res))" if "csv_handle h ev a1 = Inl res" for res using k that by simp
    qed (use assms(2) in simp)
    then show ?thesis by simp
  qed
  moreover have "P (pr_user a)" if "parse_text_stream h r1 ?a = (a, e)"
    using that text_lines_keeps [of P h ?a "fst (scan_text r1)", OF assms(1)] assms(2)
    by (auto simp: parse_text_stream_def split: prod.splits option.splits)
  moreover have "parse_csv_stream h r1 ?a = Some (a, e) \<or> parse_text_stream h r1 ?a = (a, e)"
    using assms(3) by (auto simp: parse_each_def Let_def r1_def split: if_splits)
  ultimately show ?thesis by blast
qed

end
