(* ===== verification/Feed_Sync.thy ===== *)
theory Feed_Sync
  imports Feed_Parse Safefile
begin

text \<open>
  \<^verbatim>\<open>internal/feed/sync.go\<close>: a synchronisation reads a source, parses it and adds its domains to a
  set in Redis in batches; in replace mode it fills a staging set and renames it over the live one.
  Parameters are the record \<open>sync_env\<close>: the clock, the HTTP client, the file system below a root,
  gzip, and the constructor of a Redis client.  The deadline of the context is not modelled.
\<close>

record http_feed =
  hf_status :: int
  hf_encoding :: string
  hf_body :: feed_reader

record 'r sync_env =
  se_feed :: feed_env
  se_connect :: "string \<Rightarrow> string \<Rightarrow> int \<Rightarrow> 'r redis_client"
  se_nano :: int
  se_cwd :: string
  se_open_root :: "string \<Rightarrow> string \<Rightarrow> (err \<times> bool) + feed_reader"
  se_fetch :: "string \<Rightarrow> http_feed go_result"
  se_gunzip :: "feed_reader \<Rightarrow> feed_reader go_result"

record sync_options =
  so_source :: string
  so_file_root :: string
  so_max_bytes :: int
  so_redis_addr :: string
  so_redis_password :: string
  so_redis_db :: int
  so_key :: string
  so_dry_run :: bool
  so_replace :: bool
  so_drift_ratio :: real
  so_drift_min :: int
  so_min_writes :: int

definition default_max_feed_bytes :: int where
  "default_max_feed_bytes = 50 * 1024 * 1024"

definition redis_batch_size :: nat where
  "redis_batch_size = 1000"

subsection \<open>Opening a source\<close>

definition wrap_maybe_compressed :: "'r sync_env \<Rightarrow> feed_reader \<Rightarrow> string \<Rightarrow> string \<Rightarrow> feed_reader go_result" where
  "wrap_maybe_compressed env body source contentEncoding =
     (if map lower_char (trim_space contentEncoding) = ''gzip'' \<or> has_suffix (to_lower source) ''.gz''
      then se_gunzip env body else Inr body)"

text \<open>\<^verbatim>\<open>maxBytesReadCloser\<close>: once the limit is used up, every read asks for one more byte and fails
  when it gets one.\<close>

definition limit_read_closer :: "feed_reader \<Rightarrow> int \<Rightarrow> feed_reader" where
  "limit_read_closer r limit =
     (let n = nat limit in
      if length (fr_text r) \<le> n then r
      else r\<lparr>fr_text := take n (fr_text r),
             fr_faults := replicate (length (fr_text r) - n)
               (''feed source exceeds maximum size of '' @ itoa limit @ '' bytes'') @ fr_faults r\<rparr>)"

definition open_source_within :: "'r sync_env \<Rightarrow> string \<Rightarrow> string \<Rightarrow> int \<Rightarrow> feed_reader go_result" where
  "open_source_within env source fileRoot maxBytes0 =
     (let maxBytes = (if maxBytes0 \<le> 0 then default_max_feed_bytes else maxBytes0);
          limited = (\<lambda>res. case res of Inl e \<Rightarrow> Inl e | Inr r \<Rightarrow> Inr (limit_read_closer r maxBytes)) in
      if has_prefix source ''http://'' \<or> has_prefix source ''https://'' then
        (case se_fetch env source of
           Inl e \<Rightarrow> Inl e
         | Inr resp \<Rightarrow>
             if hf_status resp < 200 \<or> 300 \<le> hf_status resp
             then Inl (''feed source returned HTTP '' @ itoa (hf_status resp))
             else limited (wrap_maybe_compressed env (hf_body resp) source (hf_encoding resp)))
      else
        (case relative_within_root (se_cwd env) fileRoot source of
           Inl e \<Rightarrow> Inl e
         | Inr rel \<Rightarrow>
             (case se_open_root env fileRoot rel of
                Inl (e, missing) \<Rightarrow>
                  Inl (if missing then ''feed source file does not exist: '' @ source else e)
              | Inr file \<Rightarrow> limited (wrap_maybe_compressed env file source []))))"

definition open_source :: "'r sync_env \<Rightarrow> string \<Rightarrow> feed_reader go_result" where
  "open_source env source = open_source_within env source ''./data'' default_max_feed_bytes"

subsection \<open>Batches\<close>

record 'r batch_state =
  bs_batch :: "string list"
  bs_written :: int
  bs_redis :: 'r

definition flush :: "'r redis \<Rightarrow> string \<Rightarrow> 'r batch_state \<Rightarrow> 'r batch_state \<times> err option" where
  "flush c targetKey b =
     (if bs_batch b = [] then (b, None)
      else (case set_add c targetKey (bs_batch b) (bs_redis b) of
          (s, Inl e) \<Rightarrow> (b\<lparr>bs_redis := s\<rparr>, Some e)
        | (s, Inr n) \<Rightarrow> (\<lparr>bs_batch = [], bs_written = bs_written b + n, bs_redis = s\<rparr>, None)))"

definition batch_domain :: "'r redis \<Rightarrow> string \<Rightarrow> 'r batch_state handler" where
  "batch_domain c targetKey b domain =
     (let b' = b\<lparr>bs_batch := bs_batch b @ [domain]\<rparr> in
      if redis_batch_size \<le> length (bs_batch b') then flush c targetKey b' else (b', None))"

definition ignore_domain :: "unit handler" where
  "ignore_domain u domain = (u, None)"

subsection \<open>Synchronising\<close>

definition sync_defaults :: "sync_options \<Rightarrow> sync_options" where
  "sync_defaults o1 =
     (let o2 = (if trim_space (so_key o1) = [] then o1\<lparr>so_key := default_threat_feed_key\<rparr> else o1);
          o3 = (if trim_space (so_file_root o2) = [] then o2\<lparr>so_file_root := ''./data''\<rparr> else o2) in
      if so_max_bytes o3 \<le> 0 then o3\<lparr>so_max_bytes := default_max_feed_bytes\<rparr> else o3)"

definition sync_fail ::
  "'r sync_env \<Rightarrow> 'r redis \<Rightarrow> sync_options \<Rightarrow> 'r \<Rightarrow> err \<Rightarrow> 'r \<times> sync_report go_result" where
  "sync_fail env c opts s e =
     (case c of
        None \<Rightarrow> (s, Inl e)
      | Some _ \<Rightarrow> (fst (record_sync_failure (se_feed env) c (so_key opts) (so_source opts) e s), Inl e))"

definition sync_report0 :: "'r sync_env \<Rightarrow> sync_options \<Rightarrow> sync_report" where
  "sync_report0 env opts =
     \<lparr>sr_source = so_source opts, sr_key = so_key opts, sr_dry_run = so_dry_run opts,
      sr_replace = so_replace opts, sr_stats = no_stats, sr_written = 0, sr_redis_addr = [],
      sr_finished = fe_format (se_feed env) (fe_now (se_feed env)), sr_drift = False,
      sr_drift_reason = [], sr_invalidated = False, sr_revision = 0\<rparr>"

definition with_stats :: "'r sync_env \<Rightarrow> sync_options \<Rightarrow> parse_stats \<Rightarrow> sync_report \<Rightarrow> sync_report" where
  "with_stats env opts stats r =
     (case parser_drift_status (se_feed env) stats (so_drift_ratio opts) (so_drift_min opts) of
        (drift, reason) \<Rightarrow> r\<lparr>sr_stats := stats, sr_drift := drift, sr_drift_reason := reason\<rparr>)"

definition staging_key_of :: "'r sync_env \<Rightarrow> sync_options \<Rightarrow> string" where
  "staging_key_of env opts =
     (if so_replace opts then so_key opts @ '':staging:'' @ itoa (se_nano env) else [])"

definition drop_staging :: "'r redis \<Rightarrow> string \<Rightarrow> 'r \<Rightarrow> 'r" where
  "drop_staging c stagingKey s = (if stagingKey \<noteq> [] then fst (redis_delete c stagingKey s) else s)"

text \<open>The publication of a staged set: a rename, or a deletion when the feed had no domain.\<close>

definition publish :: "'r redis \<Rightarrow> string \<Rightarrow> string \<Rightarrow> parse_stats \<Rightarrow> 'r \<Rightarrow> 'r \<times> err option" where
  "publish c stagingKey key stats s =
     (if stagingKey = [] then (s, None)
      else
        (case (if ps_valid stats = 0 then redis_delete c key s else redis_rename c stagingKey key s) of
           (s', Inl e) \<Rightarrow> (drop_staging c stagingKey s', Some e)
         | (s', Inr _) \<Rightarrow> (if ps_valid stats = 0 then drop_staging c stagingKey s' else s', None)))"

text \<open>The revision and the status, after the set has been written.\<close>

definition record_report ::
  "'r sync_env \<Rightarrow> 'r redis \<Rightarrow> sync_options \<Rightarrow> sync_report \<Rightarrow> 'r \<Rightarrow> 'r \<times> sync_report go_result" where
  "record_report env c opts r s =
     (case record_sync_success (se_feed env) c r s of
        (s', Inl e) \<Rightarrow> sync_fail env c opts s' e
      | (s', Inr _) \<Rightarrow> (s', Inr r))"

definition finish_sync ::
  "'r sync_env \<Rightarrow> 'r redis \<Rightarrow> sync_options \<Rightarrow> sync_report \<Rightarrow> 'r \<Rightarrow> 'r \<times> sync_report go_result" where
  "finish_sync env c opts r s =
     (if cache_invalidation_min_writes (so_min_writes opts) \<le> sr_written r \<or> sr_replace r then
        (case increment c (revision_key (so_key opts)) s of
           (s', Inl e) \<Rightarrow> sync_fail env c opts s' e
         | (s', Inr revision) \<Rightarrow>
             record_report env c opts (r\<lparr>sr_invalidated := True, sr_revision := revision\<rparr>) s')
      else
        (case get_int64 c (revision_key (so_key opts)) s of
           Inl _ \<Rightarrow> record_report env c opts r s
         | Inr revision \<Rightarrow> record_report env c opts (r\<lparr>sr_revision := revision\<rparr>) s))"

definition store_feed ::
  "'r sync_env \<Rightarrow> 'r redis \<Rightarrow> sync_options \<Rightarrow> feed_reader \<Rightarrow> 'r \<Rightarrow> ('r \<times> sync_report go_result) option" where
  "store_feed env c opts reader s =
     (let stagingKey = staging_key_of env opts;
          targetKey = (if so_replace opts then stagingKey else so_key opts);
          abandon = (\<lambda>s e. sync_fail env c opts (drop_staging c stagingKey s) e) in
      case parse_each (batch_domain c targetKey) reader \<lparr>bs_batch = [], bs_written = 0, bs_redis = s\<rparr> no_stats of
        None \<Rightarrow> None
      | Some (st, Some e) \<Rightarrow> Some (abandon (bs_redis (pr_user st)) e)
      | Some (st, None) \<Rightarrow>
          (case flush c targetKey (pr_user st) of
             (b, Some e) \<Rightarrow> Some (abandon (bs_redis b) e)
           | (b, None) \<Rightarrow>
               (case publish c stagingKey (so_key opts) (pr_stats st) (bs_redis b) of
                  (s', Some e) \<Rightarrow> Some (sync_fail env c opts s' e)
                | (s', None) \<Rightarrow>
                    Some (finish_sync env c opts
                      (with_stats env opts (pr_stats st)
                        ((sync_report0 env opts)
                           \<lparr>sr_written := bs_written b, sr_redis_addr := so_redis_addr opts\<rparr>)) s'))))"

text \<open>\<^verbatim>\<open>Sync\<close>; \<^term>\<open>None\<close> when it never returns.\<close>

definition feed_sync ::
  "'r sync_env \<Rightarrow> sync_options \<Rightarrow> 'r \<Rightarrow> ('r \<times> sync_report go_result) option" where
  "feed_sync env opts0 s =
     (if trim_space (so_source opts0) = [] then Some (s, Inl ''feed source is required'')
      else
        let opts = sync_defaults opts0;
            c = (if \<not> so_dry_run opts \<and> trim_space (so_redis_addr opts) \<noteq> []
                 then new_redis (se_connect env) (so_redis_addr opts) (so_redis_password opts) (so_redis_db opts)
                 else None) in
        case open_source_within env (so_source opts) (so_file_root opts) (so_max_bytes opts) of
          Inl e \<Rightarrow> Some (sync_fail env c opts s e)
        | Inr reader \<Rightarrow>
            if so_dry_run opts then
              (case parse_each ignore_domain reader () no_stats of
                 None \<Rightarrow> None
               | Some (st, Some e) \<Rightarrow> Some (sync_fail env c opts s e)
               | Some (st, None) \<Rightarrow> Some (s, Inr (with_stats env opts (pr_stats st) (sync_report0 env opts))))
            else if c = None then Some (sync_fail env c opts s ''redis address is required unless dry-run is set'')
            else store_feed env c opts reader s)"

subsection \<open>Sets of the server\<close>

text \<open>The documented behaviour of the commands on sets, as far as the sets of the other keys and a
  successful command go; a command that fails may or may not have taken effect.  \<open>members\<close> reads a set
  off the server.\<close>

definition redis_sets :: "('r \<Rightarrow> string \<Rightarrow> string set) \<Rightarrow> 'r redis_client \<Rightarrow> bool" where
  "redis_sets members k \<longleftrightarrow>
     (\<forall>key ms s key'. key' \<noteq> key \<longrightarrow> members (fst (rc_sadd k key ms s)) key' = members s key') \<and>
     (\<forall>key ms s n. snd (rc_sadd k key ms s) = Inr n \<longrightarrow>
        members (fst (rc_sadd k key ms s)) key = members s key \<union> set ms \<and>
        n = int (card (set ms - members s key))) \<and>
     (\<forall>key s key'. key' \<noteq> key \<longrightarrow> members (fst (rc_del k key s)) key' = members s key') \<and>
     (\<forall>key s. members (fst (rc_del k key s)) key = {} \<or>
        members (fst (rc_del k key s)) key = members s key \<and> isl (snd (rc_del k key s))) \<and>
     (\<forall>a b s. a \<noteq> b \<longrightarrow> members (fst (rc_rename k a b s)) b = members s a \<or>
        members (fst (rc_rename k a b s)) b = members s b \<and> isl (snd (rc_rename k a b s))) \<and>
     (\<forall>key s key'. key' \<noteq> key \<longrightarrow> members (fst (rc_incr k key s)) key' = members s key') \<and>
     (\<forall>key v t s key'. key' \<noteq> key \<longrightarrow> members (fst (rc_set k key v t s)) key' = members s key')"

lemma redis_sets_rules:
  assumes "redis_sets members k"
  shows "key' \<noteq> key \<Longrightarrow> members (fst (rc_sadd k key ms s)) key' = members s key'"
    and "snd (rc_sadd k key ms s) = Inr n \<Longrightarrow>
      members (fst (rc_sadd k key ms s)) key = members s key \<union> set ms \<and>
      n = int (card (set ms - members s key))"
    and "key' \<noteq> key \<Longrightarrow> members (fst (rc_del k key s)) key' = members s key'"
    and "members (fst (rc_del k key s)) key = {} \<or>
      members (fst (rc_del k key s)) key = members s key \<and> isl (snd (rc_del k key s))"
    and "a \<noteq> b \<Longrightarrow> members (fst (rc_rename k a b s)) b = members s a \<or>
      members (fst (rc_rename k a b s)) b = members s b \<and> isl (snd (rc_rename k a b s))"
    and "key' \<noteq> key \<Longrightarrow> members (fst (rc_incr k key s)) key' = members s key'"
    and "key' \<noteq> key \<Longrightarrow> members (fst (rc_set k key v t s)) key' = members s key'"
  using assms by (auto simp: redis_sets_def)

lemma set_json_members:
  "redis_sets members k \<Longrightarrow> key' \<noteq> key \<Longrightarrow>
     members (fst (set_json enc (Some k) key v ttl s)) key' = members s key'"
  by (auto simp: set_json_def redis_sets_rules(7) split: sum.splits)

subsection \<open>The batches of a run\<close>

text \<open>What the batches have written so far and what is still in the batch make up the domains the
  parser has delivered.\<close>

definition batched :: "('r \<Rightarrow> string \<Rightarrow> string set) \<Rightarrow> string \<Rightarrow> 'r batch_state \<Rightarrow> string list \<Rightarrow> bool" where
  "batched members t u ds \<longleftrightarrow>
     (\<exists>w. ds = w @ bs_batch u \<and> members (bs_redis u) t = set w \<and>
        bs_written u = int (length w))"

lemma flush_batched:
  assumes "redis_sets members k" "batched members t u ds" "flush (Some k) t u = (u', None)" "distinct ds"
  shows "batched members t u' ds \<and> bs_batch u' = []"
proof (cases "bs_batch u = []")
  case True
  then show ?thesis using assms by (auto simp: flush_def)
next
  case False
  obtain w where w: "ds = w @ bs_batch u" "members (bs_redis u) t = set w" "bs_written u = int (length w)"
    using assms(2,4) by (auto simp: batched_def)
  obtain s n where s: "rc_sadd k t (bs_batch u) (bs_redis u) = (s, Inr n)"
      "u' = \<lparr>bs_batch = [], bs_written = bs_written u + n, bs_redis = s\<rparr>"
    using assms(3) False by (auto simp: flush_def set_add_def split: prod.splits sum.splits)
  have "set (bs_batch u) - set w = set (bs_batch u)" using assms(4) w(1) by auto
  moreover have "card (set (bs_batch u)) = length (bs_batch u)"
    using assms(4) w(1) by (simp add: distinct_card)
  ultimately have "members s t = set ds" "n = int (length (bs_batch u))"
    using redis_sets_rules(2) [OF assms(1), of t "bs_batch u" "bs_redis u" n] s(1) w by auto
  then show ?thesis using s w by (auto simp: batched_def)
qed

lemma batch_domain_sim:
  assumes "redis_sets members k"
  shows "handler_sim (\<lambda>u ds. distinct ds \<longrightarrow> batched members t u ds) (batch_domain (Some k) t) collect"
  unfolding handler_sim_def collect_def
proof (intro allI impI)
  fix u ds d u'
  assume a: "(distinct ds \<longrightarrow> batched members t u ds) \<and> batch_domain (Some k) t u d = (u', None)"
  let ?u = "u\<lparr>bs_batch := bs_batch u @ [d]\<rparr>"
  have "batched members t u' (ds @ [d])" if "distinct (ds @ [d])"
  proof -
    have b: "batched members t ?u (ds @ [d])" using a that by (auto simp: batched_def)
    show ?thesis using a flush_batched [OF assms b _ that] b
      by (auto simp: batch_domain_def Let_def split: if_splits)
  qed
  then show "\<exists>v'. (ds @ [d], None) = (v', None) \<and> (distinct v' \<longrightarrow> batched members t u' v')" by simp
qed

lemma batch_domain_other:
  assumes "redis_sets members k" "key \<noteq> t"
  shows "members (bs_redis (fst (flush (Some k) t u))) key = members (bs_redis u) key"
    and "members (bs_redis (fst (batch_domain (Some k) t u d))) key = members (bs_redis u) key"
proof -
  show f: "members (bs_redis (fst (flush (Some k) t u))) key = members (bs_redis u) key" for u
    by (simp add: flush_def set_add_def case_prod_beta redis_sets_rules(1) [OF assms] split: sum.splits)
  show "members (bs_redis (fst (batch_domain (Some k) t u d))) key = members (bs_redis u) key"
    by (simp add: batch_domain_def Let_def f)
qed

subsection \<open>Publishing\<close>

lemma drop_staging_other:
  "redis_sets members k \<Longrightarrow> key \<noteq> t \<Longrightarrow> members (drop_staging (Some k) t s) key = members s key"
  by (simp add: drop_staging_def redis_delete_def redis_sets_rules(3))

lemma publish_members:
  assumes "redis_sets members k" "t \<noteq> []" "t \<noteq> key" "publish (Some k) t key stats s = (s', e)"
  shows "members s' key = (if ps_valid stats = 0 then {} else members s t) \<or>
    members s' key = members s key \<and> e \<noteq> None"
proof (cases "ps_valid stats = 0")
  case True
  obtain s1 r where d: "rc_del k key s = (s1, r)" by fastforce
  have "members s1 key = {} \<or> members s1 key = members s key \<and> (\<exists>e. r = Inl e)"
    using redis_sets_rules(4) [OF assms(1), of key s] d by (simp add: isl_iff)
  moreover have "members s' key = members s1 key" "(\<exists>e. r = Inl e) \<longleftrightarrow> e \<noteq> None"
    using assms(2-4) True d drop_staging_other [OF assms(1) assms(3) [symmetric]]
    by (auto simp: publish_def redis_delete_def split: sum.splits)
  ultimately show ?thesis using True by auto
next
  case False
  obtain s1 r where d: "rc_rename k t key s = (s1, r)" by fastforce
  have "members s1 key = members s t \<or> members s1 key = members s key \<and> (\<exists>e. r = Inl e)"
    using redis_sets_rules(5) [OF assms(1,3), of s] d by (simp add: isl_iff)
  moreover have "members s' key = members s1 key" "(\<exists>e. r = Inl e) \<longleftrightarrow> e \<noteq> None"
    using assms(2-4) False d drop_staging_other [OF assms(1) assms(3) [symmetric]]
    by (auto simp: publish_def redis_rename_def split: sum.splits)
  ultimately show ?thesis using False by auto
qed

text \<open>The status and revision keys of a feed are not its set.\<close>

lemma feed_keys:
  assumes "trim_space key = key" "key \<noteq> []"
  shows "revision_key key \<noteq> key" "status_key env key source \<noteq> key"
  using assms by (simp_all add: revision_key_def status_key_def normalized_feed_key_def Let_def)

lemma sync_fail_members:
  assumes "redis_sets members k" "trim_space (so_key opts) = so_key opts" "so_key opts \<noteq> []"
  shows "members (fst (sync_fail env (Some k) opts s e)) (so_key opts) = members s (so_key opts)"
    and "isl (snd (sync_fail env (Some k) opts s e))"
  using set_json_members [OF assms(1) feed_keys(2) [OF assms(2,3), symmetric]]
  by (simp_all add: sync_fail_def record_sync_failure_def redis_enabled_def Let_def)

lemma record_report_members:
  assumes "redis_sets members k" "trim_space (so_key opts) = so_key opts" "so_key opts \<noteq> []"
    "sr_key r = so_key opts"
  shows "members (fst (record_report env (Some k) opts r s)) (so_key opts) = members s (so_key opts)"
    and "snd (record_report env (Some k) opts r s) = Inr rep \<Longrightarrow> rep = r"
proof -
  have "members (fst (record_sync_success (se_feed env) (Some k) r s)) (so_key opts) = members s (so_key opts)"
    using set_json_members [OF assms(1) feed_keys(2) [OF assms(2,3), symmetric]] assms(4)
    by (simp add: record_sync_success_def redis_enabled_def)
  then show "members (fst (record_report env (Some k) opts r s)) (so_key opts) = members s (so_key opts)"
    by (simp add: record_report_def case_prod_beta sync_fail_members(1) [OF assms(1,2,3)] split: sum.splits)
  show "rep = r" if "snd (record_report env (Some k) opts r s) = Inr rep"
    using that sync_fail_members(2) [OF assms(1,2,3)]
    by (auto simp: record_report_def case_prod_beta isl_iff split: sum.splits) (metis sum.distinct(1))
qed

lemma finish_sync_members:
  assumes "redis_sets members k" "trim_space (so_key opts) = so_key opts" "so_key opts \<noteq> []"
    "sr_key r = so_key opts"
  shows "members (fst (finish_sync env (Some k) opts r s)) (so_key opts) = members s (so_key opts)"
    and "snd (finish_sync env (Some k) opts r s) = Inr rep \<Longrightarrow>
      sr_stats rep = sr_stats r \<and> sr_written rep = sr_written r \<and> (sr_replace r \<longrightarrow> sr_invalidated rep)"
proof -
  note keys = feed_keys [OF assms(2,3)]
  note fail = sync_fail_members [OF assms(1,2,3)]
  note report = record_report_members [OF assms(1,2,3)]
  have "members (fst (rc_incr k (revision_key (so_key opts)) s)) (so_key opts) = members s (so_key opts)"
    by (rule redis_sets_rules(6) [OF assms(1) keys(1) [symmetric]])
  then show "members (fst (finish_sync env (Some k) opts r s)) (so_key opts) = members s (so_key opts)"
    using assms(4)
    by (simp add: finish_sync_def increment_def case_prod_beta fail(1) report(1) split: sum.splits)
  show "sr_stats rep = sr_stats r \<and> sr_written rep = sr_written r \<and> (sr_replace r \<longrightarrow> sr_invalidated rep)"
    if "snd (finish_sync env (Some k) opts r s) = Inr rep"
    using that fail(2) assms(4)
    by (auto simp: finish_sync_def case_prod_beta isl_iff dest!: report(2) [rotated] split: sum.splits if_splits)
       (metis sum.distinct(1))+
qed

lemma staging_key:
  "so_replace opts \<Longrightarrow> staging_key_of env opts \<noteq> [] \<and> staging_key_of env opts \<noteq> so_key opts"
  by (auto simp: staging_key_of_def)

lemma parse_from_each:
  "parse_each collect r [] no_stats = Some (st, None) \<Longrightarrow> parse r = Some (Inr (pr_user st, pr_stats st))"
  by (simp add: parse_def)

text \<open>The set of the feed after an attempt: the old one, and then the attempt failed, or all of the
  parsed feed.\<close>

definition published ::
  "('r \<Rightarrow> string \<Rightarrow> string set) \<Rightarrow> string \<Rightarrow> feed_reader \<Rightarrow> 'r \<Rightarrow> 'r \<Rightarrow> sync_report go_result \<Rightarrow> bool" where
  "published members key reader s s' res \<longleftrightarrow>
     members s' key = members s key \<and> isl res \<or>
     (\<exists>ds stats. parse reader = Some (Inr (ds, stats)) \<and> members s' key = set ds \<and>
        (case res of Inl _ \<Rightarrow> True | Inr rep \<Rightarrow>
           sr_stats rep = stats \<and> sr_written rep = int (length ds) \<and> sr_invalidated rep))"

lemma staged_domains:
  assumes k: "redis_sets members k" and fresh: "members s t = {}"
    and p: "parse_each (batch_domain (Some k) t) reader \<lparr>bs_batch = [], bs_written = 0, bs_redis = s\<rparr> no_stats
      = Some (st, None)"
    and f: "flush (Some k) t (pr_user st) = (b, None)"
  shows "\<exists>ds. parse reader = Some (Inr (ds, pr_stats st)) \<and> members (bs_redis b) t = set ds \<and>
    bs_written b = int (length ds) \<and> ps_valid (pr_stats st) = int (length ds)"
proof -
  have start: "distinct ([] :: string list) \<longrightarrow>
      batched members t \<lparr>bs_batch = [], bs_written = 0, bs_redis = s\<rparr> []"
    using fresh by (simp add: batched_def)
  obtain st2 where st2: "parse_each collect reader [] no_stats = Some (st2, None)"
      "state_sim (\<lambda>u ds. distinct ds \<longrightarrow> batched members t u ds) st st2"
    using sim_parse_each [OF batch_domain_sim [OF k] start p] by blast
  define ds where "ds = pr_user st2"
  have "counted st2" using parse_each_counted [OF st2(1)] .
  then have d: "distinct ds" "ps_valid (pr_stats st) = int (length ds)" "pr_stats st2 = pr_stats st"
    using st2(2) by (auto simp: counted_def ds_def state_sim_def)
  have "batched members t (pr_user st) ds" using st2(2) d by (simp add: state_sim_def ds_def)
  then have "members (bs_redis b) t = set ds" "bs_written b = int (length ds)"
    using flush_batched [OF k _ f d(1)] by (auto simp: batched_def)
  moreover have "parse reader = Some (Inr (ds, pr_stats st))"
    using parse_from_each [OF st2(1)] d by (simp add: ds_def)
  ultimately show ?thesis using d by blast
qed

lemma store_feed_published:
  assumes k: "redis_sets members k" and key: "trim_space (so_key opts) = so_key opts" "so_key opts \<noteq> []"
    and rep: "so_replace opts" and fresh: "members s (staging_key_of env opts) = {}"
    and run: "store_feed env (Some k) opts reader s = Some (s', res)"
  shows "published members (so_key opts) reader s s' res"
proof -
  define t where "t = staging_key_of env opts"
  have t: "t \<noteq> []" "t \<noteq> so_key opts" using staging_key [OF rep] by (auto simp: t_def)
  note fail = sync_fail_members [OF k key]
  note other = batch_domain_other [OF k t(2) [symmetric]]
  have failed: "published members (so_key opts) reader s s' res"
    if "sync_fail env (Some k) opts (drop_staging (Some k) t s1) msg = (s', res)"
      "members s1 (so_key opts) = members s (so_key opts)" for s1 msg
    using that fail drop_staging_other [OF k t(2) [symmetric]]
    unfolding published_def by (metis fst_conv snd_conv)
  obtain st e where p: "parse_each (batch_domain (Some k) t) reader
      \<lparr>bs_batch = [], bs_written = 0, bs_redis = s\<rparr> no_stats = Some (st, e)"
    using run rep by (auto simp: store_feed_def t_def Let_def split: option.splits)
  have live: "members (bs_redis (pr_user st)) (so_key opts) = members s (so_key opts)"
    using parse_each_keeps [where P = "\<lambda>u. members (bs_redis u) (so_key opts) = members s (so_key opts)",
      OF _ _ p] other(2) by simp
  obtain b fe where f: "flush (Some k) t (pr_user st) = (b, fe)" by fastforce
  have liveb: "members (bs_redis b) (so_key opts) = members s (so_key opts)"
    using other(1) [of "pr_user st"] f live by simp
  obtain s1 pe where pub: "publish (Some k) t (so_key opts) (pr_stats st) (bs_redis b) = (s1, pe)" by fastforce
  show ?thesis
  proof (cases "e = None \<and> fe = None")
    case False
    then show ?thesis using failed [OF _ live] failed [OF _ liveb] run rep p f
      by (cases e; cases fe) (simp_all add: store_feed_def t_def Let_def)
  next
    case True
    obtain ds where ds: "parse reader = Some (Inr (ds, pr_stats st))" "members (bs_redis b) t = set ds"
        "bs_written b = int (length ds)" "ps_valid (pr_stats st) = int (length ds)"
      using staged_domains [OF k] f True fresh p t_def by metis
    have p1: "members s1 (so_key opts) = set ds \<or> members s1 (so_key opts) = members s (so_key opts) \<and> pe \<noteq> None"
      using publish_members [OF k t pub] ds liveb by (auto split: if_splits)
    let ?r = "with_stats env opts (pr_stats st)
      ((sync_report0 env opts)\<lparr>sr_written := bs_written b, sr_redis_addr := so_redis_addr opts\<rparr>)"
    have r: "sr_key ?r = so_key opts" "sr_stats ?r = pr_stats st" "sr_written ?r = int (length ds)" "sr_replace ?r"
      using rep ds by (simp_all add: with_stats_def sync_report0_def split: prod.splits)
    have out: "(s', res) = (case pe of Some msg \<Rightarrow> sync_fail env (Some k) opts s1 msg
        | None \<Rightarrow> finish_sync env (Some k) opts ?r s1)"
      using run rep p f True pub by (simp add: store_feed_def t_def Let_def split: option.splits)
    show ?thesis
    proof (cases pe)
      case (Some msg)
      then show ?thesis using p1 ds(1) out fail [of env s1 msg]
        by (auto simp: published_def isl_iff prod_eq_iff)
    next
      case None
      then show ?thesis using finish_sync_members [OF k key r(1), of env s1] r p1 ds(1) out
        by (auto simp: published_def prod_eq_iff split: sum.splits)
    qed
  qed
qed

subsection \<open>The claims\<close>


text \<open>A server whose state is its sets, for the witness.\<close>

definition set_client :: "(string \<Rightarrow> string set) redis_client" where
  "set_client =
     \<lparr>rc_get = (\<lambda>key s. Inr None),
      rc_set = (\<lambda>key v ttl s. (s, Inr ())),
      rc_incr = (\<lambda>key s. (s, Inr 1)),
      rc_del = (\<lambda>key s. (s(key := {}), Inr ())),
      rc_rename = (\<lambda>a b s. (s(b := s a, a := {}), Inr ())),
      rc_sadd = (\<lambda>key ms s. (s(key := s key \<union> set ms), Inr (int (card (set ms - s key))))),
      rc_sismember = (\<lambda>key m s. Inr (m \<in> s key)),
      rc_push_trim = (\<lambda>key v n s. (s, Inl [])),
      rc_lrange = (\<lambda>key a b s. Inr []),
      rc_ping = (\<lambda>s. Inr ())\<rparr>"

lemma set_client_laws: "redis_sets (\<lambda>s. s) set_client"
  by (auto simp: redis_sets_def set_client_def)

definition plain_feed_env :: feed_env where
  "plain_feed_env = \<lparr>fe_now = 0, fe_format = itoa, fe_parse_time = atoi, fe_duration = itoa,
     fe_sha256 = (\<lambda>s. s), fe_percent = (\<lambda>_. []), fe_encode = (\<lambda>_. Inr []), fe_decode = (\<lambda>st _. (st, None))\<rparr>"

definition plain_sync_env :: "feed_reader \<Rightarrow> (string \<Rightarrow> string set) sync_env" where
  "plain_sync_env body = \<lparr>se_feed = plain_feed_env, se_connect = (\<lambda>_ _ _. set_client), se_nano = 7,
     se_cwd = ''/srv'', se_open_root = (\<lambda>_ _. Inl ([], True)),
     se_fetch = (\<lambda>_. Inr \<lparr>hf_status = 200, hf_encoding = [], hf_body = body\<rparr>), se_gunzip = Inr\<rparr>"

definition plain_options :: sync_options where
  "plain_options = \<lparr>so_source = ''https://f.vn'', so_file_root = ''d'', so_max_bytes = 100, so_redis_addr = ''r'',
     so_redis_password = [], so_redis_db = 0, so_key = ''feed'', so_dry_run = False, so_replace = True,
     so_drift_ratio = 1 / 2, so_drift_min = 5, so_min_writes = 1\<rparr>"

lemma sample_parts:
  "map (\<lambda>l. trim_suffix l [carriage]) (feed_lines (fr_text sample_feed)) =
     [''# feed'', ''evil.vn https://EVIL.vn/x bad_name'', ''a'']"
  "trim_space ''# feed'' = ''# feed''" "trim_space ''a'' = ''a''" "space_fields ''a'' = [''a'']"
  "trim_space ''evil.vn https://EVIL.vn/x bad_name'' = ''evil.vn https://EVIL.vn/x bad_name''"
  "space_fields ''evil.vn https://EVIL.vn/x bad_name'' = [''evil.vn'', ''https://EVIL.vn/x'', ''bad_name'']"
  "strip_comment (trim_space ''evil.vn'') = ''evil.vn''" "strip_comment (trim_space ''bad_name'') = ''bad_name''"
  "strip_comment (trim_space ''https://EVIL.vn/x'') = ''https://EVIL.vn/x''" "strip_comment ''a'' = ''a''"
  "normalize_candidate ''evil.vn'' = Inr ''evil.vn''" "normalize_candidate ''https://EVIL.vn/x'' = Inr ''evil.vn''"
  "isl (normalize_candidate ''bad_name'')" "isl (normalize_candidate ''a'')"
  by code_simp+

lemma feed_sample_run:
  "text_lines (batch_domain c t) (map (\<lambda>l. trim_suffix l [carriage]) (feed_lines (fr_text sample_feed)))
     \<lparr>pr_stats = no_stats, pr_seen = [], pr_user = \<lparr>bs_batch = [], bs_written = 0, bs_redis = s\<rparr>\<rparr> =
   (\<lparr>pr_stats = \<lparr>ps_valid = 1, ps_invalid = 2, ps_duplicates = 1, ps_skipped = 1\<rparr>,
     pr_seen = [''evil.vn''], pr_user = \<lparr>bs_batch = [''evil.vn''], bs_written = 0, bs_redis = s\<rparr>\<rparr>, None)"
proof -
  obtain e1 e2 where "normalize_candidate ''bad_name'' = Inl e1" "normalize_candidate ''a'' = Inl e2"
    using sample_parts(13,14) by (auto simp: isl_iff)
  then show ?thesis
    by (simp add: sample_parts text_line_def count_skipped_def count_invalid_def add_domain_def
        batch_domain_def redis_batch_size_def no_stats_def Let_def)
qed

text \<open>On that server nothing fails once the source is parsed.\<close>

lemma set_client_store:
  assumes "parse_each (batch_domain (Some set_client) (staging_key_of env opts)) reader
      \<lparr>bs_batch = [], bs_written = 0, bs_redis = s\<rparr> no_stats = Some (st, None)"
    and "so_replace opts" "\<And>x. fe_encode (se_feed env) x = Inr []"
  shows "\<exists>s' rep. store_feed env (Some set_client) opts reader s = Some (s', Inr rep)"
proof -
  let ?t = "staging_key_of env opts"
  have "snd (flush (Some set_client) ?t (pr_user st)) = None"
    by (cases "bs_batch (pr_user st)") (simp_all add: flush_def set_add_def set_client_def)
  then obtain b where b: "flush (Some set_client) ?t (pr_user st) = (b, None)" by (metis prod.collapse)
  have "snd (publish (Some set_client) ?t (so_key opts) (pr_stats st) (bs_redis b)) = None"
    by (simp add: publish_def redis_delete_def redis_rename_def set_client_def)
  then obtain s1 where s1: "publish (Some set_client) ?t (so_key opts) (pr_stats st) (bs_redis b) = (s1, None)"
    by (metis prod.collapse)
  have "\<exists>s' rep. record_report env (Some set_client) opts r s = (s', Inr rep)" for r s
    using assms(3) by (simp add: record_report_def record_sync_success_def redis_enabled_def set_json_def set_client_def)
  then have "\<exists>s' rep. finish_sync env (Some set_client) opts r s = (s', Inr rep)" if "sr_replace r" for r s
    using that by (simp add: finish_sync_def increment_def set_client_def)
  moreover have "sr_replace (with_stats env opts x ((sync_report0 env opts)\<lparr>sr_written := n, sr_redis_addr := a\<rparr>))"
    for x n a using assms(2) by (simp add: with_stats_def sync_report0_def split: prod.splits)
  ultimately show ?thesis
    using assms(1,2) b s1 by (simp add: store_feed_def Let_def)
qed

lemma sample_sync:
  "\<exists>s' rep. feed_sync (plain_sync_env sample_feed) plain_options (\<lambda>_. {}) = Some (s', Inr rep)"
proof -
  have short: "limit_read_closer sample_feed 100 = sample_feed"
    by (simp add: limit_read_closer_def sample_feed_def)
  have eof: "length (fr_text sample_feed) < 4096" "read_error sample_feed = None"
    by (simp_all add: sample_feed_def read_error_def)
  have csv: "\<not> is_probably_csv (fr_text sample_feed)" by code_simp
  have src: "trim_space ''https://f.vn'' \<noteq> []" "trim_space ''r'' \<noteq> []" "trim_space ''feed'' = ''feed''"
      "trim_space ''d'' \<noteq> []" "trim_space [] = []" "\<not> has_suffix (to_lower ''https://f.vn'') ''.gz''"
    by code_simp+
  have o: "sync_defaults plain_options = plain_options"
    by (simp add: sync_defaults_def plain_options_def src Let_def)
  have op: "open_source_within (plain_sync_env sample_feed) (so_source plain_options) (so_file_root plain_options)
      (so_max_bytes plain_options) = Inr sample_feed"
    by (simp add: open_source_within_def plain_options_def plain_sync_env_def wrap_maybe_compressed_def src short Let_def)
  have p: "\<exists>st. parse_each (batch_domain (Some set_client) t) sample_feed
      \<lparr>bs_batch = [], bs_written = 0, bs_redis = s\<rparr> no_stats = Some (st, None)" for t and s :: "string \<Rightarrow> string set"
    using text_feed_short [OF eof csv, of "batch_domain (Some set_client) t"
        "\<lparr>bs_batch = [], bs_written = 0, bs_redis = s\<rparr>" no_stats] feed_sample_run [of "Some set_client" t s]
    by metis
  have "\<exists>s' rep. store_feed (plain_sync_env sample_feed) (Some set_client) plain_options sample_feed (\<lambda>_. {}) =
      Some (s', Inr rep)"
    using p [of "staging_key_of (plain_sync_env sample_feed) plain_options" "\<lambda>_. {}"]
    by (auto intro!: set_client_store simp: plain_options_def plain_sync_env_def plain_feed_env_def)
  moreover have "feed_sync (plain_sync_env sample_feed) plain_options (\<lambda>_. {}) =
      store_feed (plain_sync_env sample_feed) (Some set_client) plain_options sample_feed (\<lambda>_. {})"
    unfolding feed_sync_def o Let_def op
    by (simp add: plain_options_def src new_redis_def plain_sync_env_def)
  ultimately show ?thesis by simp
qed



definition csv_body :: feed_reader where
  "csv_body = \<lparr>fr_text = ''a.vn,x'' @ [newline] @ ''b.vn,x'', fr_faults = [], fr_broken = None\<rparr>"


end
