(* ===== verification/Observability.thy ===== *)
theory Observability
  imports Auth Go_Net
begin

text \<open>
  \<^verbatim>\<open>internal/observability/metrics.go\<close>, \<^verbatim>\<open>internal/correlation/context.go\<close>,
  \<^verbatim>\<open>internal/serve/requestid.go\<close> and the recovery middleware of \<^verbatim>\<open>internal/serve/http.go\<close>.  A nil
  registry is \<^term>\<open>None\<close>; a context is the pair of identifiers it carries.  Random bytes and the
  formatted time are arguments.
\<close>

subsection \<open>Metrics\<close>

record request_summary =
  su_count :: int
  su_bytes :: int
  su_total_ms :: int
  su_max_ms :: int
  su_last_status :: int

record registry =
  rg_started :: int
  rg_requests :: "string \<rightharpoonup> request_summary"
  rg_counters :: "string \<rightharpoonup> int"

definition new_registry :: "int \<Rightarrow> registry option" where
  "new_registry now = Some \<lparr>rg_started = now, rg_requests = Map.empty, rg_counters = Map.empty\<rparr>"

definition empty_summary :: request_summary where
  "empty_summary = \<lparr>su_count = 0, su_bytes = 0, su_total_ms = 0, su_max_ms = 0, su_last_status = 0\<rparr>"

definition metrics_key :: "string \<Rightarrow> string \<Rightarrow> int \<Rightarrow> string" where
  "metrics_key meth path status = meth @ '' '' @ path @ '' '' @ itoa status"

definition add_observation :: "int \<Rightarrow> int \<Rightarrow> int \<Rightarrow> request_summary \<Rightarrow> request_summary" where
  "add_observation status bytes ms su =
     \<lparr>su_count = su_count su + 1, su_bytes = su_bytes su + bytes, su_total_ms = su_total_ms su + ms,
      su_max_ms = (if su_max_ms su < ms then ms else su_max_ms su), su_last_status = status\<rparr>"

text \<open>\<^verbatim>\<open>Duration.Milliseconds\<close> truncates towards zero; durations are not negative here.\<close>

definition observe :: "string \<Rightarrow> string \<Rightarrow> int \<Rightarrow> int \<Rightarrow> int \<Rightarrow> registry option \<Rightarrow> registry option" where
  "observe meth path status bytes duration reg =
     (case reg of
        None \<Rightarrow> None
      | Some r \<Rightarrow>
          let key = metrics_key meth path status;
              su = (case rg_requests r key of None \<Rightarrow> empty_summary | Some su \<Rightarrow> su) in
          Some (r\<lparr>rg_requests := (rg_requests r)(key \<mapsto> add_observation status bytes (duration div 1000000) su)\<rparr>))"

definition inc_counter :: "string \<Rightarrow> registry option \<Rightarrow> registry option" where
  "inc_counter name reg =
     (case reg of
        None \<Rightarrow> None
      | Some r \<Rightarrow>
          if name = [] then Some r
          else Some (r\<lparr>rg_counters := (rg_counters r)(name \<mapsto>
            (case rg_counters r name of None \<Rightarrow> 0 | Some n \<Rightarrow> n) + 1)\<rparr>))"

record snapshot =
  sn_started :: string
  sn_uptime :: int
  sn_requests :: "string \<rightharpoonup> request_summary"
  sn_counters :: "string \<rightharpoonup> int"

definition take_snapshot :: "(int \<Rightarrow> string) \<Rightarrow> int \<Rightarrow> registry option \<Rightarrow> snapshot" where
  "take_snapshot format now reg =
     (case reg of
        None \<Rightarrow> \<lparr>sn_started = [], sn_uptime = 0, sn_requests = Map.empty, sn_counters = Map.empty\<rparr>
      | Some r \<Rightarrow> \<lparr>sn_started = format (rg_started r), sn_uptime = (now - rg_started r) div 1000000000,
                   sn_requests = rg_requests r, sn_counters = rg_counters r\<rparr>)"

subsection \<open>Correlation identifiers\<close>

definition id_rune :: "int \<Rightarrow> bool" where
  "id_rune r \<longleftrightarrow> (97 \<le> r \<and> r \<le> 122) \<or> (65 \<le> r \<and> r \<le> 90) \<or> (48 \<le> r \<and> r \<le> 57) \<or>
     r \<in> {45, 95, 46, 47}"

definition sanitize_id :: "string \<Rightarrow> string" where
  "sanitize_id v =
     (let value = trim_space v;
          cropped = (if 120 < length value then take 120 value else value) in
      encode_runes (filter id_rune (runes cropped)))"

definition trim_set :: "string \<Rightarrow> string \<Rightarrow> string" where
  "trim_set s cs = rev (dropWhile (\<lambda>c. c \<in> set cs) (rev (dropWhile (\<lambda>c. c \<in> set cs) s)))"

definition new_id :: "string option \<Rightarrow> string \<Rightarrow> string" where
  "new_id random prefix0 =
     (let prefix = trim_set (sanitize_id prefix0) ''-._/'' in
      case random of
        None \<Rightarrow> if prefix = [] then ''safe-road-fallback-id'' else prefix @ ''-fallback-id''
      | Some buf \<Rightarrow>
          let encoded = concat (map hex_of buf) in
          if prefix = [] then encoded else prefix @ ''-'' @ encoded)"

record ctx =
  cx_request_id :: string
  cx_run_id :: string

definition with_request_id :: "string \<Rightarrow> ctx \<Rightarrow> ctx" where
  "with_request_id v c = (let i = sanitize_id v in if i = [] then c else c\<lparr>cx_request_id := i\<rparr>)"

definition with_run_id :: "string \<Rightarrow> ctx \<Rightarrow> ctx" where
  "with_run_id v c = (let i = sanitize_id v in if i = [] then c else c\<lparr>cx_run_id := i\<rparr>)"

text \<open>\<^verbatim>\<open>Fields\<close>: the identifiers override the given fields.\<close>

definition log_fields :: "ctx \<Rightarrow> (string \<rightharpoonup> string) \<Rightarrow> (string \<rightharpoonup> string)" where
  "log_fields c fs =
     (let a = (if cx_request_id c \<noteq> [] then fs(''request_id'' \<mapsto> cx_request_id c) else fs) in
      if cx_run_id c \<noteq> [] then a(''run_id'' \<mapsto> cx_run_id c) else a)"

text \<open>The identifier \<^verbatim>\<open>serve.WithRequestID\<close> gives a request, from its header or a new one.\<close>

definition request_id_of :: "string option \<Rightarrow> string \<Rightarrow> string" where
  "request_id_of random header =
     (let i = sanitize_id header in if i = [] then new_id random ''req'' else i)"

subsection \<open>Recovery\<close>

definition html_escape :: "string \<Rightarrow> string" where
  "html_escape s0 =
     (let s1 = replace_all ''&'' ''&amp;'' s0;
          s2 = replace_all ''<'' ''&lt;'' s1;
          s3 = replace_all ''>'' ''&gt;'' s2;
          s4 = replace_all [CHR 0x22] ''&quot;'' s3 in
      replace_all [CHR 0x27] ''&#39;'' s4)"

text \<open>What a handler does: it answers or it panics with a value that prints as a text.\<close>

datatype 'b handled = Answered int 'b | Panicked string

definition json_error_body :: string where
  "json_error_body = CHR ''{'' # CHR 0x22 # ''error'' @ [CHR 0x22, CHR '':'', CHR 0x22] @
     ''internal server error'' @ [CHR 0x22, CHR ''}'']"

text \<open>The page is its text before and after the message; \<open>accept\<close> is the header and \<open>writes\<close> the number
  of bytes of a body that reach the client.\<close>

definition recovery_page :: "string \<Rightarrow> string \<Rightarrow> string \<Rightarrow> string" where
  "recovery_page before after msg = before @ html_escape msg @ after"

definition wants_html :: "string \<Rightarrow> string \<Rightarrow> bool" where
  "wants_html accept path \<longleftrightarrow> contains accept ''text/html'' \<or> has_prefix path ''/dashboard''"

definition recovery ::
  "string \<Rightarrow> string \<Rightarrow> (string \<Rightarrow> int) \<Rightarrow> string \<Rightarrow> string \<Rightarrow> string \<Rightarrow> int \<Rightarrow> 'b handled \<Rightarrow> registry option \<Rightarrow>
     ((int \<times> 'b) + string) \<times> bool \<times> registry option" where
  "recovery before after writes accept meth path duration res reg =
     (case res of
        Answered status b \<Rightarrow> (Inl (status, b), False, reg)
      | Panicked msg \<Rightarrow>
          let body = (if wants_html accept path then recovery_page before after msg else json_error_body) in
          (Inr body, True, observe meth path 500 (writes body) duration reg))"

text \<open>\<^verbatim>\<open>logRequests\<close> of both commands: a request whose panic was observed is not observed again.\<close>

definition observe_once ::
  "string \<Rightarrow> string \<Rightarrow> int \<Rightarrow> int \<Rightarrow> int \<Rightarrow> bool \<Rightarrow> registry option \<Rightarrow> registry option" where
  "observe_once meth path status bytes duration panicked reg =
     (if panicked then reg else observe meth path status bytes duration reg)"

subsection \<open>Escaping\<close>

text \<open>The entity of a character.\<close>

definition entity :: "char \<Rightarrow> string" where
  "entity c =
     (if c = CHR ''&'' then ''&amp;'' else if c = CHR ''<'' then ''&lt;'' else if c = CHR ''>'' then ''&gt;''
      else if c = CHR 0x22 then ''&quot;'' else if c = CHR 0x27 then ''&#39;'' else [c])"

definition one_char :: "char \<Rightarrow> string \<Rightarrow> char \<Rightarrow> string" where
  "one_char old new c = (if c = old then new else [c])"

lemma replace_all_char: "replace_all [old] new s = concat (map (one_char old new) s)"
  by (induction s) (auto simp: one_char_def has_prefix_def)

lemma replace_all_append: "replace_all [old] new (a @ b) = replace_all [old] new a @ replace_all [old] new b"
  by (simp add: replace_all_char)

lemma html_escape_append: "html_escape (a @ b) = html_escape a @ html_escape b"
  by (simp add: html_escape_def replace_all_append Let_def)

lemma html_escape_char: "html_escape [c] = entity c"
  by (auto simp: html_escape_def entity_def Let_def has_prefix_def)

lemma html_escape_entities: "html_escape s = concat (map entity s)"
proof (induction s)
  case Nil
  show ?case by (simp add: html_escape_def Let_def)
next
  case (Cons c s)
  then show ?case using html_escape_append [of "[c]" s] by (simp add: html_escape_char)
qed

text \<open>Reading entities back.\<close>

fun html_unescape :: "nat \<Rightarrow> string \<Rightarrow> string" where
  "html_unescape 0 s = []"
| "html_unescape (Suc n) s =
     (case first_some (\<lambda>(e, c). if has_prefix s e then Some (e, c) else None)
         [(''&amp;'', CHR ''&''), (''&lt;'', CHR ''<''), (''&gt;'', CHR ''>''), (''&quot;'', CHR 0x22), (''&#39;'', CHR 0x27)] of
        Some (e, c) \<Rightarrow> c # html_unescape n (drop (length e) s)
      | None \<Rightarrow> (case s of [] \<Rightarrow> [] | c # t \<Rightarrow> c # html_unescape n t))"

lemma html_unescape_entity: "html_unescape (Suc n) (entity c @ t) = c # html_unescape n t"
  by (auto simp: entity_def has_prefix_def)

lemma html_unescape_escape: "length s \<le> n \<Longrightarrow> html_unescape n (html_escape s) = s"
proof (induction s arbitrary: n)
  case Nil
  then show ?case by (cases n) (auto simp: html_escape_entities has_prefix_def)
next
  case (Cons c s)
  then obtain m where "n = Suc m" "length s \<le> m" by (cases n) auto
  then show ?case using Cons.IH by (simp add: html_escape_entities html_unescape_entity del: html_unescape.simps)
qed

text \<open>The page shown after a panic escapes its message: no character of the message is left that
  could open a tag or close an attribute, and the message can be read back from the page.\<close>

lemma error_page_escapes:
  "html_escape s = concat (map entity s) \<and>
   set (html_escape s) \<inter> {CHR ''<'', CHR ''>'', CHR 0x22, CHR 0x27} = {} \<and>
   html_unescape (length s) (html_escape s) = s"
proof -
  have "set (entity c) \<inter> {CHR ''<'', CHR ''>'', CHR 0x22, CHR 0x27} = {}" for c
    by (auto simp: entity_def)
  then have "set (html_escape s) \<inter> {CHR ''<'', CHR ''>'', CHR 0x22, CHR 0x27} = {}"
    by (auto simp: html_escape_entities)
  then show ?thesis by (simp add: html_unescape_escape) (rule html_escape_entities)
qed

subsection \<open>Identifiers\<close>

lemma id_rune_encode:
  assumes "id_rune r"
  shows "encode_rune r = [char_of r] \<and> 0 \<le> r \<and> r < 128 \<and> byte_of (char_of r) = r"
proof -
  have r: "0 \<le> r" "r < 128" using assms by (auto simp: id_rune_def)
  then have "byte_of (char_of r) = r" by (simp add: byte_of_def)
  then show ?thesis using encode_rune_ascii r by blast
qed

definition id_char :: "char \<Rightarrow> bool" where
  "id_char c \<longleftrightarrow> id_rune (byte_of c)"

lemma encode_ids: "list_all id_rune rs \<Longrightarrow>
    length (encode_runes rs) = length rs \<and> list_all id_char (encode_runes rs)"
  by (induction rs) (simp_all add: encode_runes_def id_rune_encode id_char_def)

lemma id_char_ascii: "id_char c \<Longrightarrow> byte_of c < 128"
  by (auto simp: id_char_def id_rune_def)

lemma sanitize_id_shape: "list_all id_char (sanitize_id v) \<and> length (sanitize_id v) \<le> 120"
proof -
  define w where "w = (if 120 < length (trim_space v) then take 120 (trim_space v) else trim_space v)"
  have "length (filter id_rune (runes w)) \<le> length (runes w)" by (rule length_filter_le)
  also have "... \<le> length w" by (rule length_runes)
  also have "... \<le> 120" by (simp add: w_def)
  finally have "length (filter id_rune (runes w)) \<le> 120" .
  moreover have "list_all id_rune (filter id_rune (runes w))" by (simp add: list_all_iff)
  moreover have "sanitize_id v = encode_runes (filter id_rune (runes w))"
    by (simp add: sanitize_id_def w_def Let_def)
  ultimately show ?thesis using encode_ids [of "filter id_rune (runes w)"] by simp
qed

lemma id_char_not_space: "id_char c \<Longrightarrow> \<not> ascii_space c"
  by (auto simp: id_char_def id_rune_def ascii_space_def byte_of_def)

lemma sanitize_id_id:
  assumes "list_all id_char s" "length s \<le> 120"
  shows "sanitize_id s = s"
proof -
  have a: "is_ascii s" using assms(1) by (auto simp: is_ascii_def list_all_iff id_char_ascii)
  have "trim_space s = s"
    using assms(1) a by (intro trim_space_id) (auto simp: list_all_iff id_char_not_space)
  moreover have "filter id_rune (map byte_of s) = map byte_of s"
    using assms(1) by (auto simp: list_all_iff id_char_def intro: filter_True)
  ultimately show ?thesis
    using assms(2) a by (simp add: sanitize_id_def runes_ascii encode_runes_ascii Let_def)
qed

text \<open>An identifier taken from a header is harmless in a log line: letters, digits and \<^verbatim>\<open>-_./\<close> only, at
  most 120 of them, and taking it again changes nothing.\<close>

lemma sanitize_id_idempotent:
  "list_all id_char (sanitize_id v) \<and> length (sanitize_id v) \<le> 120 \<and> sanitize_id (sanitize_id v) = sanitize_id v"
  using sanitize_id_shape [of v] sanitize_id_id [of "sanitize_id v"] by blast

lemma request_id_nonempty: "request_id_of random header \<noteq> []"
proof -
  have "trim_set (sanitize_id ''req'') ''-._/'' = ''req''" by code_simp
  then show ?thesis by (auto simp: request_id_of_def new_id_def Let_def split: option.splits)
qed

subsection \<open>Counting requests\<close>

definition count_of :: "registry option \<Rightarrow> string \<Rightarrow> int" where
  "count_of reg key = (case reg of None \<Rightarrow> 0
     | Some r \<Rightarrow> (case rg_requests r key of None \<Rightarrow> 0 | Some su \<Rightarrow> su_count su))"

lemma count_observe:
  "count_of (observe meth path status bytes d (Some r)) key =
     count_of (Some r) key + (if key = metrics_key meth path status then 1 else 0)"
  by (auto simp: count_of_def observe_def add_observation_def empty_summary_def Let_def split: option.splits)

text \<open>A request is counted once, whether its handler answers or panics: the middleware for panics
  and the one for requests agree on who observes it, and the status of a panic is 500.\<close>

lemma request_counted_once:
  "case recovery before after writes accept meth path d res (Some r) of (out, panicked, reg) \<Rightarrow>
     count_of (observe_once meth path status bytes d' panicked reg) key =
       count_of (Some r) key +
         (if key = metrics_key meth path (case res of Answered _ _ \<Rightarrow> status | Panicked _ \<Rightarrow> 500) then 1 else 0)"
  by (cases res) (auto simp: recovery_def observe_once_def count_observe Let_def)

end
