(* ===== verification/Web.thy ===== *)
theory Web
  imports Rate_Limit Risk Observability
begin

text \<open>
  What the two servers share: requests as \<^verbatim>\<open>net/http\<close> delivers them, query strings
  (\<^verbatim>\<open>net/url\<close>), bodies read under a limit, and the identification of the client
  (\<^verbatim>\<open>extractClientInfo\<close>, which \<^verbatim>\<open>cmd/core-api/main.go\<close> and \<^verbatim>\<open>cmd/dns-resolver/main.go\<close> both
  declare with the same text).  A request is the record \<open>http_request\<close>: the path is decoded, the query is raw,
  headers are looked up by name and are empty when absent, and cookies are parsed.
\<close>

record http_request =
  hq_method :: string
  hq_path :: string
  hq_query :: string
  hq_header :: "string \<Rightarrow> string"
  hq_host :: string
  hq_remote :: string
  hq_tls :: bool
  hq_cookies :: "(string \<times> string) list"
  hq_is_form :: bool
  hq_body :: string
  hq_body_error :: "err option"

text \<open>The part of a request the rate limiter looks at.\<close>

definition limiter_view :: "http_request \<Rightarrow> request" where
  "limiter_view r =
     \<lparr>rq_path = hq_path r, rq_forwarded = hq_header r ''X-Forwarded-For'',
      rq_real_ip = hq_header r ''X-Real-IP'', rq_remote = hq_remote r\<rparr>"

subsection \<open>Query strings\<close>

definition query_unescape :: "string \<Rightarrow> string option" where
  "query_unescape s = unescape Other_mode (map (\<lambda>c. if c = CHR ''+'' then CHR '' '' else c) s)"

text \<open>One part of a query: \<^term>\<open>None\<close> when it is malformed, and then it is skipped.\<close>

definition query_pair :: "string \<Rightarrow> (string \<times> string) option" where
  "query_pair part =
     (if contains part '';'' then None
      else (case cut CHR ''='' part of
          (k, v) \<Rightarrow>
            (case (query_unescape k, query_unescape (case v of None \<Rightarrow> [] | Some v' \<Rightarrow> v')) of
               (Some key, Some val) \<Rightarrow> Some (key, val)
             | _ \<Rightarrow> None)))"

definition query_parts :: "string \<Rightarrow> string list" where
  "query_parts q = filter (\<lambda>p. p \<noteq> []) (split_on CHR ''&'' q)"

definition parse_query :: "string \<Rightarrow> (string \<times> string) list" where
  "parse_query q = List.map_filter query_pair (query_parts q)"

definition query_ok :: "string \<Rightarrow> bool" where
  "query_ok q \<longleftrightarrow> list_all (\<lambda>p. query_pair p \<noteq> None) (query_parts q)"

definition values_get :: "(string \<times> string) list \<Rightarrow> string \<Rightarrow> string" where
  "values_get vs key = (case map_of vs key of None \<Rightarrow> [] | Some v \<Rightarrow> v)"

definition query_get :: "http_request \<Rightarrow> string \<Rightarrow> string" where
  "query_get r key = values_get (parse_query (hq_query r)) key"

text \<open>The characters that \<^verbatim>\<open>url.QueryEscape\<close> keeps and how it writes the others.\<close>

definition query_plain :: "char \<Rightarrow> bool" where
  "query_plain c \<longleftrightarrow> is_alpha c \<or> is_dec c \<or> c \<in> set ''-_.~''"

definition upper_hex :: "char \<Rightarrow> string" where
  "upper_hex c = [''0123456789ABCDEF'' ! nat (byte_of c div 16), ''0123456789ABCDEF'' ! nat (byte_of c mod 16)]"

lemma query_escape_chars: "query_escape s = concat (map (\<lambda>c.
    if query_plain c then [c] else if c = CHR '' '' then ''+'' else CHR ''%'' # upper_hex c) s)"
  by (simp add: query_escape_def query_plain_def percent_def hex_digit_def upper_hex_def cong: if_cong)

subsection \<open>Bodies\<close>

text \<open>\<^verbatim>\<open>http.MaxBytesReader\<close> as a decoder of the body sees it: the bytes it can get, and whether more is
  an error.\<close>

definition limited_body :: "http_request \<Rightarrow> nat \<Rightarrow> string \<times> err option" where
  "limited_body r n =
     (if n < length (hq_body r) then (take n (hq_body r), Some ''http: request body too large'')
      else (hq_body r, hq_body_error r))"

definition read_body :: "http_request \<Rightarrow> nat \<Rightarrow> string go_result" where
  "read_body r n = (case limited_body r n of (b, None) \<Rightarrow> Inr b | (_, Some e) \<Rightarrow> Inl e)"

text \<open>\<^verbatim>\<open>ParseForm\<close>: the values of the body come before those of the query; \<^term>\<open>None\<close> is its error.\<close>

definition parse_form :: "http_request \<Rightarrow> nat \<Rightarrow> (string \<times> string) list option" where
  "parse_form r n =
     (if \<not> query_ok (hq_query r) then None
      else if hq_method r \<noteq> ''POST'' \<or> \<not> hq_is_form r then Some (parse_query (hq_query r))
      else (case read_body r n of
          Inl _ \<Rightarrow> None
        | Inr b \<Rightarrow> if query_ok b then Some (parse_query b @ parse_query (hq_query r)) else None))"

subsection \<open>Clients\<close>

definition remote_ip :: "string \<Rightarrow> string" where
  "remote_ip addr =
     trim_set (case cut_last CHR '':'' addr of Some (a, _) \<Rightarrow> a | None \<Rightarrow> addr) ''[]''"

definition client_id_of_path :: "string \<Rightarrow> string" where
  "client_id_of_path path =
     (case split_on CHR ''/'' (trim_set path ''/'') of
        [] \<Rightarrow> []
      | [p] \<Rightarrow> if p \<noteq> [] \<and> p \<noteq> ''dns-query'' then p else []
      | p # q # _ \<Rightarrow> if p = ''dns-query'' then q else [])"

definition extract_client_info :: "http_request \<Rightarrow> client_info" where
  "extract_client_info r =
     (let xff = hq_header r ''X-Forwarded-For''; xri = hq_header r ''X-Real-IP'';
          ip1 = (if xff \<noteq> [] then trim_space (hd (split_on CHR '','' xff)) else []);
          ip2 = (if ip1 = [] \<and> xri \<noteq> [] then trim_space xri else ip1);
          ip3 = (if ip2 = [] then remote_ip (hq_remote r) else ip2);
          cid = query_get r ''client_id''
      in \<lparr>ci_ip = ip3, ci_id = (if cid = [] then client_id_of_path (hq_path r) else cid)\<rparr>)"

subsection \<open>Routes\<close>

text \<open>The path \<^verbatim>\<open>http.ServeMux\<close> looks for.\<close>

definition mux_path :: "string \<Rightarrow> string" where
  "mux_path p =
     (if p = [] then ''/''
      else
        let q = (if has_prefix p ''/'' then p else CHR ''/'' # p); c = clean_path q in
        if has_suffix q ''/'' \<and> c \<noteq> ''/'' then c @ ''/'' else c)"

end
