(* ===== verification/Dns_Resolver.thy ===== *)
theory Dns_Resolver
  imports Web Risk_Facts
begin

text \<open>
  \<^verbatim>\<open>cmd/dns-resolver/main.go\<close>: DNS over HTTPS and DNS over TLS in front of the risk service.  The
  messages of \<^verbatim>\<open>github.com/miekg/dns\<close> are a record with the fields the resolver reads or sets, the rest
  of a message as a text; replying, packing and unpacking are the parameters of \<open>dns_lib\<close>.  The upstream
  resolver is a function from a URL and a packet to a reply.  What a handler works on is \<open>dns_state\<close>: the
  world of the risk service, the metrics and the limiter of DNS over TLS.  The error for a malformed
  base64 parameter is modelled without the position it names.
\<close>

subsection \<open>Messages\<close>

record dns_question =
  dq_name :: string
  dq_type :: int
  dq_class :: int

datatype dns_rr =
    Rr_A string int int "32 word"
  | Rr_AAAA string int int "128 word"

record dns_msg =
  dm_rcode :: int
  dm_authoritative :: bool
  dm_recursion_available :: bool
  dm_questions :: "dns_question list"
  dm_answers :: "dns_rr list"
  dm_other :: string

record dns_lib =
  dl_set_reply :: "dns_msg \<Rightarrow> dns_msg"
  dl_set_rcode :: "dns_msg \<Rightarrow> int \<Rightarrow> dns_msg"
  dl_pack :: "dns_msg \<Rightarrow> string go_result"
  dl_unpack :: "string \<Rightarrow> dns_msg go_result"

text \<open>The numbers of RFC 1035 and RFC 3596.\<close>

definition type_a :: int where "type_a = 1"
definition type_aaaa :: int where "type_aaaa = 28"
definition rcode_format_error :: int where "rcode_format_error = 1"
definition rcode_server_failure :: int where "rcode_server_failure = 2"
definition rcode_name_error :: int where "rcode_name_error = 3"
definition rcode_refused :: int where "rcode_refused = 5"

subsection \<open>The application\<close>

definition strategy_sinkhole :: string where "strategy_sinkhole = ''sinkhole''"
definition strategy_nxdomain :: string where "strategy_nxdomain = ''nxdomain''"
definition strategy_refused :: string where "strategy_refused = ''refused''"
definition strategy_nullip :: string where "strategy_nullip = ''nullip''"

definition valid_block_strategy :: "string \<Rightarrow> bool" where
  "valid_block_strategy strategy \<longleftrightarrow>
     strategy \<in> {strategy_sinkhole, strategy_nxdomain, strategy_refused, strategy_nullip}"

record 'r dns_app =
  da_risk :: "'r service"
  da_tier :: string
  da_upstream :: string
  da_block_ip :: string
  da_strategy :: string
  da_ttl :: int

record 'r dns_env =
  de_risk :: risk_env
  de_lib :: dns_lib
  de_post :: "string \<Rightarrow> string \<Rightarrow> (int \<times> string \<times> err option) go_result"
  de_now :: int

record 'r dns_state =
  ds_world :: "'r world"
  ds_metrics :: "registry option"
  ds_limiter :: "limiter option"

subsection \<open>Start\<close>

text \<open>The settings \<^verbatim>\<open>main\<close> checks before it starts; an error ends the process.\<close>

definition resolver_app :: "os_env \<Rightarrow> 'r service \<Rightarrow> 'r dns_app go_result" where
  "resolver_app os svc =
     (let ttl = env_int os ''SAFE_ROAD_DNS_BLOCK_TTL_SECONDS'' 60;
          strategy = to_lower (trim_space (env_string os ''SAFE_ROAD_DNS_BLOCK_STRATEGY'' strategy_sinkhole)) in
      if ttl < 0 \<or> 86400 < ttl then Inl ''SAFE_ROAD_DNS_BLOCK_TTL_SECONDS out of valid range''
      else if \<not> valid_block_strategy strategy then Inl ''invalid SAFE_ROAD_DNS_BLOCK_STRATEGY''
      else Inr
        \<lparr>da_risk = svc, da_tier = env_string os ''SAFE_ROAD_DEPLOYMENT_TIER'' ''budget-vps'',
         da_upstream = env_string os ''SAFE_ROAD_UPSTREAM_DOH_URL'' ''https://cloudflare-dns.com/dns-query'',
         da_block_ip = env_string os ''SAFE_ROAD_BLOCK_PAGE_IP'' ''127.0.0.1'',
         da_strategy = strategy, da_ttl = ttl\<rparr>)"

text \<open>The limiters, with the rates read from the environment by \<^verbatim>\<open>config.Float64\<close> (\<open>rate\<close>).\<close>

definition resolver_limiters ::
  "os_env \<Rightarrow> (string \<Rightarrow> real \<Rightarrow> real) \<Rightarrow> tiered option \<times> limiter option" where
  "resolver_limiters os rate =
     (if \<not> env_bool os ''SAFE_ROAD_RATELIMIT_ENABLED'' True then (None, None)
      else
        let doh = new_limiter (rate ''SAFE_ROAD_RATELIMIT_DOH_RPM'' 100) (env_int os ''SAFE_ROAD_RATELIMIT_DOH_BURST'' 20);
            default_l = new_limiter (rate ''SAFE_ROAD_RATELIMIT_DEFAULT_RPM'' 60)
              (env_int os ''SAFE_ROAD_RATELIMIT_DEFAULT_BURST'' 15);
            dot = new_limiter (rate ''SAFE_ROAD_RATELIMIT_DOT_RPM'' 100) (env_int os ''SAFE_ROAD_RATELIMIT_DOT_BURST'' 20)
        in (Some \<lparr>tm_tiers = [\<lparr>ti_prefix = ''/dns-query'', ti_limiter = Some doh\<rparr>],
                  tm_fallback = Some default_l\<rparr>, Some dot))"

subsection \<open>Blocked answers\<close>

definition effective_block_strategy :: "'r dns_app \<Rightarrow> string" where
  "effective_block_strategy a = (if da_strategy a = [] then strategy_sinkhole else da_strategy a)"

definition block_ipv4 :: "'r dns_app \<Rightarrow> 32 word option" where
  "block_ipv4 a =
     (if effective_block_strategy a = strategy_nullip then Some 0
      else (case parse_ip (da_block_ip a) of Some (IPv4 w) \<Rightarrow> Some w | _ \<Rightarrow> None))"

text \<open>\<^verbatim>\<open>To16\<close>: an IPv4 address in its IPv4-mapped form.\<close>

fun to16 :: "ip \<Rightarrow> 128 word" where
  "to16 (IPv4 w) = push_bit 32 0xffff + ucast w"
| "to16 (IPv6 w) = w"

definition block_ipv6 :: "'r dns_app \<Rightarrow> 128 word option" where
  "block_ipv6 a =
     (if effective_block_strategy a = strategy_nullip then Some 0
      else map_option to16 (parse_ip (da_block_ip a)))"

definition answer_question :: "'r dns_app \<Rightarrow> dns_question \<Rightarrow> dns_rr option" where
  "answer_question a q =
     (if dq_type q = type_a then
        map_option (Rr_A (dq_name q) (dq_class q) (da_ttl a)) (block_ipv4 a)
      else if dq_type q = type_aaaa then
        map_option (Rr_AAAA (dq_name q) (dq_class q) (da_ttl a)) (block_ipv6 a)
      else None)"

definition blocked_message :: "dns_lib \<Rightarrow> 'r dns_app \<Rightarrow> dns_msg \<Rightarrow> dns_msg" where
  "blocked_message lib a query =
     (let response = (dl_set_reply lib query)\<lparr>dm_authoritative := True, dm_recursion_available := True\<rparr>;
          strategy = effective_block_strategy a in
      if strategy = strategy_nxdomain then response\<lparr>dm_rcode := rcode_name_error\<rparr>
      else if strategy = strategy_refused then response\<lparr>dm_rcode := rcode_refused\<rparr>
      else response\<lparr>dm_answers := dm_answers response @ List.map_filter (answer_question a) (dm_questions query)\<rparr>)"

definition blocked_response :: "dns_lib \<Rightarrow> 'r dns_app \<Rightarrow> dns_msg \<Rightarrow> string go_result" where
  "blocked_response lib a query = dl_pack lib (blocked_message lib a query)"

definition servfail_message :: "dns_lib \<Rightarrow> dns_msg \<Rightarrow> dns_msg" where
  "servfail_message lib query = (dl_set_rcode lib query rcode_server_failure)\<lparr>dm_recursion_available := True\<rparr>"

definition servfail_response :: "dns_lib \<Rightarrow> dns_msg \<Rightarrow> string go_result" where
  "servfail_response lib query = dl_pack lib (servfail_message lib query)"

subsection \<open>Forwarding\<close>

definition forward_doh :: "'r dns_env \<Rightarrow> 'r dns_app \<Rightarrow> string \<Rightarrow> string go_result" where
  "forward_doh env a wire =
     (case de_post env (da_upstream a) wire of
        Inl e \<Rightarrow> Inl e
      | Inr (status, body, e) \<Rightarrow>
          if status < 200 \<or> 300 \<le> status then Inl (''upstream returned HTTP '' @ itoa status)
          else if 65535 \<le> length body then Inr (take 65535 body)
          else (case e of None \<Rightarrow> Inr body | Some msg \<Rightarrow> Inl msg))"

definition count_upstream_failure :: "'r dns_state \<Rightarrow> 'r dns_state" where
  "count_upstream_failure st = st\<lparr>ds_metrics := inc_counter ''upstream_doh_failures_total'' (ds_metrics st)\<rparr>"

definition doh_failure_count :: "registry option \<Rightarrow> int" where
  "doh_failure_count reg =
     (case reg of None \<Rightarrow> 0
      | Some r \<Rightarrow> (case rg_counters r ''upstream_doh_failures_total'' of None \<Rightarrow> 0 | Some n \<Rightarrow> n))"

subsection \<open>DNS over HTTPS\<close>

definition read_dns_message :: "http_request \<Rightarrow> string go_result" where
  "read_dns_message r =
     (if hq_method r = ''GET'' then
        (let encoded = query_get r ''dns'' in
         if encoded = [] then Inl ''missing dns query parameter''
         else (case decode64 encoded of None \<Rightarrow> Inl ''illegal base64 data'' | Some wire \<Rightarrow> Inr wire))
      else if hq_method r = ''POST'' then read_body r 65535
      else Inl ''method not allowed'')"

datatype doh_reply = Doh_Error int string | Doh_Message string

definition question_domain :: "dns_msg \<Rightarrow> string" where
  "question_domain query = trim_suffix (dq_name (hd (dm_questions query))) ''.''"

text \<open>The resolver's own copy of \<^verbatim>\<open>extractClientInfo\<close>.\<close>

definition resolver_client_info :: "http_request \<Rightarrow> client_info" where
  "resolver_client_info r = extract_client_info r"

text \<open>The reply, and whether the packet went to the upstream resolver.\<close>

definition doh_handler ::
  "'r dns_env \<Rightarrow> 'r dns_app \<Rightarrow> http_request \<Rightarrow> 'r dns_state \<Rightarrow> 'r dns_state \<times> doh_reply \<times> bool" where
  "doh_handler env a r st =
     (case read_dns_message r of
        Inl e \<Rightarrow> (st, Doh_Error 400 e, False)
      | Inr wire \<Rightarrow>
          (case dl_unpack (de_lib env) wire of
             Inl _ \<Rightarrow> (st, Doh_Error 400 ''invalid DNS message'', False)
           | Inr query \<Rightarrow>
               if dm_questions query = [] then (st, Doh_Error 400 ''DNS message has no question'', False)
               else
                 (case decide_policy (de_risk env) (da_risk a) (question_domain query) (resolver_client_info r)
                         (ds_world st) of
                    (w, po) \<Rightarrow>
                      let st1 = st\<lparr>ds_world := w\<rparr> in
                      if po_policy po = ''block'' then
                        (case blocked_response (de_lib env) a query of
                           Inl _ \<Rightarrow> (st1, Doh_Error 500 ''could not build blocked DNS response'', False)
                         | Inr response \<Rightarrow> (st1, Doh_Message response, False))
                      else
                        (case forward_doh env a wire of
                           Inr response \<Rightarrow> (st1, Doh_Message response, True)
                         | Inl _ \<Rightarrow>
                             (case servfail_response (de_lib env) query of
                                Inl _ \<Rightarrow> (count_upstream_failure st1, Doh_Error 502 ''upstream DoH failed'', True)
                              | Inr servfail \<Rightarrow> (count_upstream_failure st1, Doh_Message servfail, True))))))"

subsection \<open>DNS over TLS\<close>

definition dot_client_ip :: "string \<Rightarrow> string" where
  "dot_client_ip remote =
     trim_set (case split_host_port remote of None \<Rightarrow> remote | Some (host, _) \<Rightarrow> host) ''[]''"

definition dot_handler ::
  "'r dns_env \<Rightarrow> 'r dns_app \<Rightarrow> string \<Rightarrow> dns_msg \<Rightarrow> 'r dns_state \<Rightarrow> 'r dns_state \<times> dns_msg \<times> bool" where
  "dot_handler env a remote query st0 =
     (let lib = de_lib env; ip = dot_client_ip remote in
      case allow_option (de_now env) ip (ds_limiter st0) of
        (ol, allowed) \<Rightarrow>
          let st = st0\<lparr>ds_limiter := ol\<rparr> in
          if \<not> allowed then (st, dl_set_rcode lib query rcode_refused, False)
          else if dm_questions query = [] then (st, dl_set_rcode lib query rcode_format_error, False)
          else
            (case decide_policy (de_risk env) (da_risk a) (question_domain query) \<lparr>ci_ip = ip, ci_id = []\<rparr>
                    (ds_world st) of
               (w, po) \<Rightarrow>
                 let st1 = st\<lparr>ds_world := w\<rparr> in
                 if po_policy po = ''block'' then (st1, blocked_message lib a query, False)
                 else
                   (case dl_pack lib query of
                      Inl _ \<Rightarrow> (st1, servfail_message lib query, False)
                    | Inr wire \<Rightarrow>
                        (case forward_doh env a wire of
                           Inl _ \<Rightarrow> (count_upstream_failure st1, servfail_message lib query, True)
                         | Inr responseWire \<Rightarrow>
                             (case dl_unpack lib responseWire of
                                Inl _ \<Rightarrow> (st1, servfail_message lib query, True)
                              | Inr response \<Rightarrow> (st1, response, True))))))"

subsection \<open>The policy endpoint\<close>

datatype policy_reply = Policy_Error int string | Policy_Reply policy string

definition policy_handler ::
  "'r dns_env \<Rightarrow> 'r dns_app \<Rightarrow> http_request \<Rightarrow> 'r dns_state \<Rightarrow> 'r dns_state \<times> policy_reply" where
  "policy_handler env a r st =
     (if hq_method r \<noteq> ''GET'' then (st, Policy_Error 405 ''method not allowed'')
      else (case decide_policy (de_risk env) (da_risk a) (query_get r ''domain'') (resolver_client_info r) (ds_world st) of
          (w, po) \<Rightarrow> (st\<lparr>ds_world := w\<rparr>, Policy_Reply po (da_upstream a))))"


subsection \<open>Status and metrics\<close>

text \<open>The pages without side effects; \<open>format\<close> renders a time.\<close>

datatype status_reply =
    Not_Found
  | Method_Not_Allowed
  | Health_Page string
  | Status_Page string string cache_status string
  | Metrics_Page snapshot int string

definition health_handler :: "(int \<Rightarrow> string) \<Rightarrow> 'r dns_env \<Rightarrow> status_reply" where
  "health_handler format env = Health_Page (format (de_now env))"

definition status_handler ::
  "(int \<Rightarrow> string) \<Rightarrow> 'r dns_env \<Rightarrow> 'r dns_app \<Rightarrow> http_request \<Rightarrow> 'r dns_state \<Rightarrow> status_reply" where
  "status_handler format env a r st =
     (if hq_path r \<noteq> ''/'' then Not_Found
      else if hq_method r \<noteq> ''GET'' then Method_Not_Allowed
      else Status_Page (da_tier a) (da_upstream a) (service_cache_status (Some (da_risk a)) (ds_world st))
             (format (de_now env)))"

definition metrics_handler ::
  "(int \<Rightarrow> string) \<Rightarrow> 'r dns_env \<Rightarrow> http_request \<Rightarrow> 'r dns_state \<Rightarrow> status_reply" where
  "metrics_handler format env r st =
     (if hq_method r \<noteq> ''GET'' then Method_Not_Allowed
      else Metrics_Page (take_snapshot format (de_now env) (ds_metrics st)) (doh_failure_count (ds_metrics st))
             (format (de_now env)))"

subsection \<open>Blocked names stay here\<close>

lemma doh_blocked:
  assumes "read_dns_message r = Inr wire" "dl_unpack (de_lib env) wire = Inr query" "dm_questions query \<noteq> []"
    "decide_policy (de_risk env) (da_risk a) (question_domain query) (resolver_client_info r) (ds_world st) = (w, po)"
    "po_policy po = ''block''"
  shows "doh_handler env a r st =
    (st\<lparr>ds_world := w\<rparr>, (case blocked_response (de_lib env) a query of
       Inl _ \<Rightarrow> Doh_Error 500 ''could not build blocked DNS response''
     | Inr response \<Rightarrow> Doh_Message response), False)"
  using assms by (simp add: doh_handler_def Let_def split: sum.splits)

lemma dot_blocked:
  assumes "dm_questions query \<noteq> []"
    "decide_policy (de_risk env) (da_risk a) (question_domain query) \<lparr>ci_ip = dot_client_ip remote, ci_id = []\<rparr>
       (ds_world st) = (w, po)"
    "po_policy po = ''block''"
  shows "case dot_handler env a remote query st of (st', m, forwarded) \<Rightarrow>
    \<not> forwarded \<and> m \<in> {blocked_message (de_lib env) a query, dl_set_rcode (de_lib env) query rcode_refused}"
proof -
  obtain ol allowed where "allow_option (de_now env) (dot_client_ip remote) (ds_limiter st) = (ol, allowed)"
    by fastforce
  with assms show ?thesis by (auto simp: dot_handler_def Let_def)
qed


definition toy_query :: dns_msg where
  "toy_query = \<lparr>dm_rcode = 0, dm_authoritative = False, dm_recursion_available = False,
     dm_questions = [\<lparr>dq_name = ''a.'', dq_type = type_a, dq_class = 1\<rparr>], dm_answers = [], dm_other = []\<rparr>"

definition toy_dns_env :: "toy dns_env" where
  "toy_dns_env = \<lparr>de_risk = toy_risk_env,
     de_lib = \<lparr>dl_set_reply = (\<lambda>q. q), dl_set_rcode = (\<lambda>q c. q\<lparr>dm_rcode := c\<rparr>), dl_pack = (\<lambda>_. Inr ''blocked''),
       dl_unpack = (\<lambda>_. Inr toy_query)\<rparr>,
     de_post = (\<lambda>_ _. Inr (200, ''upstream'', None)), de_now = 0\<rparr>"

definition toy_dns_app :: "toy dns_app" where
  "toy_dns_app = \<lparr>da_risk = toy_service, da_tier = [], da_upstream = [], da_block_ip = ''127.0.0.1'',
     da_strategy = strategy_sinkhole, da_ttl = 60\<rparr>"

definition toy_dns_request :: http_request where
  "toy_dns_request = \<lparr>hq_method = ''POST'', hq_path = ''/dns-query'', hq_query = [], hq_header = (\<lambda>_. []),
     hq_host = [], hq_remote = ''1.2.3.4:5'', hq_tls = True, hq_cookies = [], hq_is_form = False,
     hq_body = ''q'', hq_body_error = None\<rparr>"


definition sinkhole_record :: "'r dns_app \<Rightarrow> 32 word \<Rightarrow> dns_question \<Rightarrow> dns_rr" where
  "sinkhole_record a ip q =
     (if dq_type q = type_a then Rr_A (dq_name q) (dq_class q) (da_ttl a) ip
      else Rr_AAAA (dq_name q) (dq_class q) (da_ttl a) (to16 (IPv4 ip)))"

lemma map_filter_if:
  assumes "\<And>q. f q = (if P q then Some (g q) else None)"
  shows "List.map_filter f qs = map g (filter P qs)"
  by (induction qs) (simp_all add: assms)

lemma answers_sinkhole:
  assumes "effective_block_strategy a \<noteq> strategy_nullip" "parse_ip (da_block_ip a) = Some (IPv4 ip)"
  shows "List.map_filter (answer_question a) qs =
    map (sinkhole_record a ip) (filter (\<lambda>q. dq_type q \<in> {type_a, type_aaaa}) qs)"
  by (rule map_filter_if)
     (simp add: answer_question_def sinkhole_record_def block_ipv4_def block_ipv6_def assms type_a_def type_aaaa_def)

text \<open>What a blocked name resolves to.  With \<^verbatim>\<open>nxdomain\<close> or \<^verbatim>\<open>refused\<close> there is that code and no
  address; otherwise every question for an address, and no other, gets exactly one record, for the name
  that was asked, with the configured time to live: the null address, or the address of the block page,
  which an AAAA record carries in its IPv4-mapped form.\<close>

lemma blocked_answers:
  assumes "dm_answers (dl_set_reply lib query) = []" "parse_ip (da_block_ip a) = Some (IPv4 ip)"
    "valid_block_strategy (da_strategy a)"
  shows "let m = blocked_message lib a query;
             asked = filter (\<lambda>q. dq_type q \<in> {type_a, type_aaaa}) (dm_questions query) in
    (if da_strategy a = strategy_nxdomain then dm_rcode m = rcode_name_error \<and> dm_answers m = []
     else if da_strategy a = strategy_refused then dm_rcode m = rcode_refused \<and> dm_answers m = []
     else dm_rcode m = dm_rcode (dl_set_reply lib query) \<and>
       dm_answers m = map (if da_strategy a = strategy_nullip
         then (\<lambda>q. if dq_type q = type_a then Rr_A (dq_name q) (dq_class q) (da_ttl a) 0
                   else Rr_AAAA (dq_name q) (dq_class q) (da_ttl a) 0)
         else sinkhole_record a ip) asked)"
proof -
  have s: "effective_block_strategy a = da_strategy a"
    using assms(3)
    by (auto simp: effective_block_strategy_def valid_block_strategy_def strategy_sinkhole_def
        strategy_nxdomain_def strategy_refused_def strategy_nullip_def)
  have n: "List.map_filter (answer_question a) qs =
      map (\<lambda>q. if dq_type q = type_a then Rr_A (dq_name q) (dq_class q) (da_ttl a) 0
               else Rr_AAAA (dq_name q) (dq_class q) (da_ttl a) 0)
        (filter (\<lambda>q. dq_type q \<in> {type_a, type_aaaa}) qs)" if "da_strategy a = strategy_nullip" for qs
    by (rule map_filter_if)
       (simp add: answer_question_def block_ipv4_def block_ipv6_def s that type_a_def type_aaaa_def)
  show ?thesis
    using n answers_sinkhole [OF _ assms(2)] assms(1)
    by (auto simp: blocked_message_def s Let_def strategy_nxdomain_def strategy_refused_def strategy_nullip_def)
qed

lemma blocked_answers_witness:
  "dm_answers (blocked_message (de_lib toy_dns_env) toy_dns_app toy_query) = [Rr_A ''a.'' 1 60 0x7f000001]"
proof -
  have "parse_ip ''127.0.0.1'' = Some (IPv4 0x7f000001)" by code_simp
  then show ?thesis
    using blocked_answers [of "de_lib toy_dns_env" toy_query toy_dns_app "0x7f000001"]
    by (simp add: toy_dns_env_def toy_query_def toy_dns_app_def valid_block_strategy_def strategy_sinkhole_def
        strategy_nxdomain_def strategy_refused_def strategy_nullip_def sinkhole_record_def Let_def)
qed

subsection \<open>Failures upstream are counted\<close>

lemma failure_counted:
  "doh_failure_count (inc_counter ''upstream_doh_failures_total'' (Some reg)) = doh_failure_count (Some reg) + 1"
  by (simp add: inc_counter_def doh_failure_count_def split: option.splits)

text \<open>A query that was sent upstream leaves the counter as it was when a reply came, and one higher when
  none did; then the client gets a server failure, not silence.\<close>

lemma doh_failures_counted:
  assumes "doh_handler env a r st = (st', reply, forwarded)" "ds_metrics st = Some reg"
    "read_dns_message r = Inr wire"
  shows "doh_failure_count (ds_metrics st') = doh_failure_count (ds_metrics st) +
    (if forwarded \<and> isl (forward_doh env a wire) then 1 else 0)"
  using assms by (auto simp: doh_handler_def Let_def count_upstream_failure_def failure_counted
      split: sum.splits if_splits prod.splits)

end
