(* ===== verification/Agent_Engine.thy ===== *)
theory Agent_Engine
  imports Prelude
begin

text \<open>
  \<^verbatim>\<open>internal/agent/engine.go\<close>: the scheduler of the background tasks.  A task (the Go interface
  \<^verbatim>\<open>Task\<close>) is a name and a run, which turns a world into a world, the time it took and its result, or is
  \<^term>\<open>None\<close> when it never returns.  The
  scheduler's goroutine and the calls of other goroutines are the step relations \<open>sched_step\<close> and
  \<open>api_step\<close>; a task that runs spans several steps, so calls interleave with it.  A time is in nanoseconds,
  a zero time is \<^term>\<open>None\<close>.  A tick may come whenever the scheduler waits: nothing proved here depends on the
  30 seconds between ticks.
\<close>

subsection \<open>Tasks and engine\<close>

record 'w task =
  tk_name :: string
  tk_run :: "int \<Rightarrow> int \<Rightarrow> 'w \<Rightarrow> ('w \<times> int \<times> unit go_result) option"

record 'w reg_task =
  rt_task :: "'w task"
  rt_interval :: int
  rt_timeout :: int
  rt_enabled :: bool
  rt_last :: "int option"
  rt_err :: string
  rt_runs :: int
  rt_errors :: int
  rt_state :: string

record 'w engine =
  en_tasks :: "'w reg_task list"
  en_queue :: "string list"
  en_done :: bool
  en_started :: bool
  en_stopped :: bool

definition trigger_capacity :: nat where "trigger_capacity = 8"

definition new_engine :: "'w engine" where
  "new_engine = \<lparr>en_tasks = [], en_queue = [], en_done = False, en_started = False, en_stopped = False\<rparr>"

definition register_task :: "'w task \<Rightarrow> int \<Rightarrow> int \<Rightarrow> bool \<Rightarrow> 'w engine \<Rightarrow> 'w engine" where
  "register_task t interval timeout on e =
     e\<lparr>en_tasks := en_tasks e @ [\<lparr>rt_task = t, rt_interval = interval, rt_timeout = timeout, rt_enabled = on,
        rt_last = None, rt_err = [], rt_runs = 0, rt_errors = 0, rt_state = ''idle''\<rparr>]\<rparr>"

text \<open>Whether the call launches the scheduler.\<close>

definition engine_start :: "'w engine \<Rightarrow> 'w engine \<times> bool" where
  "engine_start e = (if en_started e then (e, False) else (e\<lparr>en_started := True\<rparr>, True))"

text \<open>Whether the call has to wait for the scheduler.\<close>

definition engine_stop :: "'w engine \<Rightarrow> 'w engine \<times> bool" where
  "engine_stop e =
     (if \<not> en_started e \<or> en_stopped e then (e, False) else (e\<lparr>en_stopped := True, en_done := True\<rparr>, True))"

definition task_name :: "'w engine \<Rightarrow> nat \<Rightarrow> string" where
  "task_name e i = tk_name (rt_task (en_tasks e ! i))"

definition find_task :: "string \<Rightarrow> 'w engine \<Rightarrow> nat option" where
  "find_task name e = find (\<lambda>i. task_name e i = name) [0..<length (en_tasks e)]"

definition trigger :: "string \<Rightarrow> 'w engine \<Rightarrow> 'w engine \<times> bool" where
  "trigger name e =
     (case find_task name e of
        None \<Rightarrow> (e, False)
      | Some _ \<Rightarrow>
          (if length (en_queue e) < trigger_capacity then e\<lparr>en_queue := en_queue e @ [name]\<rparr> else e, True))"

record task_status =
  ts_name :: string
  ts_enabled :: bool
  ts_state :: string
  ts_interval :: string
  ts_last_run :: string
  ts_next_run :: string
  ts_last_error :: string
  ts_run_count :: int
  ts_error_count :: int

record engine_status =
  es_enabled :: bool
  es_tasks :: "task_status list"

definition status_of_task :: "(int \<Rightarrow> string) \<Rightarrow> (int \<Rightarrow> string) \<Rightarrow> 'w reg_task \<Rightarrow> task_status" where
  "status_of_task duration format rt =
     \<lparr>ts_name = tk_name (rt_task rt), ts_enabled = rt_enabled rt, ts_state = rt_state rt,
      ts_interval = duration (rt_interval rt),
      ts_last_run = (case rt_last rt of None \<Rightarrow> [] | Some t \<Rightarrow> format t),
      ts_next_run = (case rt_last rt of None \<Rightarrow> [] | Some t \<Rightarrow> format (t + rt_interval rt)),
      ts_last_error = rt_err rt, ts_run_count = rt_runs rt, ts_error_count = rt_errors rt\<rparr>"

definition engine_status_of :: "(int \<Rightarrow> string) \<Rightarrow> (int \<Rightarrow> string) \<Rightarrow> 'w engine \<Rightarrow> engine_status" where
  "engine_status_of duration format e =
     \<lparr>es_enabled = True, es_tasks = map (status_of_task duration format) (en_tasks e)\<rparr>"

subsection \<open>Running tasks\<close>

definition due :: "int \<Rightarrow> 'w reg_task \<Rightarrow> bool" where
  "due now rt \<longleftrightarrow> rt_enabled rt \<and>
     (case rt_last rt of None \<Rightarrow> True | Some t \<Rightarrow> \<not> now - t < rt_interval rt)"

definition update_task :: "nat \<Rightarrow> ('w reg_task \<Rightarrow> 'w reg_task) \<Rightarrow> 'w engine \<Rightarrow> 'w engine" where
  "update_task i f e = e\<lparr>en_tasks := (en_tasks e)[i := f (en_tasks e ! i)]\<rparr>"

text \<open>The two critical sections of \<^verbatim>\<open>executeTask\<close>.\<close>

definition begin_task :: "nat \<Rightarrow> 'w engine \<Rightarrow> 'w engine" where
  "begin_task i e = update_task i (\<lambda>rt. rt\<lparr>rt_state := ''running''\<rparr>) e"

definition finish_task :: "nat \<Rightarrow> int \<Rightarrow> unit go_result \<Rightarrow> 'w engine \<Rightarrow> 'w engine" where
  "finish_task i now res e = update_task i (\<lambda>rt.
     let rt1 = rt\<lparr>rt_last := Some now, rt_runs := rt_runs rt + 1\<rparr> in
     (case res of
        Inl err \<Rightarrow> rt1\<lparr>rt_state := ''failed'', rt_err := err, rt_errors := rt_errors rt + 1\<rparr>
      | Inr _ \<Rightarrow> rt1\<lparr>rt_state := ''idle'', rt_err := []\<rparr>)) e"

definition run_of :: "'w engine \<Rightarrow> nat \<Rightarrow> int \<Rightarrow> 'w \<Rightarrow> ('w \<times> int \<times> unit go_result) option" where
  "run_of e i started w = tk_run (rt_task (en_tasks e ! i)) (rt_timeout (en_tasks e ! i)) started w"

definition execute_task :: "nat \<Rightarrow> int \<times> 'w \<times> 'w engine \<Rightarrow> (int \<times> 'w \<times> 'w engine) option" where
  "execute_task i s =
     (case s of (now, w, e) \<Rightarrow>
        (case run_of e i now w of
           None \<Rightarrow> None
         | Some (w', elapsed, res) \<Rightarrow>
             Some (now + elapsed, w', finish_task i (now + elapsed) res (begin_task i e))))"

fun run_due :: "nat list \<Rightarrow> int \<times> 'w \<times> 'w engine \<Rightarrow> (int \<times> 'w \<times> 'w engine) option" where
  "run_due [] s = Some s"
| "run_due (i # is) (now, w, e) =
     (if en_done e then Some (now, w, e)
      else if \<not> due now (en_tasks e ! i) then run_due is (now, w, e)
      else (case execute_task i (now, w, e) of None \<Rightarrow> None | Some s \<Rightarrow> run_due is s))"

definition run_due_tasks :: "int \<times> 'w \<times> 'w engine \<Rightarrow> (int \<times> 'w \<times> 'w engine) option" where
  "run_due_tasks s = (case s of (now, w, e) \<Rightarrow> run_due [0..<length (en_tasks e)] s)"

definition run_task_by_name :: "string \<Rightarrow> int \<times> 'w \<times> 'w engine \<Rightarrow> (int \<times> 'w \<times> 'w engine) option" where
  "run_task_by_name name s =
     (case s of (now, w, e) \<Rightarrow> (case find_task name e of None \<Rightarrow> Some s | Some i \<Rightarrow> execute_task i s))"

subsection \<open>Interleaving\<close>

text \<open>Where the scheduler's goroutine is: waiting in its \<^verbatim>\<open>select\<close>, about to look at the rest of a snapshot of
  tasks, past the test for a stop with the next one of them, or in the run of a task that began at a time.\<close>

datatype sched = Not_Started | Waiting | Checking "nat list" | Chosen nat "nat list" | Running nat int "nat list" | Exited

record 'w sys =
  sy_engine :: "'w engine"
  sy_sched :: sched
  sy_now :: int
  sy_world :: 'w
  sy_asked :: "string set"

text \<open>\<open>sy_asked\<close> is a history variable: the names \<^verbatim>\<open>Trigger\<close> was called with.\<close>

definition initial_sys :: "int \<Rightarrow> 'w \<Rightarrow> 'w sys" where
  "initial_sys now w =
     \<lparr>sy_engine = new_engine, sy_sched = Not_Started, sy_now = now, sy_world = w, sy_asked = {}\<rparr>"

definition start_call :: "'w sys \<Rightarrow> 'w sys" where
  "start_call s = (case engine_start (sy_engine s) of (e, launched) \<Rightarrow>
     if launched then s\<lparr>sy_engine := e, sy_sched := Checking [0..<length (en_tasks e)]\<rparr> else s\<lparr>sy_engine := e\<rparr>)"

inductive api_step :: "'w sys \<Rightarrow> 'w sys \<Rightarrow> bool" where
  api_register: "api_step s (s\<lparr>sy_engine := register_task t interval timeout on (sy_engine s)\<rparr>)"
| api_start: "api_step s (start_call s)"
| api_stop: "api_step s (s\<lparr>sy_engine := fst (engine_stop (sy_engine s))\<rparr>)"
| api_trigger: "api_step s (s\<lparr>sy_engine := fst (trigger name (sy_engine s)), sy_asked := insert name (sy_asked s)\<rparr>)"
| api_world: "api_step s (s\<lparr>sy_world := w\<rparr>)"

inductive sched_step :: "'w sys \<Rightarrow> 'w sys \<Rightarrow> bool" where
  sched_clock: "sy_now s \<le> now \<Longrightarrow> sched_step s (s\<lparr>sy_now := now\<rparr>)"
| sched_tick: "sy_sched s = Waiting \<Longrightarrow>
    sched_step s (s\<lparr>sy_sched := Checking [0..<length (en_tasks (sy_engine s))]\<rparr>)"
| sched_exit: "sy_sched s = Waiting \<Longrightarrow> en_done (sy_engine s) \<Longrightarrow> sched_step s (s\<lparr>sy_sched := Exited\<rparr>)"
| sched_trigger: "sy_sched s = Waiting \<Longrightarrow> en_queue (sy_engine s) = name # q \<Longrightarrow>
    sched_step s (case find_task name (sy_engine s) of
        None \<Rightarrow> s\<lparr>sy_engine := (sy_engine s)\<lparr>en_queue := q\<rparr>\<rparr>
      | Some i \<Rightarrow> s\<lparr>sy_engine := begin_task i ((sy_engine s)\<lparr>en_queue := q\<rparr>), sy_sched := Running i (sy_now s) []\<rparr>)"
| sched_end: "sy_sched s = Checking [] \<Longrightarrow> sched_step s (s\<lparr>sy_sched := Waiting\<rparr>)"
| sched_stop: "sy_sched s = Checking (i # is) \<Longrightarrow> en_done (sy_engine s) \<Longrightarrow> sched_step s (s\<lparr>sy_sched := Waiting\<rparr>)"
| sched_check: "sy_sched s = Checking (i # is) \<Longrightarrow> \<not> en_done (sy_engine s) \<Longrightarrow>
    sched_step s (s\<lparr>sy_sched := Chosen i is\<rparr>)"
| sched_skip: "sy_sched s = Chosen i is \<Longrightarrow> \<not> due (sy_now s) (en_tasks (sy_engine s) ! i) \<Longrightarrow>
    sched_step s (s\<lparr>sy_sched := Checking is\<rparr>)"
| sched_begin: "sy_sched s = Chosen i is \<Longrightarrow> due (sy_now s) (en_tasks (sy_engine s) ! i) \<Longrightarrow>
    sched_step s (s\<lparr>sy_engine := begin_task i (sy_engine s), sy_sched := Running i (sy_now s) is\<rparr>)"
| sched_finish: "sy_sched s = Running i started is \<Longrightarrow>
    run_of (sy_engine s) i started (sy_world s) = Some (w', elapsed, res) \<Longrightarrow> started + elapsed \<le> sy_now s \<Longrightarrow>
    sched_step s (s\<lparr>sy_engine := finish_task i (sy_now s) res (sy_engine s), sy_sched := Checking is, sy_world := w'\<rparr>)"

definition engine_step :: "'w sys \<Rightarrow> 'w sys \<Rightarrow> bool" where
  "engine_step s s' \<longleftrightarrow> api_step s s' \<or> sched_step s s'"

definition reachable_sys :: "'w sys \<Rightarrow> bool" where
  "reachable_sys s \<longleftrightarrow> (\<exists>now w. engine_step\<^sup>*\<^sup>* (initial_sys now w) s)"


subsection \<open>The state of the scheduler\<close>

lemma update_task_simps [simp]:
  "length (en_tasks (update_task i f e)) = length (en_tasks e)"
  "en_queue (update_task i f e) = en_queue e" "en_done (update_task i f e) = en_done e"
  "en_started (update_task i f e) = en_started e" "en_stopped (update_task i f e) = en_stopped e"
  by (simp_all add: update_task_def)

lemma update_task_nth:
  "j < length (en_tasks e) \<Longrightarrow>
     en_tasks (update_task i f e) ! j = (if j = i then f (en_tasks e ! j) else en_tasks e ! j)"
  by (auto simp: update_task_def nth_list_update)

lemmas task_changes = begin_task_def finish_task_def

fun mentioned :: "sched \<Rightarrow> nat set" where
  "mentioned (Checking is) = set is"
| "mentioned (Chosen i is) = insert i (set is)"
| "mentioned (Running i t is) = insert i (set is)"
| "mentioned _ = {}"

text \<open>A task whose run is under way, and what its record says otherwise.\<close>

definition running_now :: "'w sys \<Rightarrow> nat \<Rightarrow> bool" where
  "running_now s i \<longleftrightarrow> (\<exists>t is. sy_sched s = Running i t is)"

definition task_ok :: "'w sys \<Rightarrow> nat \<Rightarrow> bool" where
  "task_ok s i \<longleftrightarrow> (let rt = en_tasks (sy_engine s) ! i in
     rt_state rt \<in> {''idle'', ''running'', ''failed''} \<and>
     (rt_state rt = ''running'' \<longleftrightarrow> running_now s i) \<and>
     (rt_state rt = ''idle'' \<longrightarrow> rt_err rt = []) \<and>
     0 \<le> rt_errors rt \<and> rt_errors rt \<le> rt_runs rt \<and>
     (rt_state rt = ''failed'' \<longrightarrow> 0 < rt_errors rt) \<and>
     (rt_last rt = None \<longleftrightarrow> rt_runs rt = 0) \<and>
     (case rt_last rt of None \<Rightarrow> True | Some t \<Rightarrow> t \<le> sy_now s) \<and>
     (\<not> rt_enabled rt \<longrightarrow> 0 < rt_runs rt \<or> running_now s i \<longrightarrow> tk_name (rt_task rt) \<in> sy_asked s))"

definition queue_ok :: "'w sys \<Rightarrow> bool" where
  "queue_ok s \<longleftrightarrow> length (en_queue (sy_engine s)) \<le> trigger_capacity \<and>
     set (en_queue (sy_engine s)) \<subseteq> sy_asked s"

definition sched_ok :: "'w sys \<Rightarrow> bool" where
  "sched_ok s \<longleftrightarrow> mentioned (sy_sched s) \<subseteq> {..<length (en_tasks (sy_engine s))} \<and>
     (en_started (sy_engine s) \<longleftrightarrow> sy_sched s \<noteq> Not_Started) \<and>
     (en_stopped (sy_engine s) \<longleftrightarrow> en_done (sy_engine s)) \<and>
     (sy_sched s = Exited \<longrightarrow> en_done (sy_engine s))"

definition sys_ok :: "'w sys \<Rightarrow> bool" where
  "sys_ok s \<longleftrightarrow> (\<forall>i < length (en_tasks (sy_engine s)). task_ok s i) \<and> queue_ok s \<and> sched_ok s"

lemma find_task_Some:
  assumes "find_task name e = Some i"
  shows "i < length (en_tasks e)" "task_name e i = name"
  using find_Some_set [OF assms [unfolded find_task_def]] by auto

lemma initial_ok: "sys_ok (initial_sys now w)"
  by (simp add: sys_ok_def initial_sys_def new_engine_def queue_ok_def sched_ok_def)

lemma task_ok_cong:
  assumes "en_tasks (sy_engine s') ! i = en_tasks (sy_engine s) ! i" "running_now s' i \<longleftrightarrow> running_now s i"
    "sy_now s \<le> sy_now s'" "sy_asked s' = sy_asked s" "task_ok s i"
  shows "task_ok s' i"
  using assms by (auto simp: task_ok_def Let_def split: option.splits)

lemma same_tasks_ok:
  assumes "sys_ok s" "en_tasks (sy_engine s') = en_tasks (sy_engine s)" "\<And>j. running_now s' j \<longleftrightarrow> running_now s j"
    "sy_now s \<le> sy_now s'" "sy_asked s \<subseteq> sy_asked s'" "queue_ok s'" "sched_ok s'"
  shows "sys_ok s'"
proof -
  have "task_ok s' i" if "task_ok s i" for i
    using that assms(2-5) by (auto simp: task_ok_def Let_def split: option.splits)
  then show ?thesis using assms by (simp add: sys_ok_def)
qed

lemma api_step_ok: "api_step s s' \<Longrightarrow> sys_ok s \<Longrightarrow> sys_ok s'"
proof (induction rule: api_step.induct)
  case (api_register s t interval timeout on)
  let ?s' = "s\<lparr>sy_engine := register_task t interval timeout on (sy_engine s)\<rparr>"
  have old: "en_tasks (sy_engine ?s') ! i = en_tasks (sy_engine s) ! i" if "i < length (en_tasks (sy_engine s))" for i
    using that by (simp add: register_task_def nth_append)
  have "task_ok ?s' i" if i: "i < length (en_tasks (sy_engine s))" for i
    using api_register i by (intro task_ok_cong [OF old [OF i]]) (auto simp: sys_ok_def running_now_def)
  moreover have "\<not> running_now s (length (en_tasks (sy_engine s)))"
    using api_register by (auto simp: sys_ok_def sched_ok_def running_now_def)
  then have "task_ok ?s' (length (en_tasks (sy_engine s)))"
    by (simp add: task_ok_def register_task_def running_now_def)
  moreover have "queue_ok ?s'" "sched_ok ?s'"
    using api_register by (auto simp: sys_ok_def queue_ok_def sched_ok_def register_task_def)
  ultimately show ?case by (auto simp: sys_ok_def register_task_def less_Suc_eq)
next
  case (api_start s)
  then show ?case
    by (intro same_tasks_ok [OF api_start])
       (auto simp: start_call_def engine_start_def running_now_def sys_ok_def queue_ok_def sched_ok_def)
next
  case (api_stop s)
  then show ?case
    by (intro same_tasks_ok [OF api_stop])
       (auto simp: engine_stop_def running_now_def sys_ok_def queue_ok_def sched_ok_def)
next
  case (api_trigger s name)
  then show ?case
    by (intro same_tasks_ok [OF api_trigger])
       (auto simp: trigger_def running_now_def sys_ok_def queue_ok_def sched_ok_def split: option.splits)
next
  case (api_world s w)
  then show ?case
    by (intro same_tasks_ok [OF api_world]) (auto simp: running_now_def sys_ok_def queue_ok_def sched_ok_def)
qed

text \<open>A step that begins a task that is due, or that was asked for.\<close>

lemma begin_ok:
  assumes "sys_ok s" "i < length (en_tasks (sy_engine s))" "set is \<subseteq> {..<length (en_tasks (sy_engine s))}"
    "\<And>j. \<not> running_now s j" "sy_sched s \<notin> {Not_Started, Exited}"
    "rt_enabled (en_tasks (sy_engine s) ! i) \<or> task_name (sy_engine s) i \<in> sy_asked s"
    "length q \<le> trigger_capacity" "set q \<subseteq> sy_asked s"
  shows "sys_ok (s\<lparr>sy_engine := begin_task i ((sy_engine s)\<lparr>en_queue := q\<rparr>), sy_sched := Running i (sy_now s) is\<rparr>)"
    (is "sys_ok ?s'")
proof -
  have "task_ok ?s' j" if j: "j < length (en_tasks (sy_engine s))" for j
  proof -
    have t: "task_ok s j" using assms(1) j by (simp add: sys_ok_def)
    show ?thesis
    proof (cases "j = i")
      case True
      with t j assms(4) [of i] assms(6) show ?thesis
        by (auto simp: task_ok_def begin_task_def update_task_nth running_now_def Let_def task_name_def)
    next
      case False
      then have "en_tasks (sy_engine ?s') ! j = en_tasks (sy_engine s) ! j"
        using j by (simp add: begin_task_def update_task_nth)
      then show ?thesis
        using False assms(4) [of j] t by (intro task_ok_cong [OF _ _ _ _ t]) (simp_all add: running_now_def)
    qed
  qed
  then show ?thesis
    using assms by (auto simp: sys_ok_def begin_task_def queue_ok_def sched_ok_def)
qed

lemma finish_ok:
  assumes "sys_ok s" "sy_sched s = Running i t is"
  shows "sys_ok (s\<lparr>sy_engine := finish_task i (sy_now s) res (sy_engine s), sy_sched := Checking is, sy_world := w'\<rparr>)"
    (is "sys_ok ?s'")
proof -
  have i: "i < length (en_tasks (sy_engine s))" using assms by (simp add: sys_ok_def sched_ok_def)
  have "task_ok ?s' j" if j: "j < length (en_tasks (sy_engine s))" for j
  proof -
    have t: "task_ok s j" using assms(1) j by (simp add: sys_ok_def)
    show ?thesis
    proof (cases "j = i")
      case True
      have "running_now s i" using assms(2) by (simp add: running_now_def)
      with True t i show ?thesis
        by (cases res) (auto simp: task_ok_def finish_task_def update_task_nth running_now_def Let_def)
    next
      case False
      then have "en_tasks (sy_engine ?s') ! j = en_tasks (sy_engine s) ! j"
        using j by (simp add: finish_task_def update_task_nth)
      then show ?thesis
        using False assms(2) by (intro task_ok_cong [OF _ _ _ _ t]) (simp_all add: running_now_def)
    qed
  qed
  then show ?thesis
    using assms by (auto simp: sys_ok_def finish_task_def queue_ok_def sched_ok_def)
qed

lemma move_ok:
  assumes "sys_ok s" "\<And>j. \<not> running_now s j" "\<And>j. \<not> running_now (s\<lparr>sy_sched := c\<rparr>) j"
    "mentioned c \<subseteq> {..<length (en_tasks (sy_engine s))}" "c \<noteq> Not_Started" "sy_sched s \<noteq> Not_Started"
    "c = Exited \<Longrightarrow> en_done (sy_engine s)"
  shows "sys_ok (s\<lparr>sy_sched := c\<rparr>)"
proof -
  have "task_ok (s\<lparr>sy_sched := c\<rparr>) i" if "task_ok s i" for i
    by (rule task_ok_cong [OF _ _ _ _ that]) (use assms(2,3) in auto)
  then show ?thesis using assms(1,4-7) by (simp add: sys_ok_def queue_ok_def sched_ok_def)
qed

lemma sched_step_ok: "sched_step s s' \<Longrightarrow> sys_ok s \<Longrightarrow> sys_ok s'"
proof (induction rule: sched_step.induct)
  case (sched_clock s now)
  have "task_ok (s\<lparr>sy_now := now\<rparr>) i" if "task_ok s i" for i
    by (rule task_ok_cong [OF _ _ _ _ that]) (use sched_clock in \<open>auto simp: running_now_def\<close>)
  with sched_clock show ?case by (simp add: sys_ok_def queue_ok_def sched_ok_def)
next
  case (sched_trigger s name q)
  then have ok: "sys_ok s" and q: "length q \<le> trigger_capacity" "set q \<subseteq> sy_asked s" "name \<in> sy_asked s"
    by (simp_all add: sys_ok_def queue_ok_def)
  show ?case
  proof (cases "find_task name (sy_engine s)")
    case None
    have "task_ok (s\<lparr>sy_engine := (sy_engine s)\<lparr>en_queue := q\<rparr>\<rparr>) i" if "task_ok s i" for i
      by (rule task_ok_cong [OF _ _ _ _ that]) (simp_all add: running_now_def)
    with None ok q show ?thesis by (simp add: sys_ok_def queue_ok_def sched_ok_def)
  next
    case (Some i)
    then show ?thesis
      using begin_ok [OF ok find_task_Some(1) [OF Some], of "[]" q] find_task_Some(2) [OF Some] sched_trigger(1) q
      by (simp add: running_now_def)
  qed
next
  case (sched_begin s i "is")
  then have "set (en_queue (sy_engine s)) \<subseteq> sy_asked s" "length (en_queue (sy_engine s)) \<le> trigger_capacity"
      "i < length (en_tasks (sy_engine s))" "set is \<subseteq> {..<length (en_tasks (sy_engine s))}"
    by (simp_all add: sys_ok_def queue_ok_def sched_ok_def)
  then show ?case
    using begin_ok [OF sched_begin(3), of i "is" "en_queue (sy_engine s)"] sched_begin
    by (simp add: running_now_def due_def)
next
  case (sched_finish s i started "is" w' elapsed res)
  then show ?case by (blast intro: finish_ok)
next
  case (sched_tick s)
  then show ?case by (intro move_ok) (auto simp: running_now_def)
next
  case (sched_exit s)
  then show ?case by (intro move_ok) (auto simp: running_now_def)
next
  case (sched_end s)
  then show ?case by (intro move_ok) (auto simp: running_now_def)
next
  case (sched_stop s i "is")
  then show ?case by (intro move_ok) (auto simp: running_now_def)
next
  case (sched_check s i "is")
  then show ?case by (intro move_ok) (auto simp: running_now_def sys_ok_def sched_ok_def)
next
  case (sched_skip s i "is")
  then show ?case by (intro move_ok) (auto simp: running_now_def sys_ok_def sched_ok_def)
qed

lemma engine_steps_ok: "engine_step\<^sup>*\<^sup>* s0 s \<Longrightarrow> sys_ok s0 \<Longrightarrow> sys_ok s"
  by (induction rule: rtranclp_induct) (auto simp: engine_step_def intro: api_step_ok sched_step_ok)

lemma reachable_ok: "reachable_sys s \<Longrightarrow> sys_ok s"
  unfolding reachable_sys_def by (elim exE) (rule engine_steps_ok [OF _ initial_ok])

text \<open>C15. In every reachable state of the engine, whatever calls interleave with the scheduler: one
  task runs at a time, and it is the one whose state says so; an idle task shows no error; errors never
  outnumber runs, and a failed task has counted one; a task has a last run, which is not in the future, exactly when it ever ran; a disabled
  task has only ever run if it was asked for; and at most eight requests wait.\<close>

theorem engine_state_consistent:
  assumes "reachable_sys s" "i < length (en_tasks (sy_engine s))" "rt = en_tasks (sy_engine s) ! i"
  shows "(rt_state rt = ''running'' \<longleftrightarrow> (\<exists>t is. sy_sched s = Running i t is)) \<and>
    rt_state rt \<in> {''idle'', ''running'', ''failed''} \<and>
    (rt_state rt \<noteq> ''idle'' \<or> rt_err rt = []) \<and> 0 \<le> rt_errors rt \<and> rt_errors rt \<le> rt_runs rt \<and>
    (rt_state rt \<noteq> ''failed'' \<or> 0 < rt_errors rt) \<and>
    (case rt_last rt of None \<Rightarrow> rt_runs rt = 0 | Some t \<Rightarrow> 0 < rt_runs rt \<and> t \<le> sy_now s) \<and>
    (rt_enabled rt \<or> rt_runs rt = 0 \<or> tk_name (rt_task rt) \<in> sy_asked s) \<and>
    length (en_queue (sy_engine s)) \<le> 8"
proof -
  have "task_ok s i" "queue_ok s" using reachable_ok [OF assms(1)] assms(2) by (simp_all add: sys_ok_def)
  then show ?thesis
    using assms(3) by (auto simp: task_ok_def queue_ok_def trigger_capacity_def running_now_def Let_def split: option.splits)
qed

definition toy_task :: "nat task" where
  "toy_task = \<lparr>tk_name = ''audit'', tk_run = (\<lambda>timeout now w. Some (Suc w, 1, Inr ()))\<rparr>"

definition toy_sys :: "nat sys" where
  "toy_sys = (initial_sys 0 0)\<lparr>sy_engine := register_task toy_task 10 5 False new_engine\<rparr>"

lemma toy_reachable: "reachable_sys toy_sys"
proof -
  have "api_step (initial_sys 0 0) toy_sys"
    using api_register [of "initial_sys 0 0" toy_task 10 5 False] by (simp add: toy_sys_def initial_sys_def)
  then show ?thesis unfolding reachable_sys_def by (meson engine_step_def r_into_rtranclp)
qed

theorem engine_state_consistent_witness:
  "rt_runs (en_tasks (sy_engine toy_sys) ! 0) = 0 \<and> rt_err (en_tasks (sy_engine toy_sys) ! 0) = []"
  using engine_state_consistent [OF toy_reachable _ refl, of 0]
  by (auto simp: toy_sys_def register_task_def new_engine_def initial_sys_def)


subsection \<open>The sequential view\<close>

text \<open>What no step of the scheduler changes of the tasks.\<close>

definition static :: "'w engine \<Rightarrow> ('w task \<times> int \<times> int \<times> bool) list" where
  "static e = map (\<lambda>rt. (rt_task rt, rt_interval rt, rt_timeout rt, rt_enabled rt)) (en_tasks e)"

lemma static_update:
  assumes "\<And>rt. rt_task (f rt) = rt_task rt" "\<And>rt. rt_interval (f rt) = rt_interval rt"
    "\<And>rt. rt_timeout (f rt) = rt_timeout rt" "\<And>rt. rt_enabled (f rt) = rt_enabled rt"
  shows "static (update_task i f e) = static e"
proof -
  let ?g = "\<lambda>rt. (rt_task rt, rt_interval rt, rt_timeout rt, rt_enabled rt)"
  have "map ?g (xs[i := f (xs ! i)]) = map ?g xs" for xs
    by (cases "i < length xs") (simp_all add: map_update assms list_update_same_conv list_update_beyond)
  then show ?thesis by (simp add: static_def update_task_def)
qed

lemma static_begin [simp]: "static (begin_task i e) = static e"
  unfolding begin_task_def by (rule static_update) simp_all

lemma static_finish [simp]: "static (finish_task i now res e) = static e"
  unfolding finish_task_def by (rule static_update) (simp_all add: Let_def split: sum.splits)

lemma static_queue [simp]: "static (e\<lparr>en_queue := q\<rparr>) = static e"
  by (simp add: static_def)

lemma static_length: "static e' = static e \<Longrightarrow> length (en_tasks e') = length (en_tasks e)"
  unfolding static_def by (rule map_eq_imp_length_eq)

lemma static_nth:
  assumes "static e' = static e" "i < length (en_tasks e)"
  shows "rt_task (en_tasks e' ! i) = rt_task (en_tasks e ! i)"
    "rt_timeout (en_tasks e' ! i) = rt_timeout (en_tasks e ! i)"
    "rt_enabled (en_tasks e' ! i) = rt_enabled (en_tasks e ! i)"
proof -
  have "static e' ! i = static e ! i" using assms(1) by simp
  then show "rt_task (en_tasks e' ! i) = rt_task (en_tasks e ! i)"
    "rt_timeout (en_tasks e' ! i) = rt_timeout (en_tasks e ! i)"
    "rt_enabled (en_tasks e' ! i) = rt_enabled (en_tasks e ! i)"
    using assms(2) static_length [OF assms(1)] by (simp_all add: static_def)
qed

lemma run_of_static:
  assumes "static e' = static e" "i < length (en_tasks e)"
  shows "run_of e' i = run_of e i"
  by (intro ext) (simp only: run_of_def static_nth [OF assms])

lemma find_task_static:
  assumes "static e' = static e"
  shows "find_task name e' = find_task name e"
proof -
  have "find (\<lambda>i. task_name e' i = name) is = find (\<lambda>i. task_name e i = name) is"
    if "\<forall>i \<in> set is. i < length (en_tasks e)" for "is"
    using that by (induction "is") (simp_all add: task_name_def static_nth [OF assms])
  then show ?thesis by (simp add: find_task_def static_length [OF assms])
qed

text \<open>Every run returns, and takes no negative time.\<close>

definition prompt :: "'w engine \<Rightarrow> bool" where
  "prompt e \<longleftrightarrow> (\<forall>i < length (en_tasks e). \<forall>started w. \<exists>w' d res. run_of e i started w = Some (w', d, res) \<and> 0 \<le> d)"

lemma prompt_static:
  assumes "static e' = static e"
  shows "prompt e' \<longleftrightarrow> prompt e"
  unfolding prompt_def static_length [OF assms] using run_of_static [OF assms] by metis

definition placed :: "'w sys \<Rightarrow> int \<times> 'w \<times> 'w engine \<Rightarrow> sched \<Rightarrow> 'w sys" where
  "placed s v c = \<lparr>sy_engine = snd (snd v), sy_sched = c, sy_now = fst v, sy_world = fst (snd v), sy_asked = sy_asked s\<rparr>"

lemma placed_simps [simp]:
  "sy_now (placed s v c) = fst v" "sy_world (placed s v c) = fst (snd v)" "sy_engine (placed s v c) = snd (snd v)"
  "sy_sched (placed s v c) = c" "(placed s v c)\<lparr>sy_sched := c'\<rparr> = placed s v c'"
  by (simp_all add: placed_def)

lemma placed_self: "sy_sched s = c \<Longrightarrow> placed s (sy_now s, sy_world s, sy_engine s) c = s"
  by (simp add: placed_def)

lemma execute_steps:
  assumes "i < length (en_tasks e)" "prompt e"
  shows "\<exists>v. execute_task i (now, w, e) = Some v \<and> static (snd (snd v)) = static e \<and>
    sched_step\<^sup>*\<^sup>* (placed s (now, w, begin_task i e) (Running i now is)) (placed s v (Checking is))"
proof -
  obtain w' d res where r: "run_of e i now w = Some (w', d, res)" and d: "0 \<le> d"
    using assms unfolding prompt_def by metis
  have r': "run_of (begin_task i e) i now w = Some (w', d, res)" using r run_of_static [OF static_begin assms(1)] by simp
  let ?v = "(now + d, w', finish_task i (now + d) res (begin_task i e))"
  have "sched_step (placed s (now, w, begin_task i e) (Running i now is)) (placed s (now + d, w, begin_task i e) (Running i now is))"
    using sched_clock [of "placed s (now, w, begin_task i e) (Running i now is)" "now + d"] d by (simp add: placed_def)
  moreover have "sched_step (placed s (now + d, w, begin_task i e) (Running i now is)) (placed s ?v (Checking is))"
    using sched_finish [of "placed s (now + d, w, begin_task i e) (Running i now is)" i now "is" w' d res] r'
    by (simp add: placed_def)
  ultimately have "sched_step\<^sup>*\<^sup>* (placed s (now, w, begin_task i e) (Running i now is)) (placed s ?v (Checking is))"
    by (meson converse_rtranclp_into_rtranclp rtranclp.rtrancl_refl)
  then show ?thesis using r by (intro exI [of _ ?v]) (simp add: execute_task_def)
qed

lemma run_due_steps:
  assumes "set is \<subseteq> {..<length (en_tasks e)}" "prompt e"
  shows "\<exists>v. run_due is (now, w, e) = Some v \<and> sched_step\<^sup>*\<^sup>* (placed s (now, w, e) (Checking is)) (placed s v Waiting)"
  using assms
proof (induction "is" arbitrary: now w e)
  case Nil
  then show ?case using sched_end [of "placed s (now, w, e) (Checking [])"] by auto
next
  case (Cons i "is")
  let ?s = "placed s (now, w, e) (Checking (i # is))"
  show ?case
  proof (cases "en_done e")
    case True
    then show ?thesis using sched_stop [of ?s i "is"] by auto
  next
    case False
    then have c: "sched_step ?s (placed s (now, w, e) (Chosen i is))" using sched_check [of ?s i "is"] by simp
    show ?thesis
    proof (cases "due now (en_tasks e ! i)")
      case True
      have b: "sched_step (placed s (now, w, e) (Chosen i is)) (placed s (now, w, begin_task i e) (Running i now is))"
        using sched_begin [of "placed s (now, w, e) (Chosen i is)" i "is"] True by (simp add: placed_def)
      obtain now1 w1 e1 where x: "execute_task i (now, w, e) = Some (now1, w1, e1)" "static e1 = static e"
          "sched_step\<^sup>*\<^sup>* (placed s (now, w, begin_task i e) (Running i now is)) (placed s (now1, w1, e1) (Checking is))"
        using execute_steps [of i e now w s "is"] Cons.prems by auto
      obtain v where v: "run_due is (now1, w1, e1) = Some v"
          "sched_step\<^sup>*\<^sup>* (placed s (now1, w1, e1) (Checking is)) (placed s v Waiting)"
        using Cons.IH [of e1 now1 w1] Cons.prems static_length [OF x(2)] prompt_static [OF x(2)] by auto
      have "sched_step\<^sup>*\<^sup>* ?s (placed s v Waiting)"
        using c b rtranclp_trans [OF x(3) v(2)] by (meson converse_rtranclp_into_rtranclp)
      then show ?thesis using False True x(1) v(1) by simp
    next
      case notdue: False
      have "sched_step (placed s (now, w, e) (Chosen i is)) (placed s (now, w, e) (Checking is))"
        using sched_skip [of "placed s (now, w, e) (Chosen i is)" i "is"] notdue by simp
      moreover obtain v where v: "run_due is (now, w, e) = Some v"
          "sched_step\<^sup>*\<^sup>* (placed s (now, w, e) (Checking is)) (placed s v Waiting)"
        using Cons.IH [of e now w] Cons.prems by auto
      ultimately have "sched_step\<^sup>*\<^sup>* ?s (placed s v Waiting)"
        using c by (meson converse_rtranclp_into_rtranclp)
      then show ?thesis using False notdue v(1) by simp
    qed
  qed
qed

lemma by_name_steps:
  assumes "prompt e" "en_queue e = name # q"
  shows "\<exists>v. run_task_by_name name (now, w, e\<lparr>en_queue := q\<rparr>) = Some v \<and>
    sched_step\<^sup>*\<^sup>* (placed s (now, w, e) Waiting) (placed s v Waiting)"
proof -
  let ?s = "placed s (now, w, e) Waiting" and ?e = "e\<lparr>en_queue := q\<rparr>"
  have f: "find_task name ?e = find_task name e" by (rule find_task_static) simp
  show ?thesis
  proof (cases "find_task name e")
    case None
    then show ?thesis using sched_trigger [of ?s name q] assms(2) f
      by (simp add: placed_def run_task_by_name_def r_into_rtranclp)
  next
    case (Some i)
    have st: "sched_step ?s (placed s (now, w, begin_task i ?e) (Running i now []))"
      using sched_trigger [of ?s name q] assms(2) Some by (simp add: placed_def)
    obtain v where v: "execute_task i (now, w, ?e) = Some v"
        "sched_step\<^sup>*\<^sup>* (placed s (now, w, begin_task i ?e) (Running i now [])) (placed s v (Checking []))"
      using execute_steps [of i ?e now w s "[]"] find_task_Some(1) [OF Some] assms(1)
        prompt_static [OF static_queue [where e = e and q = q]] by auto
    have "sched_step (placed s v (Checking [])) (placed s v Waiting)"
      using sched_end [of "placed s v (Checking [])"] by simp
    then have "sched_step\<^sup>*\<^sup>* ?s (placed s v Waiting)"
      using st v(2) by (meson converse_rtranclp_into_rtranclp rtranclp.rtrancl_into_rtrancl)
    then show ?thesis using Some f v(1) by (simp add: run_task_by_name_def)
  qed
qed


definition waiting_sys :: "nat sys" where
  "waiting_sys = \<lparr>sy_engine = \<lparr>en_tasks = [\<lparr>rt_task = toy_task, rt_interval = 10, rt_timeout = 5,
      rt_enabled = False, rt_last = None, rt_err = [], rt_runs = 0, rt_errors = 0, rt_state = ''idle''\<rparr>],
      en_queue = [''audit''], en_done = False, en_started = True, en_stopped = False\<rparr>,
     sy_sched = Waiting, sy_now = 0, sy_world = 0, sy_asked = {''audit''}\<rparr>"


subsection \<open>Requests\<close>

definition runs_of :: "'w engine \<Rightarrow> nat \<Rightarrow> int" where
  "runs_of e i = rt_runs (en_tasks e ! i)"

lemma begin_simps [simp]:
  "length (en_tasks (begin_task i e)) = length (en_tasks e)" "en_queue (begin_task i e) = en_queue e"
  "en_done (begin_task i e) = en_done e" "j < length (en_tasks e) \<Longrightarrow> runs_of (begin_task i e) j = runs_of e j"
  by (simp_all add: begin_task_def runs_of_def update_task_nth)

lemma finish_simps [simp]:
  "length (en_tasks (finish_task i t r e)) = length (en_tasks e)" "en_queue (finish_task i t r e) = en_queue e"
  "en_done (finish_task i t r e) = en_done e"
  "j < length (en_tasks e) \<Longrightarrow> runs_of (finish_task i t r e) j = runs_of e j + (if j = i then 1 else 0)"
  by (simp_all add: finish_task_def runs_of_def update_task_nth Let_def split: sum.splits)

lemma execute_facts:
  assumes "execute_task i (now, w, e) = Some (now', w', e')"
  shows "static e' = static e" "en_queue e' = en_queue e"
    "j < length (en_tasks e) \<Longrightarrow> runs_of e' j = runs_of e j + (if j = i then 1 else 0)"
  using assms by (auto simp: execute_task_def split: prod.splits option.splits)

text \<open>Waiting requests are all served, unless the scheduler is stopped first.\<close>

lemma drain:
  assumes "prompt e"
  shows "\<exists>v. sched_step\<^sup>*\<^sup>* (placed s (now, w, e) Waiting) (placed s v Waiting) \<and> en_queue (snd (snd v)) = [] \<and>
    static (snd (snd v)) = static e \<and>
    (\<forall>i < length (en_tasks e). runs_of (snd (snd v)) i = runs_of e i +
       int (length (filter (\<lambda>name. find_task name e = Some i) (en_queue e))))"
  using assms
proof (induction "en_queue e" arbitrary: now w e)
  case Nil
  then show ?case by (intro exI [of _ "(now, w, e)"]) simp
next
  case (Cons name q)
  let ?e = "e\<lparr>en_queue := q\<rparr>"
  obtain now1 w1 e1 where x: "run_task_by_name name (now, w, ?e) = Some (now1, w1, e1)"
      and st: "sched_step\<^sup>*\<^sup>* (placed s (now, w, e) Waiting) (placed s (now1, w1, e1) Waiting)"
    using by_name_steps [OF Cons.prems Cons.hyps(2) [symmetric], of now w s] by auto
  have f: "find_task name ?e = find_task name e" by (rule find_task_static) simp
  have e1: "static e1 = static e" "en_queue e1 = q"
    "\<And>i. i < length (en_tasks e) \<Longrightarrow> runs_of e1 i = runs_of e i + (if find_task name e = Some i then 1 else 0)"
    using x f execute_facts [of _ now w ?e now1 w1 e1]
    by (auto simp: run_task_by_name_def runs_of_def split: option.splits)
  obtain v where v: "sched_step\<^sup>*\<^sup>* (placed s (now1, w1, e1) Waiting) (placed s v Waiting)" "en_queue (snd (snd v)) = []"
      "static (snd (snd v)) = static e1"
      "\<forall>i < length (en_tasks e1). runs_of (snd (snd v)) i = runs_of e1 i +
         int (length (filter (\<lambda>name. find_task name e1 = Some i) (en_queue e1)))"
    using Cons.hyps(1) [of e1 now1 w1] e1(2) Cons.prems prompt_static [OF e1(1)] by auto
  have "runs_of (snd (snd v)) i = runs_of e i +
      int (length (filter (\<lambda>name. find_task name e = Some i) (en_queue e)))" if i: "i < length (en_tasks e)" for i
    using v(4) e1 i Cons.hyps(2) [symmetric] by (simp add: static_length [OF e1(1)] find_task_static [OF e1(1)])
  then show ?case
    using v(2,3) e1(1) rtranclp_trans [OF st v(1)] by (intro exI [of _ v]) simp
qed




subsection \<open>What all tasks guarantee, the engine guarantees\<close>

lemma sched_step_static: "sched_step s s' \<Longrightarrow> static (sy_engine s') = static (sy_engine s)"
  by (induction rule: sched_step.induct) (auto split: option.splits)

lemma sched_step_world:
  assumes "sched_step s s'" "sys_ok s"
  shows "sy_world s' = sy_world s \<or>
    (\<exists>rt \<in> set (en_tasks (sy_engine s)). \<exists>started elapsed res.
       tk_run (rt_task rt) (rt_timeout rt) started (sy_world s) = Some (sy_world s', elapsed, res))"
  using assms
proof (induction rule: sched_step.induct)
  case (sched_finish s i started "is" w' elapsed res)
  then have "i < length (en_tasks (sy_engine s))" by (simp add: sys_ok_def sched_ok_def)
  then have "en_tasks (sy_engine s) ! i \<in> set (en_tasks (sy_engine s))" by simp
  then show ?case
    using sched_finish.hyps(2)
    by (intro disjI2 bexI [of _ "en_tasks (sy_engine s) ! i"] exI [of _ started] exI [of _ elapsed] exI [of _ res])
       (simp_all add: run_of_def)
next
  case (sched_trigger s name q)
  then show ?case by (simp split: option.splits)
qed simp_all

text \<open>The scheduler runs one task after another, and nothing ends a run but its task: once the run of
  a task does not return, the scheduler never leaves it, and the records of all tasks stay as they are.\<close>

lemma blocked_run_blocks_engine:
  assumes "sched_step\<^sup>*\<^sup>* s s'" "sy_sched s = Running i t is" "run_of (sy_engine s) i t (sy_world s) = None"
  shows "sy_sched s' = Running i t is \<and> sy_engine s' = sy_engine s \<and> sy_world s' = sy_world s"
  using assms(1)
proof (induction rule: rtranclp_induct)
  case base
  then show ?case using assms(2) by simp
next
  case (step u v)
  from step.hyps(2) step.IH assms(3) show ?case by (cases rule: sched_step.cases) auto
qed

text \<open>The interface: a relation between worlds that every run of a good task respects.\<close>

locale task_guarantee =
  fixes good :: "'w task \<Rightarrow> bool" and keeps :: "'w \<Rightarrow> 'w \<Rightarrow> bool"
  assumes keeps_refl: "keeps w w"
    and keeps_trans: "keeps w w' \<Longrightarrow> keeps w' w'' \<Longrightarrow> keeps w w''"
    and run_keeps: "good t \<Longrightarrow> tk_run t timeout now w = Some (w', elapsed, res) \<Longrightarrow> keeps w w'"
begin

definition good_engine :: "'w engine \<Rightarrow> bool" where
  "good_engine e \<longleftrightarrow> (\<forall>x \<in> set (static e). good (fst x))"

lemma good_engine_tasks: "good_engine e \<longleftrightarrow> (\<forall>rt \<in> set (en_tasks e). good (rt_task rt))"
  by (auto simp: good_engine_def static_def)

lemma step_keeps:
  assumes "sched_step s s'" "sys_ok s" "good_engine (sy_engine s)"
  shows "keeps (sy_world s) (sy_world s') \<and> sys_ok s' \<and> good_engine (sy_engine s')"
proof -
  have "good_engine (sy_engine s')"
    using assms(3) sched_step_static [OF assms(1)] by (simp add: good_engine_def)
  moreover have "keeps (sy_world s) (sy_world s')"
    using sched_step_world [OF assms(1,2)] assms(3) keeps_refl run_keeps
    unfolding good_engine_tasks by metis
  ultimately show ?thesis using sched_step_ok [OF assms(1,2)] by blast
qed

lemma steps_keep:
  assumes "sched_step\<^sup>*\<^sup>* s s'" "sys_ok s" "good_engine (sy_engine s)"
  shows "keeps (sy_world s) (sy_world s')"
proof -
  have "keeps (sy_world s) (sy_world s') \<and> sys_ok s' \<and> good_engine (sy_engine s')"
    using assms(1)
  proof (induction rule: rtranclp_induct)
    case base
    then show ?case using assms(2,3) keeps_refl by blast
  next
    case (step t u)
    then show ?case using step_keeps [OF step.hyps(2)] keeps_trans by blast
  qed
  then show ?thesis by blast
qed

end

end
