(* ===== verification/Agent_Tasks.thy ===== *)
theory Agent_Tasks
  imports Risk_Facts Feed_Sync Agent_Engine
begin

text \<open>
  The tasks of \<^verbatim>\<open>internal/agent\<close>: \<^verbatim>\<open>audit.go\<close> enriches names seen as suspicious and blocks the
  malicious ones, \<^verbatim>\<open>feedsync.go\<close> adds threat feeds, \<^verbatim>\<open>osint.go\<close> promotes names with evidence to the
  threat feed, \<^verbatim>\<open>whitelist_update.go\<close> replaces the whitelist.  They share the world of the risk service; the
  times that a task remembers are beside it in \<open>agent_world\<close>.  Parameters are the record \<open>agent_env\<close>: the
  networks, the formats \<^verbatim>\<open>%.2f\<close> and \<^verbatim>\<open>%q\<close>, JSON encoders, the ZIP reader, and when the deadline of the
  context is found to have passed.  Log lines are left out.
\<close>

datatype download = Bad_Request err | No_Reply err | Reply int string "err option"

record zip_entry =
  ze_name :: string
  ze_open :: "(string \<times> err option) go_result"

record 'r agent_env =
  ag_risk :: risk_env
  ag_sync :: "'r sync_env"
  ag_done :: "nat \<Rightarrow> err option"
  ag_stamp :: "int \<Rightarrow> string"
  ag_fixed :: "real \<Rightarrow> string"
  ag_quote :: "string \<Rightarrow> string"
  ag_quote_list :: "string list \<Rightarrow> string"
  ag_report :: "sync_report \<Rightarrow> string"
  ag_download :: "string \<Rightarrow> download"
  ag_unzip :: "string \<Rightarrow> zip_entry list option"
  ag_elapsed :: int

record 'r agent_world =
  aw_risk :: "'r world"
  aw_last_audit :: int
  aw_last_alert :: int

text \<open>\<^verbatim>\<open>_ = store.RecordAgentEvent(...)\<close>.\<close>

definition log_event ::
  "'r agent_env \<Rightarrow> string \<Rightarrow> string \<Rightarrow> string \<Rightarrow> string \<Rightarrow> 'r world \<Rightarrow> 'r world" where
  "log_event env taskName eventType domain details w =
     w\<lparr>w_store := fst (record_agent_event (rk_io (ag_risk env)) (rk_sql_now (ag_risk env)) taskName eventType
        domain details (w_store w))\<rparr>"

text \<open>A field of a JSON object with a number.\<close>

definition json_int :: "string \<Rightarrow> int \<Rightarrow> string" where
  "json_int key n = quoted key @ '':'' @ itoa n"

definition json_fields :: "string list \<Rightarrow> string" where
  "json_fields fs = ''{'' @ join_with '','' fs @ ''}''"

subsection \<open>Auditing\<close>

record audit_config =
  ad_min :: int
  ad_max :: int
  ad_threshold :: real
  ad_timeout :: int

definition new_audit_config :: "audit_config \<Rightarrow> audit_config" where
  "new_audit_config c =
     \<lparr>ad_min = (if ad_min c \<le> 0 then 3 else ad_min c), ad_max = (if ad_max c \<le> 0 then 50 else ad_max c),
      ad_threshold = (if ad_threshold c \<le> 0 then 7 / 10 else ad_threshold c),
      ad_timeout = (if ad_timeout c \<le> 0 then 5 * second else ad_timeout c)\<rparr>"

record audit_result =
  au_audited :: int
  au_blocked :: int
  au_skipped :: int
  au_errors :: int

definition interim_verdict :: "int \<Rightarrow> verdict" where
  "interim_verdict score = (if 70 \<le> score then Malicious else if score < 40 then Safe else Suspicious)"

text \<open>Verdict, score, confidence and reasons of a name.\<close>

definition audit_assess ::
  "'r agent_env \<Rightarrow> 'r service \<Rightarrow> string \<Rightarrow> verdict \<times> int \<times> real \<times> string list" where
  "audit_assess env s domain =
     (let (tlsScore, tlsReasons) = rk_tls (ag_risk env) domain;
          (whoisScore, whoisReasons) = rk_whois (ag_risk env) domain;
          score = tlsScore + whoisScore;
          reasons = tlsReasons @ whoisReasons;
          v = interim_verdict score;
          confidence = min 1 (45 / 100 + of_int score / 120);
          current = \<lparr>res_domain = domain, res_verdict = v, res_confidence = confidence, res_score = score,
                     res_reasons = reasons, res_category = []\<rparr>;
          (v', score', confidence', reasons') =
            (if ai_enabled (sv_ai s) \<and> v = Suspicious then
               (case ai_refine (sv_ai s) (rk_ai (ag_risk env)) domain current of
                  Inl _ \<Rightarrow> (v, score, confidence, reasons)
                | Inr r \<Rightarrow>
                    if res_verdict r = Malicious then
                      (Malicious, if score < res_score r then res_score r else score,
                       if confidence < res_confidence r then res_confidence r else confidence,
                       reasons @ res_reasons r)
                    else (v, score, confidence, reasons))
             else (v, score, confidence, reasons))
      in (v', if 100 < score' then 100 else score', confidence', reasons'))"

definition block_reason :: "'r agent_env \<Rightarrow> int \<Rightarrow> real \<Rightarrow> string" where
  "block_reason env score confidence =
     ''agent: auto-block (enriched, score='' @ itoa score @ '', confidence='' @ ag_fixed env confidence @ '')''"

definition audit_domain ::
  "'r agent_env \<Rightarrow> audit_config \<Rightarrow> 'r service \<Rightarrow> string \<Rightarrow> 'r world \<Rightarrow> 'r world \<times> string go_result" where
  "audit_domain env cfg s domain w =
     (case get_override (rk_io (ag_risk env)) domain (w_store w) of
        Inl e \<Rightarrow> (w, Inl (''check override: '' @ e))
      | Inr (Some _) \<Rightarrow> (w, Inr ''skipped'')
      | Inr None \<Rightarrow>
          (case audit_assess env s domain of
             (v, score, confidence, reasons) \<Rightarrow>
               if v = Malicious \<and> ad_threshold cfg \<le> confidence then
                 (case upsert_override (rk_io (ag_risk env)) (rk_sql_now (ag_risk env)) domain ''block''
                         (block_reason env score confidence) (w_store w) of
                    (st, Inl e) \<Rightarrow> (w\<lparr>w_store := st\<rparr>, Inl (''upsert override: '' @ e))
                  | (st, Inr _) \<Rightarrow>
                      let w1 = w\<lparr>w_store := st\<rparr>;
                          w2 = (if redis_enabled (sv_redis s)
                                then w1\<lparr>w_redis := fst (redis_delete (sv_redis s) (analysis_key domain) (w_redis w1))\<rparr>
                                else w1);
                          details = json_fields [json_int ''score'' score,
                            quoted ''confidence'' @ '':'' @ ag_fixed env confidence,
                            quoted ''reasons'' @ '':'' @ ag_quote_list env reasons]
                      in (log_event env ''audit'' ''auto_block'' domain details w2, Inr ''blocked''))
               else
                 (let details = json_fields [json_int ''score'' score,
                        quoted ''confidence'' @ '':'' @ ag_fixed env confidence,
                        quoted ''verdict'' @ '':'' @ quoted (verdict_string v)]
                  in (log_event env ''audit'' ''reviewed'' domain details w, Inr ''reviewed''))))"

text \<open>The loop over the names; \<open>k\<close> counts the tests of the context.\<close>

fun audit_loop ::
  "'r agent_env \<Rightarrow> audit_config \<Rightarrow> 'r service \<Rightarrow> nat \<Rightarrow> domain_count list \<Rightarrow> audit_result \<Rightarrow> 'r world \<Rightarrow>
     'r world \<times> audit_result go_result" where
  "audit_loop env cfg s k [] res w = (w, Inr res)"
| "audit_loop env cfg s k (dc # dcs) res w =
     (case ag_done env k of
        Some e \<Rightarrow> (w, Inl e)
      | None \<Rightarrow>
          (case audit_domain env cfg s (fst dc) w of
             (w1, Inl _) \<Rightarrow> audit_loop env cfg s (Suc k) dcs (res\<lparr>au_errors := au_errors res + 1\<rparr>) w1
           | (w1, Inr action) \<Rightarrow>
               let res1 = (if action = ''blocked'' then res\<lparr>au_blocked := au_blocked res + 1\<rparr>
                           else if action = ''skipped'' then res\<lparr>au_skipped := au_skipped res + 1\<rparr> else res)
               in audit_loop env cfg s (Suc k) dcs (res1\<lparr>au_audited := au_audited res + 1\<rparr>) w1))"

definition audit_run ::
  "'r agent_env \<Rightarrow> audit_config \<Rightarrow> 'r service \<Rightarrow> int \<Rightarrow> 'r agent_world \<Rightarrow> 'r agent_world \<times> unit go_result" where
  "audit_run env cfg s now aw =
     (if \<not> enabled (w_store (aw_risk aw)) then (aw, Inr ())
      else
        let since = aw_last_audit aw; aw1 = aw\<lparr>aw_last_audit := now\<rparr> in
        (case query_suspicious_domains (rk_io (ag_risk env)) (ag_stamp env since) (ad_min cfg) (ad_max cfg)
                (w_store (aw_risk aw1)) of
           Inl e \<Rightarrow> (aw1, Inl (''query suspicious domains: '' @ e))
         | Inr [] \<Rightarrow> (aw1, Inr ())
         | Inr domains \<Rightarrow>
             (case audit_loop env cfg s 0 domains
                     \<lparr>au_audited = 0, au_blocked = 0, au_skipped = 0, au_errors = 0\<rparr> (aw_risk aw1) of
                (w, Inl e) \<Rightarrow> (aw1\<lparr>aw_risk := w\<rparr>, Inl e)
              | (w, Inr res) \<Rightarrow>
                  let details = json_fields [json_int ''audited'' (au_audited res),
                        json_int ''auto_blocked'' (au_blocked res), json_int ''skipped'' (au_skipped res),
                        json_int ''errors'' (au_errors res)]
                  in (aw1\<lparr>aw_risk := log_event env ''audit'' ''audit_completed'' [] details w\<rparr>, Inr ()))))"

definition audit_task :: "'r agent_env \<Rightarrow> audit_config \<Rightarrow> 'r service \<Rightarrow> 'r agent_world task" where
  "audit_task env cfg s = \<lparr>tk_name = ''audit'',
     tk_run = (\<lambda>timeout now aw. case audit_run env (new_audit_config cfg) s now aw of
        (aw', r) \<Rightarrow> Some (aw', ag_elapsed env, r))\<rparr>"


subsection \<open>Feed synchronisation\<close>

record feed_sync_config =
  fc_sources :: "string list"
  fc_file_root :: string
  fc_max_bytes :: int
  fc_redis_addr :: string
  fc_redis_password :: string
  fc_redis_db :: int
  fc_key :: string
  fc_timeout :: int
  fc_drift_ratio :: real
  fc_drift_min :: int
  fc_min_writes :: int

definition new_feed_sync_config :: "feed_sync_config \<Rightarrow> feed_sync_config" where
  "new_feed_sync_config c =
     c\<lparr>fc_key := (if fc_key c = [] then default_threat_feed_key else fc_key c),
       fc_timeout := (if fc_timeout c \<le> 0 then 30 * second else fc_timeout c),
       fc_file_root := (if fc_file_root c = [] then ''./data'' else fc_file_root c),
       fc_max_bytes := (if fc_max_bytes c \<le> 0 then default_max_feed_bytes else fc_max_bytes c)\<rparr>"

definition feed_options :: "feed_sync_config \<Rightarrow> string \<Rightarrow> sync_options" where
  "feed_options c source =
     \<lparr>so_source = source, so_file_root = fc_file_root c, so_max_bytes = fc_max_bytes c,
      so_redis_addr = fc_redis_addr c, so_redis_password = fc_redis_password c, so_redis_db = fc_redis_db c,
      so_key = fc_key c, so_dry_run = False, so_replace = False, so_drift_ratio = fc_drift_ratio c,
      so_drift_min = fc_drift_min c, so_min_writes = fc_min_writes c\<rparr>"

record feed_counts =
  fk_ok :: int
  fk_failed :: int
  fk_written :: int

text \<open>The texts go into the details of an event as they are.\<close>

definition feed_error_details :: "string \<Rightarrow> err \<Rightarrow> string" where
  "feed_error_details source e =
     json_fields [quoted ''source'' @ '':'' @ quoted source, quoted ''error'' @ '':'' @ quoted e]"

definition note_feed :: "'r agent_env \<Rightarrow> string \<Rightarrow> sync_report go_result \<Rightarrow> 'r world \<Rightarrow> 'r world" where
  "note_feed env source r w =
     (if \<not> enabled (w_store w) then w
      else (case r of
          Inl e \<Rightarrow> log_event env ''feedsync'' ''feed_error'' [] (feed_error_details source e) w
        | Inr rep \<Rightarrow>
            let w1 = log_event env ''feedsync'' ''feed_synced'' [] (ag_report env rep) w in
            if sr_drift rep then log_event env ''feedsync'' ''feed_parser_drift'' [] (ag_report env rep) w1 else w1))"

definition count_feed :: "sync_report go_result \<Rightarrow> feed_counts \<Rightarrow> feed_counts" where
  "count_feed r c = (case r of
      Inl _ \<Rightarrow> c\<lparr>fk_failed := fk_failed c + 1\<rparr>
    | Inr rep \<Rightarrow> c\<lparr>fk_ok := fk_ok c + 1, fk_written := fk_written c + sr_written rep\<rparr>)"

text \<open>\<^term>\<open>None\<close> when a synchronisation does not return.\<close>

fun feed_loop ::
  "'r agent_env \<Rightarrow> feed_sync_config \<Rightarrow> nat \<Rightarrow> string list \<Rightarrow> feed_counts \<Rightarrow> 'r world \<Rightarrow>
     ('r world \<times> feed_counts go_result) option" where
  "feed_loop env cfg k [] c w = Some (w, Inr c)"
| "feed_loop env cfg k (source0 # sources) c w =
     (let source = trim_space source0 in
      if source = [] then feed_loop env cfg k sources c w
      else (case ag_done env k of
          Some e \<Rightarrow> Some (w, Inl e)
        | None \<Rightarrow>
            (case feed_sync (ag_sync env) (feed_options cfg source) (w_redis w) of
               None \<Rightarrow> None
             | Some (r, rep) \<Rightarrow>
                 feed_loop env cfg (Suc k) sources (count_feed rep c) (note_feed env source rep (w\<lparr>w_redis := r\<rparr>)))))"

definition feed_run ::
  "'r agent_env \<Rightarrow> feed_sync_config \<Rightarrow> 'r world \<Rightarrow> ('r world \<times> unit go_result) option" where
  "feed_run env cfg w =
     (if fc_sources cfg = [] then Some (w, Inr ())
      else if trim_space (fc_redis_addr cfg) = [] then Some (w, Inr ())
      else (case feed_loop env cfg 0 (fc_sources cfg) \<lparr>fk_ok = 0, fk_failed = 0, fk_written = 0\<rparr> w of
          None \<Rightarrow> None
        | Some (w', Inl e) \<Rightarrow> Some (w', Inl e)
        | Some (w', Inr c) \<Rightarrow>
            let summary = json_fields [json_int ''sources_ok'' (fk_ok c), json_int ''sources_failed'' (fk_failed c),
                  json_int ''total_written'' (fk_written c)];
                w1 = (if enabled (w_store w') then log_event env ''feedsync'' ''feedsync_completed'' [] summary w' else w')
            in Some (w1, if 0 < fk_failed c \<and> fk_ok c = 0
                 then Inl (''all '' @ itoa (fk_failed c) @ '' feed sources failed'') else Inr ())))"

definition feed_sync_task :: "'r agent_env \<Rightarrow> feed_sync_config \<Rightarrow> 'r agent_world task" where
  "feed_sync_task env cfg = \<lparr>tk_name = ''feedsync'',
     tk_run = (\<lambda>timeout now aw. case feed_run env (new_feed_sync_config cfg) (aw_risk aw) of
        None \<Rightarrow> None
      | Some (w, r) \<Rightarrow> Some (aw\<lparr>aw_risk := w\<rparr>, ag_elapsed env, r))\<rparr>"

subsection \<open>OSINT\<close>

record osint_config =
  oc_max :: int
  oc_lookback :: int
  oc_key :: string

definition new_osint_config :: "osint_config \<Rightarrow> osint_config" where
  "new_osint_config c =
     \<lparr>oc_max = (if oc_max c \<le> 0 then 50 else oc_max c),
      oc_lookback = (if oc_lookback c \<le> 0 then 24 * 3600 * second else oc_lookback c),
      oc_key = (if oc_key c = [] then ''safe-road:threat:feed'' else oc_key c)\<rparr>"

record osint_counts =
  on_checked :: int
  on_promoted :: int
  on_skipped :: int

definition promote ::
  "'r agent_env \<Rightarrow> osint_config \<Rightarrow> 'r service \<Rightarrow> string \<Rightarrow> report \<Rightarrow> 'r world \<Rightarrow> 'r world \<times> bool" where
  "promote env cfg s domain rep w =
     (if \<not> rp_should_block rep \<or> \<not> redis_enabled (sv_redis s) then (w, False)
      else (case set_add (sv_redis s) (oc_key cfg) [domain] (w_redis w) of
          (r, Inl _) \<Rightarrow> (w\<lparr>w_redis := r\<rparr>, False)
        | (r, Inr _) \<Rightarrow>
            (log_event env ''osint-audit'' ''threat_feed_promote'' domain
               (json_fields [json_int ''evidence'' (int (length (rp_evidence rep)))])
               (w\<lparr>w_redis := fst (redis_delete (sv_redis s) (analysis_key domain) r)\<rparr>), True)))"

fun osint_loop ::
  "'r agent_env \<Rightarrow> osint_config \<Rightarrow> 'r service \<Rightarrow> nat \<Rightarrow> domain_count list \<Rightarrow> osint_counts \<Rightarrow> 'r world \<Rightarrow>
     'r world \<times> osint_counts go_result" where
  "osint_loop env cfg s k [] c w = (w, Inr c)"
| "osint_loop env cfg s k (dc # dcs) c w =
     (if oc_max cfg \<le> on_checked c then (w, Inr c)
      else (case ag_done env k of
          Some e \<Rightarrow> (w, Inl e)
        | None \<Rightarrow>
            if \<not> should_lookup (fst dc) (no_result\<lparr>res_domain := fst dc\<rparr>) then
              osint_loop env cfg s (Suc k) dcs (c\<lparr>on_skipped := on_skipped c + 1\<rparr>) w
            else
              (let c1 = c\<lparr>on_checked := on_checked c + 1\<rparr> in
               case osint_lookup (rk_osint (ag_risk env)) (sv_osint s) (fst dc) False (osint_state_of w) of
                 (st, rep, Some _) \<Rightarrow> osint_loop env cfg s (Suc k) dcs c1 (with_osint_state w st)
               | (st, rep, None) \<Rightarrow>
                   (case promote env cfg s (fst dc) rep (with_osint_state w st) of
                      (w1, promoted) \<Rightarrow> osint_loop env cfg s (Suc k) dcs
                        (if promoted then c1\<lparr>on_promoted := on_promoted c1 + 1\<rparr> else c1) w1))))"

definition osint_run ::
  "'r agent_env \<Rightarrow> osint_config \<Rightarrow> 'r service \<Rightarrow> int \<Rightarrow> 'r world \<Rightarrow> 'r world \<times> unit go_result" where
  "osint_run env cfg s now w =
     (if \<not> enabled (w_store w) \<or> \<not> osint_enabled (sv_osint s) then (w, Inr ())
      else (case query_recent_candidates (rk_io (ag_risk env)) (ag_stamp env (now - oc_lookback cfg)) (oc_max cfg * 3)
              (w_store w) of
          Inl e \<Rightarrow> (w, Inl e)
        | Inr candidates \<Rightarrow>
            (case osint_loop env cfg s 0 candidates \<lparr>on_checked = 0, on_promoted = 0, on_skipped = 0\<rparr> w of
               (w1, Inl e) \<Rightarrow> (w1, Inl e)
             | (w1, Inr c) \<Rightarrow>
                 (log_event env ''osint-audit'' ''osint_audit_completed'' []
                    (json_fields [json_int ''checked'' (on_checked c), json_int ''promoted'' (on_promoted c),
                       json_int ''skipped'' (on_skipped c)]) w1, Inr ()))))"

definition osint_task :: "'r agent_env \<Rightarrow> osint_config \<Rightarrow> 'r service \<Rightarrow> 'r agent_world task" where
  "osint_task env cfg s = \<lparr>tk_name = ''osint-audit'',
     tk_run = (\<lambda>timeout now aw. case osint_run env (new_osint_config cfg) s now (aw_risk aw) of
        (w, r) \<Rightarrow> Some (aw\<lparr>aw_risk := w\<rparr>, ag_elapsed env, r))\<rparr>"

subsection \<open>Updating the whitelist\<close>

record whitelist_config =
  wc_url :: string
  wc_timeout :: int
  wc_enabled :: bool

definition new_whitelist_config :: "whitelist_config \<Rightarrow> whitelist_config" where
  "new_whitelist_config c = c\<lparr>wc_timeout := (if wc_timeout c \<le> 0 then 5 * 60 * second else wc_timeout c)\<rparr>"

definition csv_limit :: nat where
  "csv_limit = 128 * 1024 * 1024"

text \<open>The scanner behind a limited reader: an error after the limit is not seen.\<close>

definition parse_csv :: "string \<Rightarrow> err option \<Rightarrow> string list go_result" where
  "parse_csv content e =
     (case scan_lines (take csv_limit content) of
        Inl e' \<Rightarrow> Inl (''scan csv: '' @ e')
      | Inr lines \<Rightarrow>
          (case (if csv_limit \<le> length content then None else e) of
             Some e' \<Rightarrow> Inl (''scan csv: '' @ e')
           | None \<Rightarrow> Inr (List.map_filter whitelist_line lines)))"

definition csv_entry :: "zip_entry list \<Rightarrow> zip_entry option" where
  "csv_entry files =
     (case find (\<lambda>f. has_suffix (to_lower (ze_name f)) ''.csv'') files of
        Some f \<Rightarrow> Some f
      | None \<Rightarrow> (case files of [] \<Rightarrow> None | f # _ \<Rightarrow> Some f))"

definition download_and_parse :: "'r agent_env \<Rightarrow> whitelist_config \<Rightarrow> string list go_result" where
  "download_and_parse env cfg =
     (case ag_download env (wc_url cfg) of
        Bad_Request e \<Rightarrow> Inl (''create request: '' @ e)
      | No_Reply e \<Rightarrow> Inl (''http request: '' @ e)
      | Reply status body e \<Rightarrow>
          if status \<noteq> 200 then Inl (''http error: status code '' @ itoa status)
          else (case e of
              Some e' \<Rightarrow> Inl (''read response body: '' @ e')
            | None \<Rightarrow>
                (case ag_unzip env body of
                   None \<Rightarrow> parse_csv body None
                 | Some files \<Rightarrow>
                     (case csv_entry files of
                        None \<Rightarrow> Inl ''no files found inside ZIP archive''
                      | Some f \<Rightarrow>
                          (case ze_open f of
                             Inl e' \<Rightarrow> Inl (''open file inside zip: '' @ e')
                           | Inr (content, e') \<Rightarrow> parse_csv content e')))))"

definition update_failed :: "'r agent_env \<Rightarrow> err \<Rightarrow> 'r world \<Rightarrow> 'r world" where
  "update_failed env e w = log_event env ''whitelist_update'' ''whitelist_update_failed'' []
     (json_fields [quoted ''error'' @ '':'' @ ag_quote env e]) w"

definition reload_whitelist :: "'r agent_env \<Rightarrow> 'r world \<Rightarrow> 'r world \<times> unit go_result" where
  "reload_whitelist env w =
     (case w_whitelist w of
        None \<Rightarrow> (w, Inr ())
      | Some wl \<Rightarrow>
          (case load_from_db (rk_io (ag_risk env)) (w_store w) wl of (wl', r) \<Rightarrow> (w\<lparr>w_whitelist := Some wl'\<rparr>, r)))"

definition whitelist_run ::
  "'r agent_env \<Rightarrow> whitelist_config \<Rightarrow> 'r world \<Rightarrow> 'r world \<times> unit go_result" where
  "whitelist_run env cfg w0 =
     (if \<not> wc_enabled cfg then (w0, Inr ())
      else if \<not> enabled (w_store w0) then
        (w0, Inl ''sqlite store is disabled or nil, cannot run whitelist update task'')
      else if wc_url cfg = [] then (w0, Inl ''whitelist update source URL is empty'')
      else
        let w = log_event env ''whitelist_update'' ''whitelist_update_started'' [] ''Download and import started'' w0 in
        (case download_and_parse env cfg of
           Inl e \<Rightarrow> (update_failed env e w, Inl e)
         | Inr domains \<Rightarrow>
             (case update_whitelist (rk_io (ag_risk env)) domains (w_store w) of
                (st, Inl e) \<Rightarrow> (update_failed env e (w\<lparr>w_store := st\<rparr>), Inl (''update sqlite: '' @ e))
              | (st, Inr _) \<Rightarrow>
                  (case reload_whitelist env (w\<lparr>w_store := st\<rparr>) of
                     (w1, Inl e) \<Rightarrow> (update_failed env e w1, Inl (''reload bloom filter: '' @ e))
                   | (w1, Inr _) \<Rightarrow>
                       (log_event env ''whitelist_update'' ''whitelist_update_completed'' []
                          (json_fields [json_int ''domains_count'' (int (length domains)),
                             json_int ''elapsed_ms'' (ag_elapsed env div 1000000)]) w1, Inr ())))))"

definition whitelist_task :: "'r agent_env \<Rightarrow> whitelist_config \<Rightarrow> 'r agent_world task" where
  "whitelist_task env cfg = \<lparr>tk_name = ''whitelist_update'',
     tk_run = (\<lambda>timeout now aw. case whitelist_run env (new_whitelist_config cfg) (aw_risk aw) of
        (w, r) \<Rightarrow> Some (aw\<lparr>aw_risk := w\<rparr>, ag_elapsed env, r))\<rparr>"


subsection \<open>Administrators' rules are left alone\<close>

text \<open>What a task keeps: every answer that a rule gives.\<close>

definition keeps_rules :: "store \<Rightarrow> store \<Rightarrow> bool" where
  "keeps_rules st st' \<longleftrightarrow> (\<forall>n v. override_answer n st = Some v \<longrightarrow> override_answer n st' = Some v)"

lemma keeps_rules_refl [simp]: "keeps_rules st st"
  by (simp add: keeps_rules_def)

lemma keeps_rules_trans: "keeps_rules a b \<Longrightarrow> keeps_rules b c \<Longrightarrow> keeps_rules a c"
  by (simp add: keeps_rules_def)

definition same_rules :: "store \<Rightarrow> store \<Rightarrow> bool" where
  "same_rules st st' \<longleftrightarrow> map_option db_overrides st' = map_option db_overrides st"

lemma same_rules_keeps: "same_rules st st' \<Longrightarrow> keeps_rules st st'"
  by (cases st; cases st') (auto simp: same_rules_def keeps_rules_def override_answer_walk override_value_def [abs_def])

lemma log_event_rules: "same_rules (w_store w) (w_store (log_event env t ty name details w))"
  by (cases "w_store w") (auto simp: same_rules_def log_event_def record_agent_event_def run_db_def split: option.splits)

lemma keeps_log [simp]:
  "keeps_rules st (w_store (log_event env t ty name details w)) \<longleftrightarrow> keeps_rules st (w_store w)"
proof -
  have a: "keeps_rules (w_store w) (w_store (log_event env t ty name details w))"
    by (rule same_rules_keeps [OF log_event_rules])
  have "same_rules (w_store (log_event env t ty name details w)) (w_store w)"
    using log_event_rules [of w env t ty name details] by (simp add: same_rules_def)
  then have "keeps_rules (w_store (log_event env t ty name details w)) (w_store w)" by (rule same_rules_keeps)
  with a show ?thesis using keeps_rules_trans by blast
qed

lemma update_whitelist_rules:
  "update_whitelist io ds st = (st', r) \<Longrightarrow> keeps_rules st st'"
  by (rule same_rules_keeps, cases st)
     (auto simp: same_rules_def update_whitelist_def run_db_def split: option.splits sum.splits)

text \<open>Parents of a name are ordered by being parents.\<close>

lemma parent_of_parent:
  assumes "x \<in> set (parent_names n)" "k \<in> set (parent_names n)" "length x \<le> length k"
  shows "x \<in> set (parent_names k)"
proof -
  from assms(1) obtain u where u: "n = u @ x" "u = [] \<or> last u = CHR ''.''"
    by (auto simp: parent_names_iff has_suffix_iff)
  from assms(2) obtain v where v: "n = v @ k" "v = [] \<or> last v = CHR ''.''"
    by (auto simp: parent_names_iff has_suffix_iff)
  from u(1) v(1) assms(3) obtain z where z: "u = v @ z" "k = z @ x"
    by (auto simp: append_eq_append_conv2)
  show ?thesis
  proof (cases "z = []")
    case False
    with z u have "z = butlast z @ [CHR ''.'']" by (metis append_butlast_last_id last_appendR append_is_Nil_conv)
    then show ?thesis using z(2) by (simp add: parent_names_iff has_suffix_iff) (metis append.assoc append_Cons append_Nil)
  qed (use z in \<open>simp add: parent_names_self\<close>)
qed

lemma new_rule_keeps:
  assumes "get_override io k (Some d) = Inr None"
  shows "keeps_rules (Some d) (Some (put_override_row now k action reason d))"
proof -
  have none: "override_value d c = None" if "c \<in> set (parent_names k)" for c
    using assms that
    by (auto simp: get_override_def ask_db_def first_hit_None wrap_error_def select_override_def override_value_def
        split: sum.splits option.splits)
  have "walk (override_value (put_override_value now d k (action, reason))) n = Some v"
    if v: "walk (override_value d) n = Some v" for n v
  proof -
    obtain x where x: "x \<in> set (parent_names n)" "override_value d x = Some v"
        "\<forall>y \<in> set (parent_names n). length x < length y \<longrightarrow> override_value d y = None"
      using v unfolding walk_Some by blast
    have "k \<notin> set (parent_names n) \<or> length k < length x"
      using x(1,2) none [of x] parent_of_parent [of x n k] by force
    then have k: "x \<noteq> k" "\<forall>y \<in> set (parent_names n). length x < length y \<longrightarrow> y \<noteq> k" using x(1) by auto
    show ?thesis
      unfolding walk_Some using x k by (intro bexI [of _ x]) (auto simp: overrides.look_put)
  qed
  then show ?thesis by (simp add: keeps_rules_def override_answer_walk put_override_value_def)
qed

lemma audit_domain_keeps:
  assumes "audit_domain env cfg s domain w = (w', r)"
  shows "keeps_rules (w_store w) (w_store w')"
proof (cases "w_store w")
  case None
  then have "get_override io domain (w_store w) = Inr None" for io by (simp add: get_override_def ask_db_def)
  with None assms show ?thesis
    by (auto simp: audit_domain_def upsert_override_def run_db_def Let_def keeps_rules_def override_answer_def
        get_override_def ask_db_def split: prod.splits if_splits)
next
  case (Some d)
  have "keeps_rules (w_store w) st"
    if "get_override (rk_io (ag_risk env)) domain (w_store w) = Inr None"
      "upsert_override (rk_io (ag_risk env)) now domain action reason (w_store w) = (st, res)" for now action reason st res
    using that new_rule_keeps [of "rk_io (ag_risk env)" domain d now action reason] Some
    by (auto simp: upsert_override_def run_db_def split: if_splits option.splits)
  with assms show ?thesis
    by (auto simp: audit_domain_def Let_def split: sum.splits option.splits prod.splits if_splits)
qed

lemma audit_loop_keeps:
  "audit_loop env cfg s k dcs res w = (w', r) \<Longrightarrow> keeps_rules (w_store w) (w_store w')"
proof (induction dcs arbitrary: k res w)
  case (Cons dc dcs)
  show ?case
  proof (cases "ag_done env k")
    case None
    obtain w1 a where a: "audit_domain env cfg s (fst dc) w = (w1, a)" by fastforce
    have "keeps_rules (w_store w1) (w_store w')"
      using Cons a None by (cases a) (auto simp: Let_def)
    with audit_domain_keeps [OF a] show ?thesis by (rule keeps_rules_trans)
  qed (use Cons in auto)
qed simp

lemma audit_run_keeps:
  assumes "audit_run env cfg s now aw = (aw', r)"
  shows "keeps_rules (w_store (aw_risk aw)) (w_store (aw_risk aw'))"
  using assms
  by (auto simp: audit_run_def Let_def simp del: audit_loop.simps dest!: audit_loop_keeps split: if_splits sum.splits list.splits prod.splits)

lemma feed_loop_keeps:
  "feed_loop env cfg k sources c w = Some (w', r) \<Longrightarrow> keeps_rules (w_store w) (w_store w')"
proof (induction sources arbitrary: k c w)
  case (Cons source sources)
  have n: "keeps_rules (w_store x) (w_store (note_feed env s r' x))" for s r' x
    by (auto simp: note_feed_def Let_def split: sum.splits)
  show ?case
    using Cons keeps_rules_trans [OF n]
    by (auto simp: Let_def split: if_splits option.splits prod.splits) fastforce
qed simp

lemma feed_run_keeps:
  "feed_run env cfg w = Some (w', r) \<Longrightarrow> keeps_rules (w_store w) (w_store w')"
  using feed_loop_keeps
  by (fastforce simp: feed_run_def Let_def split: if_splits option.splits sum.splits prod.splits)

lemma promote_keeps: "promote env cfg s domain rep w = (w', b) \<Longrightarrow> keeps_rules (w_store w) (w_store w')"
  by (auto simp: promote_def split: if_splits prod.splits sum.splits)

lemma osint_loop_keeps:
  "osint_loop env cfg s k dcs c w = (w', r) \<Longrightarrow> keeps_rules (w_store w) (w_store w')"
proof (induction dcs arbitrary: k c w)
  case (Cons dc dcs)
  have st: "w_store (with_osint_state w x) = w_store w" for x by (simp add: with_osint_state_def)
  obtain st' rep e where l: "osint_lookup (rk_osint (ag_risk env)) (sv_osint s) (fst dc) False (osint_state_of w) = (st', rep, e)"
    by (cases "osint_lookup (rk_osint (ag_risk env)) (sv_osint s) (fst dc) False (osint_state_of w)")
  obtain w1 b where p: "promote env cfg s (fst dc) rep (with_osint_state w st') = (w1, b)" by fastforce
  have ih: "keeps_rules (w_store w) (w_store w')"
    if "osint_loop env cfg s k' dcs c' (with_osint_state w x) = (w', r)" for k' c' x
    using Cons.IH [OF that] by (simp add: st)
  have "keeps_rules (w_store w) (w_store w1)" using promote_keeps [OF p] by (simp add: st)
  then show ?case
    using Cons l p ih
    by (auto simp: Let_def split: if_splits option.splits intro: keeps_rules_trans)
qed simp

lemma osint_run_keeps:
  "osint_run env cfg s now w = (w', r) \<Longrightarrow> keeps_rules (w_store w) (w_store w')"
  using osint_loop_keeps by (fastforce simp: osint_run_def split: if_splits sum.splits prod.splits)

lemma reload_store [simp]: "reload_whitelist env w = (w', r) \<Longrightarrow> w_store w' = w_store w"
  by (auto simp: reload_whitelist_def split: option.splits prod.splits)

lemma whitelist_run_keeps:
  assumes "whitelist_run env cfg w = (w', r)"
  shows "keeps_rules (w_store w) (w_store w')"
proof -
  let ?w = "log_event env ''whitelist_update'' ''whitelist_update_started'' [] ''Download and import started'' w"
  have u: "keeps_rules (w_store w) st" if "update_whitelist io ds (w_store ?w) = (st, r)" for io ds st r
    using keeps_rules_trans [OF _ update_whitelist_rules [OF that]] by simp
  show ?thesis
    using assms u reload_store
    by (auto simp: whitelist_run_def update_failed_def Let_def split: if_splits sum.splits prod.splits)
qed


subsection \<open>What a block by the agent does\<close>

lemma effective_cong:
  assumes "db_overrides d' = db_overrides d" "db_group_overrides d' = db_group_overrides d"
  shows "get_effective_override io gid n (Some d') = get_effective_override io gid n (Some d)"
proof -
  have "effective_candidate io gid d' = effective_candidate io gid d"
    by (intro ext) (simp add: effective_candidate_def select_override_def assms split: option.split)
  then show ?thesis by (simp add: get_effective_override_def ask_db_def)
qed

lemma audit_blocked:
  assumes "audit_domain env cfg s n w = (w1, Inr ''blocked'')"
  shows "get_override (rk_io (ag_risk env)) n (w_store w) = Inr None \<and>
    (case audit_assess env s n of (v, score, confidence, reasons) \<Rightarrow>
       v = Malicious \<and> ad_threshold cfg \<le> confidence \<and>
       (\<exists>st details. upsert_override (rk_io (ag_risk env)) (rk_sql_now (ag_risk env)) n ''block''
          (block_reason env score confidence) (w_store w) = (st, Inr ()) \<and>
          w_store w1 = fst (record_agent_event (rk_io (ag_risk env)) (rk_sql_now (ag_risk env)) ''audit''
            ''auto_block'' n details st)))"
  using assms by (auto simp: log_event_def audit_domain_def Let_def split: sum.splits option.splits prod.splits if_splits)


definition toy_agent_env :: "toy agent_env" where
  "toy_agent_env = \<lparr>ag_risk = toy_risk_env\<lparr>rk_tls := (\<lambda>_. (90, []))\<rparr>, ag_sync = \<lparr>se_feed = plain_feed_env, se_connect = (\<lambda>_ _ _. toy_client), se_nano = 0, se_cwd = [],
       se_open_root = (\<lambda>_ _. Inl ([], True)), se_fetch = (\<lambda>_. Inl ''down''), se_gunzip = Inr\<rparr>, ag_done = (\<lambda>_. None),
     ag_stamp = (\<lambda>_. []), ag_fixed = (\<lambda>_. ''1.00''), ag_quote = quoted, ag_quote_list = (\<lambda>_. ''[]''),
     ag_report = (\<lambda>_. []), ag_download = (\<lambda>_. Reply 200 ''b.vn'' None), ag_unzip = (\<lambda>_. None), ag_elapsed = 0\<rparr>"

definition toy_audit_config :: audit_config where
  "toy_audit_config = new_audit_config \<lparr>ad_min = 0, ad_max = 0, ad_threshold = 0, ad_timeout = 0\<rparr>"

lemma toy_audit: "\<exists>w1. audit_domain toy_agent_env toy_audit_config toy_service ''a'' ruled_world = (w1, Inr ''blocked'')"
proof -
  have "get_override no_faults ''a'' (w_store ruled_world) = Inr None"
    by (simp add: ruled_world_def get_override_def ask_db_def first_hit_None select_override_def no_faults_def
        fresh_db_def empty_db_def wrap_error_def)
  moreover have "audit_assess toy_agent_env toy_service ''a'' = (Malicious, 90, 1, [])"
    by (simp add: audit_assess_def toy_agent_env_def toy_risk_env_def interim_verdict_def)
  ultimately show ?thesis
    by (simp add: audit_domain_def toy_agent_env_def toy_risk_env_def toy_audit_config_def new_audit_config_def
        upsert_override_def run_db_def valid_action_def ruled_world_def no_faults_def Let_def)
qed



subsection \<open>What a whitelist update does\<close>

lemma is_allowed_cong:
  assumes "db_whitelist d' = db_whitelist d"
  shows "is_allowed io (Some d') ow n = is_allowed io (Some d) ow n"
proof -
  have "is_domain_whitelisted io c (Some d') = is_domain_whitelisted io c (Some d)" for c
    by (simp add: is_domain_whitelisted_def ask_db_def assms split: option.split)
  then have "candidate_allowed io (Some d') = candidate_allowed io (Some d)"
    by (intro ext) (simp add: candidate_allowed_def enabled_def split: option.split)
  then show ?thesis by (simp add: is_allowed_def split: option.split)
qed

lemma log_event_db:
  assumes "w_store w = Some d"
  shows "\<exists>d'. w_store (log_event env t ty name details w) = Some d' \<and> db_whitelist d' = db_whitelist d"
    "w_whitelist (log_event env t ty name details w) = w_whitelist w"
  using assms by (auto simp: log_event_def record_agent_event_def run_db_def split: option.splits)

lemma is_allowed_log:
  assumes "w_store w = Some d"
  shows "is_allowed io (w_store (log_event env t ty name details w)) ow n = is_allowed io (w_store w) ow n"
  using log_event_db(1) [OF assms, of env t ty name details] is_allowed_cong assms by metis

lemma insert_all_whitelist:
  "\<exists>ws'. fold (insert_whitelist no_faults) ds (Inr ws) = Inr ws' \<and> length ws' \<le> length ws + length ds"
proof (induction ds arbitrary: ws)
  case (Cons x ds)
  have "insert_whitelist no_faults x (Inr ws) = Inr (if x = [] \<or> x \<in> set ws then ws else ws @ [x])"
    by (simp add: insert_whitelist_def no_faults_def)
  then show ?case using Cons [of "if x = [] \<or> x \<in> set ws then ws else ws @ [x]"] by (fastforce split: if_splits)
qed simp

lemma listed_same:
  assumes "set ws = set ds - {[]}"
  shows "listed ws n \<longleftrightarrow> listed ds n"
  using assms by (auto simp: listed_def)

lemma replaced_whitelist:
  assumes "length ds \<le> 2 ^ 50"
  shows "\<exists>ws wl'. update_whitelist no_faults ds (Some d) = (Some (d\<lparr>db_whitelist := ws\<rparr>), Inr ()) \<and>
    load_from_db no_faults (Some (d\<lparr>db_whitelist := ws\<rparr>)) wl = (wl', Inr ()) \<and>
    (\<forall>n. is_allowed no_faults (Some (d\<lparr>db_whitelist := ws\<rparr>)) (Some wl') n \<longleftrightarrow> listed ds n)"
proof -
  obtain ws where ws: "fold (insert_whitelist no_faults) ds (Inr []) = Inr ws" "length ws \<le> length ds"
    using insert_all_whitelist [of ds "[]"] by auto
  then have s: "set ws = set ds - {[]}" using insert_whitelist_fold [OF ws(1)] by auto
  let ?d = "d\<lparr>db_whitelist := ws\<rparr>"
  obtain wl' where wl': "load_from_db no_faults (Some ?d) wl = (wl', Inr ())"
    by (cases "ws = []") (simp_all add: load_from_db_def enabled_def get_whitelist_def ask_db_def no_faults_def)
  have "is_allowed no_faults (Some ?d) (Some wl') n \<longleftrightarrow> listed ds n" for n
    using is_allowed_db [OF _ wl'] ws(2) assms listed_same [OF s] by simp
  moreover have "update_whitelist no_faults ds (Some d) = (Some ?d, Inr ())"
    using ws(1) by (simp add: update_whitelist_def run_db_def no_faults_def [abs_def])
  ultimately show ?thesis using wl' by blast
qed

text \<open>C22. A whitelist update that could not read its source changes no decision and returns the error;
  otherwise it replaces the whole whitelist: afterwards a name is allowed exactly when it or a parent was
  read from the source.  A page that answers with status 200 and holds no name is such a source: it leaves
  the whitelist empty.\<close>

theorem whitelist_update_replaces:
  assumes "whitelist_run env cfg w = (w', r)" "rk_io (ag_risk env) = no_faults" "w_store w = Some d"
    "w_whitelist w = Some wl" "wc_enabled cfg" "wc_url cfg \<noteq> []"
    "\<And>ds. download_and_parse env cfg = Inr ds \<Longrightarrow> length ds \<le> 2 ^ 50"
  shows "case download_and_parse env cfg of
      Inl e \<Rightarrow> r = Inl e \<and>
        (\<forall>n. is_allowed no_faults (w_store w') (w_whitelist w') n \<longleftrightarrow>
             is_allowed no_faults (w_store w) (w_whitelist w) n)
    | Inr ds \<Rightarrow> r = Inr () \<and>
        (\<forall>n. is_allowed no_faults (w_store w') (w_whitelist w') n \<longleftrightarrow> listed ds n)"
proof -
  let ?w = "log_event env ''whitelist_update'' ''whitelist_update_started'' [] ''Download and import started'' w"
  obtain d1 where d1: "w_store ?w = Some d1" "db_whitelist d1 = db_whitelist d"
    using log_event_db(1) [OF assms(3)] by blast
  have wl1: "w_whitelist ?w = Some wl" using assms(4) by (simp add: log_event_db(2) [OF assms(3)])
  show ?thesis
  proof (cases "download_and_parse env cfg")
    case (Inl e)
    then have "r = Inl e" "w' = update_failed env e ?w"
      using assms(1,3,5,6) by (simp_all add: whitelist_run_def enabled_def)
    then show ?thesis
      using Inl d1 wl1 assms(3,4) is_allowed_log [OF d1(1)] is_allowed_cong [OF d1(2)]
      by (simp add: update_failed_def log_event_db(2) [OF d1(1)])
  next
    case (Inr ds)
    obtain ws wl' where u: "update_whitelist no_faults ds (Some d1) = (Some (d1\<lparr>db_whitelist := ws\<rparr>), Inr ())"
        "load_from_db no_faults (Some (d1\<lparr>db_whitelist := ws\<rparr>)) wl = (wl', Inr ())"
        "\<forall>n. is_allowed no_faults (Some (d1\<lparr>db_whitelist := ws\<rparr>)) (Some wl') n \<longleftrightarrow> listed ds n"
      using replaced_whitelist [OF assms(7) [OF Inr]] by blast
    define w1 where "w1 = ?w\<lparr>w_store := Some (d1\<lparr>db_whitelist := ws\<rparr>), w_whitelist := Some wl'\<rparr>"
    have w1: "w_store w1 = Some (d1\<lparr>db_whitelist := ws\<rparr>)" "w_whitelist w1 = Some wl'" by (simp_all add: w1_def)
    have "r = Inr ()" "\<exists>details. w' = log_event env ''whitelist_update'' ''whitelist_update_completed'' [] details w1"
      using assms(1,2,3,5,6) Inr u(1,2) d1(1) wl1
      by (auto simp: whitelist_run_def enabled_def reload_whitelist_def w1_def)
    then show ?thesis
      using Inr u(3) w1 is_allowed_log [OF w1(1)] log_event_db(2) [OF w1(1)] by auto
  qed
qed

definition toy_whitelist_config :: whitelist_config where
  "toy_whitelist_config = \<lparr>wc_url = ''https://x'', wc_timeout = 1, wc_enabled = True\<rparr>"

theorem whitelist_update_replaces_witness:
  "\<not> is_allowed no_faults (w_store (fst (whitelist_run (toy_agent_env\<lparr>ag_download := (\<lambda>_. Reply 200 [] None)\<rparr>)
        toy_whitelist_config (ruled_world\<lparr>w_whitelist := Some new_whitelist\<rparr>))))
      (w_whitelist (fst (whitelist_run (toy_agent_env\<lparr>ag_download := (\<lambda>_. Reply 200 [] None)\<rparr>)
        toy_whitelist_config (ruled_world\<lparr>w_whitelist := Some new_whitelist\<rparr>)))) ''a''"
proof -
  let ?env = "toy_agent_env\<lparr>ag_download := (\<lambda>_. Reply 200 [] None)\<rparr>"
  let ?w = "ruled_world\<lparr>w_whitelist := Some new_whitelist\<rparr>"
  have d: "download_and_parse ?env toy_whitelist_config = Inr []"
    by (simp add: download_and_parse_def toy_agent_env_def parse_csv_def scan_lines_def csv_limit_def)
  have "rk_io (ag_risk ?env) = no_faults" "w_store ?w = Some (fresh_db [] 30 True)"
    by (simp_all add: toy_agent_env_def toy_risk_env_def ruled_world_def)
  then show ?thesis
    using whitelist_update_replaces [OF prod.collapse [symmetric], of ?env ?w "fresh_db [] 30 True" new_whitelist
        toy_whitelist_config] d
    by (simp add: toy_whitelist_config_def listed_def)
qed

end
