(* ===== verification/Alert.thy ===== *)
theory Alert
  imports Agent_Tasks
begin

text \<open>
  \<^verbatim>\<open>internal/agent/alert.go\<close>: the task that reports blocks and feed errors to a webhook, and the
  names that imitate a Vietnamese bank or authority to Telegram, Slack and by mail.  The fixed texts of the
  messages (in Vietnamese, with symbols) are lists of pieces between the fields; the networks and the JSON encoders
  are parameters too.  The notifications of the three channels run in goroutines of their own whose errors
  are only logged: \<open>alert_run\<close> returns which of them it starts.  The exchange with a mail server is a sequence
  of steps, each of which may fail; the connection is closed after it.
\<close>

record alert_config =
  lc_webhook :: string
  lc_min :: int
  lc_timeout :: int
  lc_telegram :: bool
  lc_telegram_token :: string
  lc_telegram_chat :: string
  lc_slack :: bool
  lc_slack_url :: string
  lc_email :: bool
  lc_smtp_host :: string
  lc_smtp_port :: int
  lc_smtp_user :: string
  lc_email_from :: string
  lc_email_password :: string
  lc_email_to :: string

definition new_alert_config :: "alert_config \<Rightarrow> alert_config" where
  "new_alert_config c =
     c\<lparr>lc_min := (if lc_min c \<le> 0 then 1 else lc_min c),
       lc_timeout := (if lc_timeout c \<le> 0 then 10 * second else lc_timeout c),
       lc_smtp_user := (if lc_smtp_user c = [] then lc_email_from c else lc_smtp_user c)\<rparr>"

record alert_event =
  le_type :: string
  le_domain :: string
  le_details :: string
  le_created :: string

record alert_payload =
  lp_timestamp :: string
  lp_event_type :: string
  lp_summary :: string
  lp_events :: "alert_event list"

record spoof_result =
  sf_domain :: string
  sf_brand :: string
  sf_official :: string
  sf_category :: string
  sf_reason :: string

datatype post_reply = Post_Invalid err | Post_Failed err | Post_Status int

datatype smtp_step =
    Dial | Handshake | Hello | Has_StartTLS | Start_TLS | Auth string string | Mail_From string | Rcpt_To string
  | Data | Write string | Close_Data | Quit

record alert_env =
  al_post :: "string \<Rightarrow> string \<Rightarrow> post_reply"
  al_smtp :: "smtp_step list \<Rightarrow> smtp_step \<Rightarrow> err option"
  al_to_unicode :: "string \<Rightarrow> string option"
  al_order :: "(string \<times> string) list \<Rightarrow> (string \<times> string) list"
  al_since :: "int \<Rightarrow> string"
  al_stamp :: "int \<Rightarrow> string"
  al_encode :: "alert_payload \<Rightarrow> string go_result"
  al_encode_discord :: "string \<Rightarrow> string \<Rightarrow> string \<Rightarrow> string go_result"
  al_encode_telegram :: "string \<Rightarrow> string \<Rightarrow> string go_result"
  al_encode_slack :: "string \<Rightarrow> string go_result"
  al_government :: string
  al_bank :: string
  al_discord_texts :: "string \<times> string \<times> string"
  al_telegram_texts :: "string \<times> string list \<times> string"
  al_slack_texts :: "string \<times> string list \<times> string"
  al_email_texts :: "string \<times> string list \<times> string"
  al_subject_texts :: "string \<times> string"

text \<open>A text with fields: the pieces between them, and the fields.\<close>

fun fill :: "string list \<Rightarrow> string list \<Rightarrow> string" where
  "fill [] vals = []"
| "fill (p # ps) [] = p"
| "fill (p # ps) (f # fs) = p @ f @ fill ps fs"

subsection \<open>Brands of Vietnam\<close>

definition gov_brands :: "(string \<times> string) list" where
  "gov_brands =
     [(''chinhphu'', ''chinhphu.vn''), (''bocongan'', ''bocongan.gov.vn''),
      (''baohiemxahoi'', ''baohiemxahoi.gov.vn''), (''vtv'', ''vtv.vn'')]"

definition bank_brands :: "(string \<times> string) list" where
  "bank_brands =
     [(''vietcombank'', ''vietcombank.com.vn''), (''techcombank'', ''techcombank.com.vn''),
      (''bidv'', ''bidv.com.vn''), (''vietinbank'', ''vietinbank.vn''), (''mbbank'', ''mbbank.com.vn''),
      (''agribank'', ''agribank.com.vn''), (''vpbank'', ''vpbank.com.vn''), (''acb'', ''acb.com.vn''),
      (''sacombank'', ''sacombank.com.vn''), (''tpbank'', ''tpb.vn''), (''vib'', ''vib.com.vn''),
      (''hdbank'', ''hdbank.com.vn''), (''shb'', ''shb.com.vn''), (''scb'', ''scb.com.vn'')]"

definition is_brand_match :: "string \<Rightarrow> string \<Rightarrow> bool" where
  "is_brand_match reasonText brandName \<longleftrightarrow>
     (let r = to_lower reasonText; b = to_lower brandName in
      contains r (''of '' @ b @ '' brand'') \<or> contains r (''keyword ('' @ b @ '')'') \<or>
      contains r (''subdomain usage ('' @ b @ '')''))"

definition brand_hit :: "string \<Rightarrow> string \<Rightarrow> string \<Rightarrow> string \<times> string \<Rightarrow> spoof_result option" where
  "brand_hit domain reason category b =
     (if is_brand_match reason (fst b) then
        Some \<lparr>sf_domain = domain, sf_brand = fst b, sf_official = snd b, sf_category = category, sf_reason = reason\<rparr>
      else None)"

text \<open>The two tables are Go maps, which are iterated in any order (\<open>al_order\<close>).\<close>

definition detect_vietnam_brand_spoof :: "alert_env \<Rightarrow> string \<Rightarrow> spoof_result option" where
  "detect_vietnam_brand_spoof al domain =
     (case check_brand_spoofing (al_to_unicode al) domain 30 of
        None \<Rightarrow> None
      | Some (reason, _) \<Rightarrow>
          (case first_some (brand_hit domain reason (al_government al)) (al_order al gov_brands) of
             Some s \<Rightarrow> Some s
           | None \<Rightarrow> first_some (brand_hit domain reason (al_bank al)) (al_order al bank_brands)))"

subsection \<open>The webhook\<close>

definition is_discord_webhook :: "string \<Rightarrow> bool" where
  "is_discord_webhook url \<longleftrightarrow>
     contains url ''discord.com/api/webhooks'' \<or> contains url ''discordapp.com/api/webhooks''"

definition newline_char :: char where "newline_char = char_of (10 :: nat)"

definition discord_line :: "alert_env \<Rightarrow> alert_event \<Rightarrow> string" where
  "discord_line al e =
     (case al_discord_texts al of
        (blocked, failed, info) \<Rightarrow>
          if le_type e = ''auto_block'' then blocked @ '' Auto-blocked: `'' @ le_domain e @ ''`'' @ [newline_char]
          else if le_type e = ''feed_error'' then failed @ '' Feed error: '' @ le_details e @ [newline_char]
          else info @ '' '' @ le_type e @ '': '' @ le_domain e @ [newline_char])"

definition discord_description :: "alert_env \<Rightarrow> alert_event list \<Rightarrow> string" where
  "discord_description al events =
     concat (map (discord_line al) (take 10 events)) @
     (if 10 < length events
      then newline_char # ''... and '' @ itoa (int (length events) - 10) @ '' more events'' else [])"

definition build_discord_payload :: "alert_env \<Rightarrow> alert_payload \<Rightarrow> string go_result" where
  "build_discord_payload al p =
     al_encode_discord al (discord_description al (lp_events p)) (lp_summary p) (lp_timestamp p)"

definition post_alert :: "alert_env \<Rightarrow> string \<Rightarrow> string \<Rightarrow> string \<Rightarrow> string \<Rightarrow> string \<Rightarrow> err option" where
  "post_alert al create_error post_error status_error url body =
     (case al_post al url body of
        Post_Invalid e \<Rightarrow> Some (create_error @ e)
      | Post_Failed e \<Rightarrow> Some (post_error @ e)
      | Post_Status status \<Rightarrow>
          if status < 200 \<or> 300 \<le> status then Some (status_error @ itoa status) else None)"

definition send_webhook :: "alert_env \<Rightarrow> alert_config \<Rightarrow> alert_payload \<Rightarrow> err option" where
  "send_webhook al cfg p =
     (case (if is_discord_webhook (lc_webhook cfg) then build_discord_payload al p else al_encode al p) of
        Inl e \<Rightarrow> Some (''marshal payload: '' @ e)
      | Inr body \<Rightarrow>
          post_alert al ''create request: '' ''http post: '' ''webhook returned HTTP '' (lc_webhook cfg) body)"

subsection \<open>Telegram and Slack\<close>

definition message_text :: "string \<times> string list \<times> string \<Rightarrow> (spoof_result \<Rightarrow> string list) \<Rightarrow> spoof_result list \<Rightarrow> string" where
  "message_text texts vals es =
     (case texts of (head, pieces, foot) \<Rightarrow> head @ concat (map (\<lambda>e. fill pieces (vals e)) es) @ foot)"

definition spoof_fields :: "spoof_result \<Rightarrow> string list" where
  "spoof_fields e = [sf_domain e, sf_category e, sf_brand e, sf_official e, sf_official e, sf_reason e]"

definition send_telegram :: "alert_env \<Rightarrow> alert_config \<Rightarrow> spoof_result list \<Rightarrow> err option" where
  "send_telegram al cfg es =
     (if lc_telegram_token cfg = [] \<or> lc_telegram_chat cfg = [] then Some ''invalid telegram configuration''
      else (case al_encode_telegram al (lc_telegram_chat cfg) (message_text (al_telegram_texts al) spoof_fields es) of
          Inl e \<Rightarrow> Some (''telegram marshal: '' @ e)
        | Inr body \<Rightarrow>
            post_alert al ''telegram create request: '' ''telegram http post: '' ''telegram returned HTTP ''
              (''https://api.telegram.org/bot'' @ lc_telegram_token cfg @ ''/sendMessage'') body))"

definition send_slack :: "alert_env \<Rightarrow> alert_config \<Rightarrow> spoof_result list \<Rightarrow> err option" where
  "send_slack al cfg es =
     (if lc_slack_url cfg = [] then Some ''invalid slack configuration''
      else (case al_encode_slack al (message_text (al_slack_texts al) spoof_fields es) of
          Inl e \<Rightarrow> Some (''slack marshal: '' @ e)
        | Inr body \<Rightarrow>
            post_alert al ''slack create request: '' ''slack http post: '' ''slack returned HTTP ''
              (lc_slack_url cfg) body))"

subsection \<open>Mail\<close>

text \<open>Go's \<^verbatim>\<open>html.EscapeString\<close>.\<close>

definition escape_char :: "char \<Rightarrow> string" where
  "escape_char c =
     (if c = CHR ''&'' then ''&amp;'' else if c = CHR 0x27 then ''&#39;'' else if c = CHR ''<'' then ''&lt;''
      else if c = CHR ''>'' then ''&gt;'' else if c = CHR 0x22 then ''&#34;'' else [c])"

definition escape_string :: "string \<Rightarrow> string" where
  "escape_string s = concat (map escape_char s)"

text \<open>Steps until one fails; the steps taken, the failing one included.\<close>

fun run_steps :: "alert_env \<Rightarrow> smtp_step list \<Rightarrow> smtp_step list \<Rightarrow> smtp_step list \<times> err option" where
  "run_steps al done [] = (done, None)"
| "run_steps al done (st # sts) =
     (case al_smtp al done st of
        Some e \<Rightarrow> (done @ [st], Some e)
      | None \<Rightarrow> run_steps al (done @ [st]) sts)"

definition smtp_steps :: "int \<Rightarrow> string \<Rightarrow> string \<Rightarrow> string \<Rightarrow> string list \<Rightarrow> string \<Rightarrow> smtp_step list option" where
  "smtp_steps port user password from_addr recipients msg =
     (let mail = [Auth user password, Mail_From from_addr] @ map Rcpt_To recipients @
            [Data, Write msg, Close_Data, Quit] in
      if port = 465 then Some ([Dial, Handshake, Hello] @ mail)
      else if port = 587 then Some ([Dial, Hello, Has_StartTLS, Start_TLS] @ mail)
      else None)"

definition send_smtp ::
  "alert_env \<Rightarrow> int \<Rightarrow> string \<Rightarrow> string \<Rightarrow> string \<Rightarrow> string list \<Rightarrow> string \<Rightarrow> smtp_step list \<times> err option" where
  "send_smtp al port user password from_addr recipients msg =
     (case smtp_steps port user password from_addr recipients msg of
        None \<Rightarrow> ([], Some (''unsupported smtp port '' @ itoa port @ '': use 465 implicit TLS or 587 STARTTLS''))
      | Some sts \<Rightarrow> run_steps al [] sts)"

definition email_message :: "alert_env \<Rightarrow> spoof_result list \<Rightarrow> string" where
  "email_message al es =
     (case al_subject_texts al of
        (before, after) \<Rightarrow>
          before @ itoa (int (length es)) @ after @
          message_text (al_email_texts al) (map escape_string \<circ> spoof_fields) es)"

definition send_email :: "alert_env \<Rightarrow> alert_config \<Rightarrow> spoof_result list \<Rightarrow> smtp_step list \<times> err option" where
  "send_email al cfg es =
     (if lc_smtp_host cfg = [] \<or> lc_smtp_port cfg \<le> 0 \<or> lc_email_from cfg = [] \<or> lc_email_to cfg = [] \<or>
         lc_smtp_user cfg = [] \<or> lc_email_password cfg = [] then ([], Some ''invalid smtp configuration'')
      else (case send_smtp al (lc_smtp_port cfg) (lc_smtp_user cfg) (lc_email_password cfg) (lc_email_from cfg)
              [lc_email_to cfg] (email_message al es) of
          (done, None) \<Rightarrow> (done, None)
        | (done, Some e) \<Rightarrow> (done, Some (''smtp send mail: '' @ e))))"

subsection \<open>The task\<close>

definition alert_event_of :: "agent_event \<Rightarrow> alert_event" where
  "alert_event_of e =
     \<lparr>le_type = ae_type e, le_domain = ae_domain e, le_details = ae_details e, le_created = ae_created e\<rparr>"

definition critical_events :: "alert_env \<Rightarrow> agent_event list \<Rightarrow> spoof_result list" where
  "critical_events al events =
     List.map_filter (\<lambda>e. detect_vietnam_brand_spoof al (ae_domain e))
       (filter (\<lambda>e. ae_type e = ''auto_block'') events)"

definition count_type :: "string \<Rightarrow> agent_event list \<Rightarrow> int" where
  "count_type t events = int (length (filter (\<lambda>e. ae_type e = t) events))"

definition alert_summary :: "agent_event list \<Rightarrow> string" where
  "alert_summary events =
     (let blocks = count_type ''auto_block'' events; errors = count_type ''feed_error'' events in
      ''Safe Road: '' @ join_with '', ''
        ((if 0 < blocks then [itoa blocks @ '' domains auto-blocked''] else []) @
         (if 0 < errors then [itoa errors @ '' feed sync errors''] else [])))"

definition alert_payload_of :: "alert_env \<Rightarrow> int \<Rightarrow> agent_event list \<Rightarrow> alert_payload" where
  "alert_payload_of al now events =
     \<lparr>lp_timestamp = al_stamp al now, lp_event_type = ''safe_road_agent_alert'', lp_summary = alert_summary events,
      lp_events = map alert_event_of events\<rparr>"

definition alert_channels :: "alert_config \<Rightarrow> bool" where
  "alert_channels cfg \<longleftrightarrow> trim_space (lc_webhook cfg) \<noteq> [] \<or> lc_telegram cfg \<or> lc_slack cfg \<or> lc_email cfg"

definition alert_window :: "'r agent_env \<Rightarrow> alert_env \<Rightarrow> int \<Rightarrow> store \<Rightarrow> agent_event list go_result" where
  "alert_window env al since st =
     query_agent_events (rk_io (ag_risk env)) (al_since al since) [''auto_block'', ''feed_error''] 100 st"

datatype notification = By_Telegram | By_Slack | By_Email

definition notifications :: "alert_config \<Rightarrow> spoof_result list \<Rightarrow> notification list" where
  "notifications cfg critical =
     (if critical = [] then []
      else (if lc_telegram cfg then [By_Telegram] else []) @ (if lc_slack cfg then [By_Slack] else []) @
           (if lc_email cfg then [By_Email] else []))"

definition alert_run ::
  "'r agent_env \<Rightarrow> alert_env \<Rightarrow> alert_config \<Rightarrow> int \<Rightarrow> 'r agent_world \<Rightarrow>
     'r agent_world \<times> unit go_result \<times> notification list" where
  "alert_run env al cfg now aw =
     (if \<not> alert_channels cfg then (aw, Inr (), [])
      else if \<not> enabled (w_store (aw_risk aw)) then (aw, Inr (), [])
      else (case alert_window env al (aw_last_alert aw) (w_store (aw_risk aw)) of
          Inl e \<Rightarrow> (aw, Inl (''query agent events: '' @ e), [])
        | Inr events \<Rightarrow>
            if int (length events) < lc_min cfg then (aw, Inr (), [])
            else
              let critical = critical_events al events;
                  failures = (if trim_space (lc_webhook cfg) \<noteq> []
                    then (case send_webhook al cfg (alert_payload_of al now events) of
                        Some e \<Rightarrow> [''webhook: '' @ e] | None \<Rightarrow> []) else []);
                  w1 = log_event env ''alert'' ''alert_sent'' []
                    (json_fields [json_int ''events_count'' (int (length events)),
                       json_int ''critical_count'' (int (length critical))]) (aw_risk aw);
                  aw1 = aw\<lparr>aw_last_alert := now, aw_risk := w1\<rparr>
              in if failures \<noteq> [] then
                   (let errStr = join_with ''; '' failures in
                    (aw1\<lparr>aw_risk := log_event env ''alert'' ''alert_failed'' [] errStr w1\<rparr>,
                     Inl (''send alert failures: '' @ errStr), notifications cfg critical))
                 else (aw1, Inr (), notifications cfg critical)))"

definition alert_task :: "'r agent_env \<Rightarrow> alert_env \<Rightarrow> alert_config \<Rightarrow> 'r agent_world task" where
  "alert_task env al cfg = \<lparr>tk_name = ''alert'',
     tk_run = (\<lambda>timeout now aw. case alert_run env al (new_alert_config cfg) now aw of
        (aw', r, _) \<Rightarrow> Some (aw', ag_elapsed env, r))\<rparr>"


subsection \<open>Credentials only over TLS\<close>

lemma run_steps_prefix:
  "\<exists>k \<le> length sts. fst (run_steps al done sts) = done @ take k sts \<and>
     (\<forall>i. Suc i < k \<longrightarrow> al_smtp al (done @ take i sts) (sts ! i) = None)"
proof (induction sts arbitrary: "done")
  case (Cons st sts)
  show ?case
  proof (cases "al_smtp al done st")
    case None
    obtain k where k: "k \<le> length sts" "fst (run_steps al (done @ [st]) sts) = (done @ [st]) @ take k sts"
        "\<forall>i. Suc i < k \<longrightarrow> al_smtp al ((done @ [st]) @ take i sts) (sts ! i) = None"
      using Cons.IH [of "done @ [st]"] by blast
    have "al_smtp al (done @ take i (st # sts)) ((st # sts) ! i) = None" if "Suc i < Suc k" for i
      using k(3) that None by (cases i) auto
    then show ?thesis using k(1,2) None by (intro exI [of _ "Suc k"]) simp
  next
    case (Some e)
    then show ?thesis by (intro exI [of _ 1]) simp
  qed
qed simp

lemma run_steps_before:
  assumes "trace = fst (run_steps al [] (pre @ tls # mid @ auth # rest))" "auth \<in> set trace" "auth \<notin> set (pre @ tls # mid)"
  shows "\<exists>u. trace = pre @ tls # mid @ auth # u \<and> al_smtp al pre tls = None"
proof -
  let ?sts = "pre @ tls # mid @ auth # rest"
  obtain k where k: "trace = take k ?sts" "\<forall>i. Suc i < k \<longrightarrow> al_smtp al (take i ?sts) (?sts ! i) = None"
    using run_steps_prefix [of ?sts al "[]"] assms(1) by auto
  have "length (pre @ tls # mid) < k"
  proof (rule ccontr)
    assume "\<not> length (pre @ tls # mid) < k"
    then have "take k ((pre @ tls # mid) @ auth # rest) = take k (pre @ tls # mid)" by (simp only: take_append) simp
    then have "take k ?sts = take k (pre @ tls # mid)" by simp
    then show False using assms(2,3) k(1) set_take_subset [of k "pre @ tls # mid"] by auto
  qed
  moreover from this have "al_smtp al pre tls = None" using k(2) [rule_format, of "length pre"] by simp
  moreover have "take k ?sts = (pre @ tls # mid) @ auth # take (k - length (pre @ tls # mid) - 1) rest"
    using calculation(1) by (cases "k - length (pre @ tls # mid)") (simp_all add: take_Cons')
  ultimately show ?thesis using k(1) by auto
qed


definition toy_alert_env :: alert_env where
  "toy_alert_env = \<lparr>al_post = (\<lambda>_ _. Post_Status 500), al_smtp = (\<lambda>_ _. None), al_to_unicode = (\<lambda>_. None),
     al_order = id, al_since = (\<lambda>_. ''2026''), al_stamp = (\<lambda>_. []), al_encode = (\<lambda>_. Inr []),
     al_encode_discord = (\<lambda>_ _ _. Inr []), al_encode_telegram = (\<lambda>_ _. Inr []), al_encode_slack = (\<lambda>_. Inr []),
     al_government = ''g'', al_bank = ''b'', al_discord_texts = ([], [], []), al_telegram_texts = ([], [], []),
     al_slack_texts = ([], [], []), al_email_texts = ([], [], []), al_subject_texts = ([], [])\<rparr>"


subsection \<open>What an alert leaves behind\<close>

lemma alert_window_from:
  assumes "alert_window env al since st = Inr events" "e \<in> set events"
  shows "al_since al since \<le> ae_created e \<and> length events \<le> 100"
  using assms
  by (cases st) (auto simp: alert_window_def query_agent_events_def ask_db_def Let_def order_asc_def
      split: option.splits dest: in_set_takeD)

text \<open>An alert closes its window whatever became of it.  With a channel and enough events in the window,
  a run reports at most the first hundred, and its result says whether the webhook took them; but in either
  case the window moves to the time of the run, and no later run looks at an event from before that time: events
  the webhook refused, and those beyond the first hundred, are never reported.\<close>

lemma alert_window_closes:
  assumes "alert_run env al cfg now aw = (aw', r, sent)" "alert_channels cfg" "w_store (aw_risk aw) = Some d"
    "alert_window env al (aw_last_alert aw) (Some d) = Inr events" "lc_min cfg \<le> int (length events)"
  shows "length events \<le> 100 \<and> aw_last_alert aw' = now \<and>
    (isl r \<longleftrightarrow> trim_space (lc_webhook cfg) \<noteq> [] \<and> send_webhook al cfg (alert_payload_of al now events) \<noteq> None) \<and>
    (\<forall>st later. alert_window env al now st = Inr later \<longrightarrow> (\<forall>e \<in> set later. al_since al now \<le> ae_created e))"
proof -
  have l: "length events \<le> 100"
    using alert_window_from [OF assms(4), of "hd events"] by (cases events) simp_all
  have n: "\<not> int (length events) < lc_min cfg" using assms(5) by simp
  let ?hook = "send_webhook al cfg (alert_payload_of al now events)"
  have "aw_last_alert aw' = now \<and> (isl r \<longleftrightarrow> trim_space (lc_webhook cfg) \<noteq> [] \<and> ?hook \<noteq> None)"
  proof (cases "trim_space (lc_webhook cfg) \<noteq> [] \<and> ?hook \<noteq> None")
    case True
    then obtain e where "?hook = Some e" by blast
    then show ?thesis using assms(1) True
      by (simp add: alert_run_def assms(2-4) n enabled_def Let_def) auto
  next
    case False
    then have f: "(if trim_space (lc_webhook cfg) \<noteq> []
        then (case ?hook of Some e \<Rightarrow> [''webhook: '' @ e] | None \<Rightarrow> []) else []) = []" by auto
    show ?thesis using assms(1) False
      by (simp add: alert_run_def assms(2-4) n enabled_def Let_def f) auto
  qed
  with l show ?thesis using alert_window_from by blast
qed

definition toy_alert_config :: alert_config where
  "toy_alert_config = \<lparr>lc_webhook = ''https://x'', lc_min = 0, lc_timeout = 1, lc_telegram = False,
     lc_telegram_token = [], lc_telegram_chat = [], lc_slack = False, lc_slack_url = [], lc_email = False,
     lc_smtp_host = [], lc_smtp_port = 0, lc_smtp_user = [], lc_email_from = [], lc_email_password = [],
     lc_email_to = []\<rparr>"

lemma alert_window_closes_witness:
  "isl (fst (snd (alert_run toy_agent_env toy_alert_env toy_alert_config 7
     \<lparr>aw_risk = ruled_world, aw_last_audit = 0, aw_last_alert = 0\<rparr>))) \<and>
   aw_last_alert (fst (alert_run toy_agent_env toy_alert_env toy_alert_config 7
     \<lparr>aw_risk = ruled_world, aw_last_audit = 0, aw_last_alert = 0\<rparr>)) = 7"
proof -
  let ?aw = "\<lparr>aw_risk = ruled_world, aw_last_audit = 0, aw_last_alert = 0\<rparr>"
  obtain aw' r sent where run: "alert_run toy_agent_env toy_alert_env toy_alert_config 7 ?aw = (aw', r, sent)"
    by (cases "alert_run toy_agent_env toy_alert_env toy_alert_config 7 ?aw")
  have t: "trim_space ''https://x'' \<noteq> []" by code_simp
  then have c: "alert_channels toy_alert_config" by (simp add: alert_channels_def toy_alert_config_def)
  have w: "alert_window toy_agent_env toy_alert_env 0 (Some (fresh_db [] 30 True)) = Inr []"
    by (simp add: alert_window_def query_agent_events_def ask_db_def toy_agent_env_def toy_risk_env_def no_faults_def
        fresh_db_def empty_db_def order_asc_def)
  have "\<not> contains ''https://x'' ''discord.com/api/webhooks'' \<and> \<not> contains ''https://x'' ''discordapp.com/api/webhooks''"
    by code_simp
  then have "send_webhook toy_alert_env toy_alert_config p \<noteq> None" for p
    by (simp add: send_webhook_def is_discord_webhook_def toy_alert_config_def toy_alert_env_def post_alert_def)
  then show ?thesis
    using alert_window_closes [OF run c, of "fresh_db [] 30 True" "[]"] w t run
    by (simp add: ruled_world_def toy_alert_config_def)
qed

end
