(* ===== verification/Agent.thy ===== *)
theory Agent
  imports Alert
begin

text \<open>
  The agent as \<^verbatim>\<open>cmd/core-api/main.go\<close> assembles it: the five tasks registered in one engine with the
  intervals, timeouts and switches read from the environment (\<open>rate\<close> reads a \<^verbatim>\<open>float64\<close>), and what follows
  for the engine from what its tasks do.
\<close>

subsection \<open>Assembly\<close>

definition audit_config_of :: "os_env \<Rightarrow> (string \<Rightarrow> real \<Rightarrow> real) \<Rightarrow> audit_config" where
  "audit_config_of os rate =
     \<lparr>ad_min = env_int os ''SAFE_ROAD_AGENT_AUDIT_MIN_OCCURRENCES'' 3,
      ad_max = env_int os ''SAFE_ROAD_AGENT_AUDIT_MAX_PER_CYCLE'' 50,
      ad_threshold = rate ''SAFE_ROAD_AGENT_AUDIT_CONFIDENCE_THRESHOLD'' (7 / 10),
      ad_timeout = duration_seconds os ''SAFE_ROAD_AGENT_ENRICH_TIMEOUT_SECONDS'' (5 * second)\<rparr>"

definition feed_config_of ::
  "os_env \<Rightarrow> (string \<Rightarrow> real \<Rightarrow> real) \<Rightarrow> string \<Rightarrow> string list \<Rightarrow> feed_sync_config" where
  "feed_config_of os rate feedKey feedSources =
     \<lparr>fc_sources = feedSources, fc_file_root = feed_file_root os,
      fc_max_bytes = env_int os ''SAFE_ROAD_FEED_MAX_BYTES'' default_max_feed_bytes,
      fc_redis_addr = env_string os ''SAFE_ROAD_REDIS_ADDR'' [],
      fc_redis_password = secret_string os ''SAFE_ROAD_REDIS_PASSWORD'' [],
      fc_redis_db = env_int os ''SAFE_ROAD_REDIS_DB'' 0, fc_key = feedKey,
      fc_timeout = duration_seconds os ''SAFE_ROAD_AGENT_FEED_TIMEOUT_SECONDS'' (2 * 60 * second),
      fc_drift_ratio = rate ''SAFE_ROAD_AGENT_FEED_DRIFT_INVALID_RATIO'' (1 / 5),
      fc_drift_min = env_int os ''SAFE_ROAD_AGENT_FEED_DRIFT_MIN_INVALID'' 25,
      fc_min_writes = env_int os ''SAFE_ROAD_AGENT_FEED_CACHE_INVALIDATION_MIN_WRITES'' 1\<rparr>"

definition osint_config_of :: "os_env \<Rightarrow> string \<Rightarrow> osint_config" where
  "osint_config_of os feedKey =
     \<lparr>oc_max = env_int os ''SAFE_ROAD_AGENT_OSINT_MAX_PER_CYCLE'' 50,
      oc_lookback = duration_seconds os ''SAFE_ROAD_AGENT_OSINT_LOOKBACK_SECONDS'' (24 * 3600 * second),
      oc_key = feedKey\<rparr>"

definition alert_config_of :: "os_env \<Rightarrow> alert_config" where
  "alert_config_of os =
     \<lparr>lc_webhook = secret_string os ''SAFE_ROAD_AGENT_WEBHOOK_URL'' [],
      lc_min = env_int os ''SAFE_ROAD_AGENT_ALERT_MIN_EVENTS'' 1,
      lc_timeout = duration_seconds os ''SAFE_ROAD_AGENT_ALERT_TIMEOUT_SECONDS'' (30 * second),
      lc_telegram = env_bool os ''SAFE_ROAD_ALERT_TELEGRAM_ENABLED'' False,
      lc_telegram_token = secret_string os ''SAFE_ROAD_ALERT_TELEGRAM_TOKEN'' [],
      lc_telegram_chat = env_string os ''SAFE_ROAD_ALERT_TELEGRAM_CHAT_ID'' [],
      lc_slack = env_bool os ''SAFE_ROAD_ALERT_SLACK_ENABLED'' False,
      lc_slack_url = secret_string os ''SAFE_ROAD_ALERT_SLACK_WEBHOOK_URL'' [],
      lc_email = env_bool os ''SAFE_ROAD_ALERT_EMAIL_ENABLED'' False,
      lc_smtp_host = env_string os ''SAFE_ROAD_ALERT_EMAIL_SMTP_HOST'' [],
      lc_smtp_port = env_int os ''SAFE_ROAD_ALERT_EMAIL_SMTP_PORT'' 0,
      lc_smtp_user = env_string os ''SAFE_ROAD_ALERT_EMAIL_USERNAME'' [],
      lc_email_from = env_string os ''SAFE_ROAD_ALERT_EMAIL_FROM'' [],
      lc_email_password = secret_string os ''SAFE_ROAD_ALERT_EMAIL_PASSWORD'' [],
      lc_email_to = env_string os ''SAFE_ROAD_ALERT_EMAIL_TO'' []\<rparr>"

definition alert_enabled :: "os_env \<Rightarrow> bool" where
  "alert_enabled os \<longleftrightarrow>
     secret_string os ''SAFE_ROAD_AGENT_WEBHOOK_URL'' [] \<noteq> [] \<or>
     env_bool os ''SAFE_ROAD_ALERT_TELEGRAM_ENABLED'' False \<or>
     env_bool os ''SAFE_ROAD_ALERT_SLACK_ENABLED'' False \<or> env_bool os ''SAFE_ROAD_ALERT_EMAIL_ENABLED'' False"

definition whitelist_config_of :: "os_env \<Rightarrow> whitelist_config" where
  "whitelist_config_of os =
     \<lparr>wc_url = env_string os ''SAFE_ROAD_AGENT_WHITELIST_SOURCE_URL'' ''https://tranco-list.eu/download/L/1000000'',
      wc_timeout = duration_seconds os ''SAFE_ROAD_AGENT_WHITELIST_TIMEOUT_SECONDS'' (10 * 60 * second),
      wc_enabled = env_bool os ''SAFE_ROAD_AGENT_WHITELIST_ENABLED'' True\<rparr>"

definition agent_engine ::
  "os_env \<Rightarrow> (string \<Rightarrow> real \<Rightarrow> real) \<Rightarrow> 'r agent_env \<Rightarrow> alert_env \<Rightarrow> 'r service \<Rightarrow> string \<Rightarrow> string list \<Rightarrow>
     'r agent_world engine" where
  "agent_engine os rate env al s feedKey feedSources =
     (let e1 = register_task (audit_task env (audit_config_of os rate) s)
            (duration_seconds os ''SAFE_ROAD_AGENT_AUDIT_INTERVAL_SECONDS'' (3600 * second))
            (duration_seconds os ''SAFE_ROAD_AGENT_AUDIT_TIMEOUT_SECONDS'' (5 * 60 * second)) True new_engine;
          e2 = register_task (feed_sync_task env (feed_config_of os rate feedKey feedSources))
            (duration_seconds os ''SAFE_ROAD_AGENT_FEED_INTERVAL_SECONDS'' (24 * 3600 * second))
            (duration_seconds os ''SAFE_ROAD_AGENT_FEED_TIMEOUT_SECONDS'' (2 * 60 * second))
            (feedSources \<noteq> []) e1;
          e3 = register_task (osint_task env (osint_config_of os feedKey) s)
            (duration_seconds os ''SAFE_ROAD_AGENT_OSINT_INTERVAL_SECONDS'' (3600 * second))
            (duration_seconds os ''SAFE_ROAD_AGENT_OSINT_TIMEOUT_SECONDS'' (2 * 60 * second))
            (env_bool os ''SAFE_ROAD_OSINT_ENABLED'' False) e2;
          e4 = register_task (alert_task env al (alert_config_of os))
            (duration_seconds os ''SAFE_ROAD_AGENT_ALERT_INTERVAL_SECONDS'' (15 * 60 * second))
            (duration_seconds os ''SAFE_ROAD_AGENT_ALERT_TIMEOUT_SECONDS'' (30 * second))
            (alert_enabled os) e3
      in register_task (whitelist_task env (whitelist_config_of os))
           (duration_seconds os ''SAFE_ROAD_AGENT_WHITELIST_INTERVAL_SECONDS'' (7 * 24 * 3600 * second))
           (duration_seconds os ''SAFE_ROAD_AGENT_WHITELIST_TIMEOUT_SECONDS'' (10 * 60 * second))
           (env_bool os ''SAFE_ROAD_AGENT_WHITELIST_ENABLED'' True) e4)"

text \<open>\<^term>\<open>None\<close> when the agent is switched off.\<close>

definition core_engine ::
  "os_env \<Rightarrow> (string \<Rightarrow> real \<Rightarrow> real) \<Rightarrow> 'r agent_env \<Rightarrow> alert_env \<Rightarrow> 'r service \<Rightarrow> string \<Rightarrow> string list \<Rightarrow>
     'r agent_world engine option" where
  "core_engine os rate env al s feedKey feedSources =
     (if env_bool os ''SAFE_ROAD_AGENT_ENABLED'' False
      then Some (fst (engine_start (agent_engine os rate env al s feedKey feedSources))) else None)"

subsection \<open>What all tasks keep\<close>

definition agent_tasks :: "'r agent_world task set" where
  "agent_tasks = {t. \<exists>env s. (\<exists>c. t = audit_task env c s) \<or> (\<exists>c. t = feed_sync_task env c) \<or>
     (\<exists>c. t = osint_task env c s) \<or> (\<exists>al c. t = alert_task env al c) \<or> (\<exists>c. t = whitelist_task env c)}"

lemma agent_tasks_in [simp]:
  "audit_task env ac s \<in> agent_tasks" "feed_sync_task env fc \<in> agent_tasks" "osint_task env oc s \<in> agent_tasks"
  "alert_task env al lc \<in> agent_tasks" "whitelist_task env wc \<in> agent_tasks"
  unfolding agent_tasks_def by blast+

lemma alert_run_keeps:
  assumes run: "alert_run env al cfg now aw = (aw', r, sent)"
  shows "keeps_rules (w_store (aw_risk aw)) (w_store (aw_risk aw'))"
proof -
  show ?thesis
  proof (cases "\<not> alert_channels cfg \<or> \<not> enabled (w_store (aw_risk aw))")
    case True
    then have "alert_run env al cfg now aw = (aw, Inr (), [])" by (auto simp: alert_run_def)
    with run show ?thesis by simp
  next
    case False
    show ?thesis
    proof (cases "alert_window env al (aw_last_alert aw) (w_store (aw_risk aw))")
      case (Inl e)
      with run False show ?thesis by (simp add: alert_run_def)
    next
      case (Inr events)
      let ?hook = "trim_space (lc_webhook cfg) \<noteq> [] \<and> send_webhook al cfg (alert_payload_of al now events) \<noteq> None"
      show ?thesis
        using run False Inr
        by (cases "int (length events) < lc_min cfg"; cases ?hook) (auto simp: alert_run_def Let_def)
    qed
  qed
qed

lemma agent_task_keeps:
  assumes "t \<in> agent_tasks" "tk_run t timeout now aw = Some (aw', elapsed, res)"
  shows "keeps_rules (w_store (aw_risk aw)) (w_store (aw_risk aw'))"
proof -
  from assms(1) consider (audit) env c s where "t = audit_task env c s" | (feed) env c where "t = feed_sync_task env c"
    | (osint) env c s where "t = osint_task env c s" | (alert) env al c where "t = alert_task env al c"
    | (whitelist) env c where "t = whitelist_task env c"
    unfolding agent_tasks_def by blast
  then show ?thesis
    using assms(2)
    by cases (auto simp: audit_task_def feed_sync_task_def osint_task_def alert_task_def whitelist_task_def
        dest: audit_run_keeps feed_run_keeps osint_run_keeps alert_run_keeps whitelist_run_keeps
        split: prod.splits option.splits)
qed

interpretation agent: task_guarantee "\<lambda>t. t \<in> agent_tasks"
    "\<lambda>aw aw' :: 'r agent_world. keeps_rules (w_store (aw_risk aw)) (w_store (aw_risk aw'))"
  by unfold_locales (auto intro: keeps_rules_trans agent_task_keeps)

lemma agent_engine_good: "agent.good_engine (agent_engine os rate env al s feedKey feedSources)"
  unfolding agent.good_engine_tasks
  by (auto simp: agent_engine_def register_task_def new_engine_def Let_def)


definition toy_os :: os_env where
  "toy_os = \<lparr>getenv = (\<lambda>_. []), os_cwd = [], os_open = (\<lambda>_ _. Inl [])\<rparr>"

definition toy_agent_world :: "toy agent_world" where
  "toy_agent_world = \<lparr>aw_risk = ruled_world\<lparr>w_store :=
       Some (put_override_row [] ''a'' ''allow'' ''ours'' (fresh_db [] 30 True))\<rparr>,
     aw_last_audit = 0, aw_last_alert = 0\<rparr>"

definition toy_agent_sys :: "toy agent_world sys" where
  "toy_agent_sys = (initial_sys 0 toy_agent_world)
     \<lparr>sy_engine := agent_engine toy_os (\<lambda>_ x. x) toy_agent_env toy_alert_env toy_service [] []\<rparr>"

lemma register_reachable:
  assumes "reachable_sys (s\<lparr>sy_engine := e\<rparr>)"
  shows "reachable_sys (s\<lparr>sy_engine := register_task t interval timeout on e\<rparr>)"
proof -
  have "engine_step (s\<lparr>sy_engine := e\<rparr>) (s\<lparr>sy_engine := register_task t interval timeout on e\<rparr>)"
    using api_register [of "s\<lparr>sy_engine := e\<rparr>" t interval timeout on] by (simp add: engine_step_def)
  with assms show ?thesis unfolding reachable_sys_def by (meson rtranclp.rtrancl_into_rtrancl)
qed

lemma toy_agent_reachable: "reachable_sys toy_agent_sys"
proof -
  have "reachable_sys ((initial_sys 0 toy_agent_world)\<lparr>sy_engine := new_engine\<rparr>)"
    unfolding reachable_sys_def by (intro exI [of _ 0] exI [of _ toy_agent_world]) (simp add: initial_sys_def)
  then show ?thesis unfolding toy_agent_sys_def agent_engine_def Let_def by (intro register_reachable)
qed


subsection \<open>A feed that breaks off\<close>

lemma broken_csv_never_ends:
  assumes "fr_broken (limit_reader r) \<noteq> None" "is_probably_csv (take 4096 (fr_text (limit_reader r)))"
    "\<And>u d. snd (h u d) = None"
  shows "parse_each h r u stats = None"
proof (rule ccontr)
  have b: "fr_broken (after_peek (limit_reader r)) \<noteq> None" using assms(1) by (simp add: after_peek_def)
  assume "parse_each h r u stats \<noteq> None"
  then obtain res where "parse_csv_stream h (after_peek (limit_reader r)) \<lparr>pr_stats = stats, pr_seen = [], pr_user = u\<rparr> = Some res"
    using assms(2) by (auto simp: parse_each_def Let_def)
  from csv_stream_broken [OF this b] csv_stream_no_error [OF assms(3) this] show False by simp
qed

lemma feed_sync_never_ends:
  assumes "open_source_within env (so_source (sync_defaults opts)) (so_file_root (sync_defaults opts))
      (so_max_bytes (sync_defaults opts)) = Inr r"
    "fr_broken (limit_reader r) \<noteq> None" "is_probably_csv (take 4096 (fr_text (limit_reader r)))"
    "trim_space (so_source opts) \<noteq> []" "\<not> so_dry_run (sync_defaults opts)"
    "new_redis (se_connect env) (so_redis_addr (sync_defaults opts)) (so_redis_password (sync_defaults opts))
       (so_redis_db (sync_defaults opts)) = Some k" "trim_space (so_redis_addr (sync_defaults opts)) \<noteq> []"
    "\<And>key ms s. \<not> isl (snd (rc_sadd k key ms s))"
  shows "feed_sync env opts s = None"
proof -
  have h: "snd (batch_domain (Some k) t b d) = None" for t b d
  proof -
    have f: "snd (flush (Some k) t b') = None" for b'
      using assms(8) [of t "bs_batch b'" "bs_redis b'"]
      by (auto simp: flush_def set_add_def split: prod.splits sum.splits)
    show ?thesis by (simp add: batch_domain_def Let_def f)
  qed
  have "parse_each (batch_domain (Some k) t) r u stats = None" for t u stats
    by (rule broken_csv_never_ends [OF assms(2,3) h])
  then show ?thesis
    using assms(1,4-7) by (simp add: feed_sync_def store_feed_def Let_def)
qed

text \<open>The options of the first source of a task.\<close>

definition first_options :: "feed_sync_config \<Rightarrow> string \<Rightarrow> sync_options" where
  "first_options cfg source = sync_defaults (feed_options (new_feed_sync_config cfg) (trim_space source))"

text \<open>C21. A connection that breaks off stops the agent.  If the first source of the feed task is a table of
  values whose transfer fails and keeps failing, while Redis accepts every command, the run of the task never
  returns, and the scheduler stays in it for ever: no task runs again, no request is served, and a stop of the
  engine would wait without end.  The deadline of the task does not help, since the parser takes a failed
  read for an invalid row.\<close>

theorem broken_feed_stops_agent:
  assumes "sched_step\<^sup>*\<^sup>* s s'" "sy_sched s = Running i t is"
    "rt_task (en_tasks (sy_engine s) ! i) = feed_sync_task env cfg"
    "fc_sources cfg = source # sources" "trim_space (trim_space source) \<noteq> []" "trim_space (fc_redis_addr cfg) \<noteq> []"
    "ag_done env 0 = None"
    "open_source_within (ag_sync env) (so_source (first_options cfg source)) (so_file_root (first_options cfg source))
       (so_max_bytes (first_options cfg source)) = Inr r"
    "fr_broken (limit_reader r) \<noteq> None" "is_probably_csv (take 4096 (fr_text (limit_reader r)))"
    "\<And>addr pw db key ms x. \<not> isl (snd (rc_sadd (se_connect (ag_sync env) addr pw db) key ms x))"
  shows "sy_sched s' = Running i t is \<and> sy_engine s' = sy_engine s"
proof -
  let ?cfg = "new_feed_sync_config cfg" and ?opts = "feed_options (new_feed_sync_config cfg) (trim_space source)"
  have addr: "so_redis_addr (sync_defaults ?opts) = fc_redis_addr cfg" "\<not> so_dry_run (sync_defaults ?opts)"
      "so_source ?opts = trim_space source"
    by (simp_all add: sync_defaults_def feed_options_def new_feed_sync_config_def Let_def)
  have blank: "trim_space source \<noteq> []" "fc_redis_addr cfg \<noteq> []" using assms(5,6) by auto
  then have redis: "new_redis (se_connect (ag_sync env)) (so_redis_addr (sync_defaults ?opts)) pw db =
      Some (se_connect (ag_sync env) (fc_redis_addr cfg) pw db)" for pw db
    by (simp add: new_redis_def addr)
  have "feed_sync (ag_sync env) ?opts x = None" for x
    by (rule feed_sync_never_ends [OF assms(8) [unfolded first_options_def] assms(9,10) _ addr(2) redis _ assms(11)])
       (use assms(5,6) in \<open>simp_all add: addr\<close>)
  then have "feed_loop env ?cfg 0 (source # sources) c x = None" for c x
    using blank assms(7) by (simp add: Let_def)
  then have "feed_run env ?cfg x = None" for x
    using assms(4,6) by (simp add: feed_run_def new_feed_sync_config_def)
  then have "run_of (sy_engine s) i t (sy_world s) = None"
    by (simp add: run_of_def assms(3) feed_sync_task_def)
  from blocked_run_blocks_engine [OF assms(1,2) this] show ?thesis by blast
qed

definition broken_body :: feed_reader where
  "broken_body = \<lparr>fr_text = ''a.vn,x'', fr_faults = [], fr_broken = Some ''connection reset''\<rparr>"

definition broken_agent_env :: "toy agent_env" where
  "broken_agent_env = toy_agent_env\<lparr>ag_sync := \<lparr>se_feed = plain_feed_env, se_connect = (\<lambda>_ _ _. toy_client), se_nano = 0,
     se_cwd = [], se_open_root = (\<lambda>_ _. Inl ([], True)),
     se_fetch = (\<lambda>_. Inr \<lparr>hf_status = 200, hf_encoding = [], hf_body = broken_body\<rparr>), se_gunzip = Inr\<rparr>\<rparr>"

definition broken_feed_config :: feed_sync_config where
  "broken_feed_config = \<lparr>fc_sources = [''https://f.vn''], fc_file_root = [], fc_max_bytes = 0, fc_redis_addr = ''r:6379'',
     fc_redis_password = [], fc_redis_db = 0, fc_key = [], fc_timeout = 0, fc_drift_ratio = 0, fc_drift_min = 0,
     fc_min_writes = 0\<rparr>"

definition broken_sys :: "toy agent_world sys" where
  "broken_sys = \<lparr>sy_engine = register_task (feed_sync_task broken_agent_env broken_feed_config) 10 5 True new_engine,
     sy_sched = Running 0 0 [], sy_now = 0, sy_world = toy_agent_world, sy_asked = {}\<rparr>"

theorem broken_feed_stops_agent_witness:
  "sy_sched (broken_sys\<lparr>sy_now := 3600\<rparr>) = Running 0 0 []"
proof -
  have src: "trim_space ''https://f.vn'' = ''https://f.vn''" "\<not> has_suffix (to_lower ''https://f.vn'') ''.gz''"
      "trim_space [] = []" "trim_space ''r:6379'' = ''r:6379''" "is_probably_csv ''a.vn,x''"
      "trim_space default_threat_feed_key \<noteq> []" "trim_space ''./data'' \<noteq> []"
    by code_simp+
  have lim: "limit_reader broken_body = broken_body" by (simp add: limit_reader_def broken_body_def decompressed_limit_def)
  let ?o = "first_options broken_feed_config ''https://f.vn''"
  have o: "so_source ?o = ''https://f.vn''" "so_max_bytes ?o = default_max_feed_bytes"
    by (simp_all add: first_options_def sync_defaults_def feed_options_def new_feed_sync_config_def src Let_def
        broken_feed_config_def)
  have "open_source_within (ag_sync broken_agent_env) (so_source ?o) (so_file_root ?o) (so_max_bytes ?o) = Inr broken_body"
    by (simp add: o open_source_within_def broken_agent_env_def wrap_maybe_compressed_def src Let_def
        limit_read_closer_def broken_body_def default_max_feed_bytes_def)
  moreover have "sched_step broken_sys (broken_sys\<lparr>sy_now := 3600\<rparr>)"
    by (rule sched_clock) (simp add: broken_sys_def)
  moreover have "sy_sched broken_sys = Running 0 0 []"
      "rt_task (en_tasks (sy_engine broken_sys) ! 0) = feed_sync_task broken_agent_env broken_feed_config"
    by (simp_all add: broken_sys_def register_task_def new_engine_def)
  moreover have "fc_sources broken_feed_config = ''https://f.vn'' # []" "fc_redis_addr broken_feed_config = ''r:6379''"
      "ag_done broken_agent_env 0 = None"
    by (simp_all add: broken_feed_config_def broken_agent_env_def toy_agent_env_def)
  moreover have "\<not> isl (snd (rc_sadd (se_connect (ag_sync broken_agent_env) addr pw db) key ms x))" for addr pw db key ms x
    by (simp add: broken_agent_env_def toy_client_def)
  ultimately show ?thesis
    using broken_feed_stops_agent [of broken_sys "broken_sys\<lparr>sy_now := 3600\<rparr>" 0 0 "[]" broken_agent_env
        broken_feed_config "''https://f.vn''" "[]" broken_body] src
    by (simp add: lim r_into_rtranclp)
qed

end
