(* ===== verification/Core_Security.thy ===== *)
theory Core_Security
  imports Web Auth Config
begin

text \<open>
  The secrets and the access checks of the Core API: \<^verbatim>\<open>cmd/core-api/security.go\<close>, which builds the
  secrets of a run, and the authentication handlers and the CSRF check of \<^verbatim>\<open>cmd/core-api/main.go\<close>.  The
  environment, HMAC, SHA-256 and the random source are parameters; a file that the start writes is a value of
  the result.  Cookies are records with the attributes the code sets.  Log lines are left out.
\<close>

subsection \<open>Secrets of a run\<close>

record runtime_security =
  sec_session_secret :: string
  sec_password :: string
  sec_api_key :: string

definition min_admin_password_length :: nat where "min_admin_password_length = 12"
definition min_admin_api_key_length :: nat where "min_admin_api_key_length = 24"

definition exact_placeholders :: "string list" where
  "exact_placeholders =
     [''password'', ''adminpassword'', ''apikey'', ''token'', ''secret'', ''testkey'', ''testpass'', ''example'',
      ''sample'', ''placeholder'']"

definition pattern_placeholders :: "string list" where
  "pattern_placeholders = [''changeme'', ''replacewith'', ''your'']"

definition looks_placeholder_secret :: "string \<Rightarrow> bool" where
  "looks_placeholder_secret value =
     (let normalized = filter (\<lambda>c. c \<notin> set ''-_ '') (to_lower (trim_space value)) in
      normalized = [] \<or> normalized \<in> set exact_placeholders \<or>
      list_ex (\<lambda>marker. has_prefix normalized marker \<or> contains normalized marker) pattern_placeholders)"

definition validate_production_admin_password :: "os_env \<Rightarrow> string \<Rightarrow> err option" where
  "validate_production_admin_password os password0 =
     (let password = trim_space password0 in
      if password = [] then
        Some (''SAFE_ROAD_ADMIN_PASSWORD or SAFE_ROAD_ADMIN_PASSWORD_FILE is required when SAFE_ROAD_ENV='' @
              environment os)
      else if length password < min_admin_password_length
      then Some ''SAFE_ROAD_ADMIN_PASSWORD is too weak: need at least 12 characters''
      else if looks_placeholder_secret password
      then Some ''SAFE_ROAD_ADMIN_PASSWORD uses a placeholder-style value; replace it with a real secret''
      else None)"

definition validate_production_admin_api_key :: "os_env \<Rightarrow> string \<Rightarrow> err option" where
  "validate_production_admin_api_key os apiKey0 =
     (let apiKey = trim_space apiKey0 in
      if apiKey = [] then
        Some (''SAFE_ROAD_ADMIN_API_KEY or SAFE_ROAD_ADMIN_API_KEY_FILE is required when SAFE_ROAD_ENV='' @
              environment os)
      else if length apiKey < min_admin_api_key_length
      then Some ''SAFE_ROAD_ADMIN_API_KEY is too short: need at least 24 characters''
      else if looks_placeholder_secret apiKey
      then Some ''SAFE_ROAD_ADMIN_API_KEY uses a placeholder-style value; replace it with a real secret''
      else None)"

text \<open>Where the secrets file goes: making its directory and writing it can fail.\<close>

record secrets_file =
  sf_mkdir :: "err option"
  sf_write :: "string \<Rightarrow> err option"

definition secrets_content :: "string \<Rightarrow> string \<Rightarrow> string" where
  "secrets_content adminPassword adminAPIKey =
     (if adminPassword = [] then [] else ''SAFE_ROAD_ADMIN_PASSWORD='' @ adminPassword @ [char_of (10 :: nat)]) @
     (if adminAPIKey = [] then [] else ''SAFE_ROAD_ADMIN_API_KEY='' @ adminAPIKey @ [char_of (10 :: nat)])"

text \<open>The content written, if any, and the error.\<close>

definition write_local_admin_secrets :: "secrets_file \<Rightarrow> string \<Rightarrow> string \<Rightarrow> string option \<times> err option" where
  "write_local_admin_secrets sf adminPassword adminAPIKey =
     (let content = secrets_content adminPassword adminAPIKey in
      case sf_mkdir sf of
        Some e \<Rightarrow> (None, Some (''create local admin secrets directory: '' @ e))
      | None \<Rightarrow>
          (case sf_write sf content of
             Some e \<Rightarrow> (None, Some (''write local admin secrets file: '' @ e))
           | None \<Rightarrow> (Some content, None)))"

text \<open>A secret outside production: the configured one, or a new one, which is also returned apart.\<close>

definition secret_or_generated :: "auth_env \<Rightarrow> string \<Rightarrow> nat \<Rightarrow> string \<Rightarrow> (string \<times> string) go_result" where
  "secret_or_generated au what n configured =
     (if configured \<noteq> [] then Inr (configured, [])
      else (case secure_random_string au n of
          Inl e \<Rightarrow> Inl (''generate admin '' @ what @ '': '' @ e)
        | Inr s \<Rightarrow> Inr (s, s)))"

text \<open>\<^verbatim>\<open>loadRuntimeSecurity\<close>: the content of the secrets file, if one was written, and the secrets.\<close>

definition load_runtime_security ::
  "os_env \<Rightarrow> auth_env \<Rightarrow> secrets_file \<Rightarrow> string option \<times> runtime_security go_result" where
  "load_runtime_security os au sf =
     (case secure_random_string au 32 of
        Inl e \<Rightarrow> (None, Inl (''generate session secret: '' @ e))
      | Inr sessionSeed \<Rightarrow>
     (case secret_string_e os ''SAFE_ROAD_ADMIN_PASSWORD'' of
        Inl e \<Rightarrow> (None, Inl e)
      | Inr adminPassword \<Rightarrow>
     (case secret_string_e os ''SAFE_ROAD_ADMIN_API_KEY'' of
        Inl e \<Rightarrow> (None, Inl e)
      | Inr adminAPIKey \<Rightarrow>
          if is_production os then
            (None, (case validate_production_admin_password os adminPassword of
                Some e \<Rightarrow> Inl e
              | None \<Rightarrow>
                  (case validate_production_admin_api_key os adminAPIKey of
                     Some e \<Rightarrow> Inl e
                   | None \<Rightarrow> Inr \<lparr>sec_session_secret = sessionSeed, sec_password = adminPassword,
                                  sec_api_key = adminAPIKey\<rparr>)))
          else
            (case secret_or_generated au ''password'' 16 adminPassword of
               Inl e \<Rightarrow> (None, Inl e)
             | Inr (password, newPassword) \<Rightarrow>
            (case secret_or_generated au ''API key'' 24 adminAPIKey of
               Inl e \<Rightarrow> (None, Inl e)
             | Inr (apiKey, newAPIKey) \<Rightarrow>
                 let security = \<lparr>sec_session_secret = sessionSeed, sec_password = password, sec_api_key = apiKey\<rparr> in
                 if newPassword = [] \<and> newAPIKey = [] then (None, Inr security)
                 else (case write_local_admin_secrets sf newPassword newAPIKey of
                     (written, Some e) \<Rightarrow> (written, Inl e)
                   | (written, None) \<Rightarrow> (written, Inr security)))))))"

subsection \<open>Cookies\<close>

record set_cookie =
  ck_name :: string
  ck_value :: string
  ck_path :: string
  ck_max_age :: int
  ck_http_only :: bool
  ck_secure :: bool
  ck_same_site :: string

definition is_https :: "http_request \<Rightarrow> bool" where
  "is_https r \<longleftrightarrow> hq_tls r \<or> to_lower (hq_header r ''X-Forwarded-Proto'') = ''https''"

definition session_cookie :: "http_request \<Rightarrow> string \<Rightarrow> int \<Rightarrow> set_cookie" where
  "session_cookie r token maxAge =
     \<lparr>ck_name = ''admin_session'', ck_value = token, ck_path = ''/'', ck_max_age = maxAge, ck_http_only = True,
      ck_secure = is_https r, ck_same_site = ''Lax''\<rparr>"

text \<open>\<^verbatim>\<open>r.Cookie\<close>: the first cookie of the name.\<close>

definition request_cookie :: "http_request \<Rightarrow> string \<Rightarrow> string option" where
  "request_cookie r name = map_of (hq_cookies r) name"

subsection \<open>Login\<close>

record login_request =
  lr_username :: string
  lr_password :: string

text \<open>The secrets the handlers compare with, and the host configured for the public.\<close>

record access =
  ac_session_secret :: string
  ac_password :: string
  ac_api_key :: string
  ac_public_host :: string

text \<open>What the access checks take from outside: the environment, the session functions, SHA-256, and the
  JSON decoder of a login, which sees the bytes of the body and the error that ends them.\<close>

record access_env =
  xe_os :: os_env
  xe_auth :: auth_env
  xe_sha256 :: "string \<Rightarrow> string"
  xe_login :: "string \<times> err option \<Rightarrow> login_request option"

definition same_secret :: "access_env \<Rightarrow> string \<Rightarrow> string \<Rightarrow> bool" where
  "same_secret x a b \<longleftrightarrow> xe_sha256 x a = xe_sha256 x b"

datatype login_reply = Login_Refused int string | Logged_In set_cookie

definition session_hours :: int where
  "session_hours = 12 * 3600 * second"

definition auth_login :: "access_env \<Rightarrow> access \<Rightarrow> http_request \<Rightarrow> login_reply" where
  "auth_login x a r =
     (if hq_method r \<noteq> ''POST'' then Login_Refused 405 ''method not allowed''
      else (case xe_login x (limited_body r 4096) of
          None \<Rightarrow> Login_Refused 400 ''invalid JSON body''
        | Some req \<Rightarrow>
            let userMatch = same_secret x (lr_username req) ''admin'';
                passMatch = same_secret x (lr_password req) (ac_password a) in
            if \<not> userMatch \<or> \<not> passMatch then Login_Refused 401 ''invalid username or password''
            else (case generate_session (xe_auth x) ''admin'' session_hours (ac_session_secret a) of
                Inl _ \<Rightarrow> Login_Refused 500 ''failed to generate session''
              | Inr token \<Rightarrow> Logged_In (session_cookie r token (session_hours div second)))))"

definition auth_logout :: "http_request \<Rightarrow> login_reply" where
  "auth_logout r =
     (if hq_method r \<noteq> ''POST'' then Login_Refused 405 ''method not allowed''
      else Logged_In (session_cookie r [] (-1)))"

subsection \<open>Where a request comes from\<close>

definition join_host_port :: "string \<Rightarrow> string \<Rightarrow> string" where
  "join_host_port host port =
     (if contains_char host CHR '':'' then bracket # host @ '']:'' @ port else host @ CHR '':'' # port)"

definition canonical_request_host :: "string \<Rightarrow> string" where
  "canonical_request_host value0 =
     (let value1 = trim_space (to_lower value0) in
      if value1 = [] then []
      else
        let value2 = (if contains value1 ''://''
                      then (case url_parse value1 of None \<Rightarrow> value1 | Some u \<Rightarrow> url_host u) else value1);
            value3 = trim_suffix value2 ''/'' in
        (case split_host_port value3 of
           None \<Rightarrow> value3
         | Some (host, port) \<Rightarrow>
             if port = ''80'' \<or> port = ''443'' then host else join_host_port host port))"

definition csrf_source :: "http_request \<Rightarrow> string" where
  "csrf_source r =
     (let origin = trim_space (hq_header r ''Origin'') in
      if origin = [] then trim_space (hq_header r ''Referer'') else origin)"

definition valid_csrf_sources :: "access_env \<Rightarrow> access \<Rightarrow> http_request \<Rightarrow> bool" where
  "valid_csrf_sources x a r =
     (let source = csrf_source r in
      if source = [] then False
      else (case url_parse source of
          None \<Rightarrow> False
        | Some parsed \<Rightarrow>
            url_host parsed \<noteq> [] \<and>
            list_ex (\<lambda>allowed. canonical_request_host (url_host parsed) = canonical_request_host allowed)
              [hq_host r, ac_public_host a, env_string (xe_os x) ''SAFE_ROAD_PUBLIC_HOST'' []]))"

definition verify_csrf :: "access_env \<Rightarrow> access \<Rightarrow> http_request \<Rightarrow> err option" where
  "verify_csrf x a r =
     (if valid_csrf_sources x a r then None else Some ''invalid csrf origin or referer'')"

text \<open>Declared by the code, but used by no check: \<open>access_decision\<close> lists its methods itself.\<close>

definition is_state_changing_method :: "string \<Rightarrow> bool" where
  "is_state_changing_method meth \<longleftrightarrow> meth \<in> {''POST'', ''PUT'', ''PATCH'', ''DELETE''}"

subsection \<open>The check in front of the administration\<close>

definition bearer_accepted :: "access_env \<Rightarrow> access \<Rightarrow> http_request \<Rightarrow> bool" where
  "bearer_accepted x a r \<longleftrightarrow>
     (let authHeader = hq_header r ''Authorization'' in
      has_prefix authHeader ''Bearer '' \<and> same_secret x (trim_prefix authHeader ''Bearer '') (ac_api_key a))"

definition session_accepted :: "access_env \<Rightarrow> access \<Rightarrow> http_request \<Rightarrow> bool" where
  "session_accepted x a r \<longleftrightarrow>
     (case request_cookie r ''admin_session'' of
        None \<Rightarrow> False
      | Some value \<Rightarrow> value \<noteq> [] \<and> \<not> isl (verify_session (xe_auth x) value (ac_session_secret a)))"

text \<open>\<^verbatim>\<open>requireAuthFunc\<close>: \<^term>\<open>None\<close> lets the request pass, otherwise the answer.\<close>

definition access_decision :: "access_env \<Rightarrow> access \<Rightarrow> http_request \<Rightarrow> (int \<times> string) option" where
  "access_decision x a r =
     (if bearer_accepted x a r then None
      else if session_accepted x a r then
        (if hq_method r \<in> {''POST'', ''PUT'', ''DELETE''} then
           (case verify_csrf x a r of
              Some e \<Rightarrow> Some (403, ''CSRF verification failed: '' @ e)
            | None \<Rightarrow> None)
         else None)
      else Some (401, ''unauthorized''))"

subsection \<open>The dashboard\<close>

datatype dashboard_reply = Wrong_Method | Login_Page "set_cookie option" | Dashboard_Page

definition dashboard_handler :: "access_env \<Rightarrow> access \<Rightarrow> http_request \<Rightarrow> dashboard_reply" where
  "dashboard_handler x a r =
     (if hq_method r \<noteq> ''GET'' then Wrong_Method
      else (case request_cookie r ''admin_session'' of
          None \<Rightarrow> Login_Page None
        | Some value \<Rightarrow>
            if value = [] then Login_Page None
            else (case verify_session (xe_auth x) value (ac_session_secret a) of
                Inl _ \<Rightarrow> Login_Page (Some (session_cookie r [] (-1)))
              | Inr _ \<Rightarrow> Dashboard_Page)))"

end
