(* ===== verification/Core_Api.thy ===== *)
theory Core_Api
  imports Core_Security Agent
begin

text \<open>
  The Core API: the handlers of \<^verbatim>\<open>cmd/core-api/main.go\<close> and \<^verbatim>\<open>cmd/core-api/block.go\<close>, its routes, and the
  middleware around them.  A handler takes the state of the process to the state after it and an answer; the
  state holds the world of the risk service, the metrics, the limiters and the engine of the agent.  Answers are
  values of \<open>reply\<close>, one constructor per shape of JSON body or page.  JSON decoders see the bytes of the body
  under its limit and the error that ends them; encoders, the clock and the format of times are parameters.
\<close>

subsection \<open>Requests and answers\<close>

record override_request =
  or_domain :: string
  or_action :: string
  or_reason :: string

record group_request =
  gq_name :: string
  gq_description :: string
  gq_categories :: "string list"
  gq_phishing :: bool
  gq_malware :: bool

record mapping_request =
  mq_type :: string
  mq_value :: string
  mq_group :: int

record group_override_request =
  oq_group :: int
  oq_domain :: string
  oq_action :: string
  oq_reason :: string

record block_page_data =
  bp_domain :: string
  bp_path :: string
  bp_category :: string
  bp_reason :: string
  bp_support :: string
  bp_reported :: bool
  bp_request_id :: string

type_synonym body = "string \<times> err option"

record core_env =
  co_access :: access_env
  co_risk :: risk_env
  co_feed :: feed_env
  co_now :: int
  co_stamp :: "int \<Rightarrow> string"
  co_rfc3339 :: "int \<Rightarrow> string"
  co_duration :: "int \<Rightarrow> string"
  co_analyze :: "body \<Rightarrow> string option"
  co_override :: "body \<Rightarrow> override_request option"
  co_group :: "body \<Rightarrow> group_request option"
  co_mapping :: "body \<Rightarrow> mapping_request option"
  co_group_override :: "body \<Rightarrow> group_override_request option"
  co_report :: "(string \<times> string) list \<Rightarrow> string go_result"

text \<open>The application: what \<^verbatim>\<open>app\<close> holds beside the parts with a state of their own.\<close>

record 'r core_app =
  ca_risk :: "'r service"
  ca_tier :: string
  ca_access :: access
  ca_feed_key :: string
  ca_preset :: string
  ca_sources :: "string list"
  ca_stale_after :: int

record 'r core_state =
  ks_world :: "'r world"
  ks_metrics :: "registry option"
  ks_tiers :: "tiered option"
  ks_engine :: "'r agent_world engine option"

datatype reply =
    Error_Reply int string
  | Fields_Reply "(string \<times> string) list"
  | Created_Reply int
  | Health_Reply string
  | Status_Reply string cache_status status_summary string
  | Metrics_Reply snapshot status_summary string
  | Analysis_Reply assessment
  | Evidence_Reply report
  | Recent_Reply "assessment list"
  | Overrides_Reply "override list"
  | Telemetry_Reply "telemetry_entry list"
  | Stats_Reply string stats
  | Engine_Reply engine_status
  | Group_Reply client_group
  | Groups_Reply "client_group list"
  | Mappings_Reply "(client_mapping \<times> string) list"
  | Group_Overrides_Reply "group_override list"
  | Cookie_Reply set_cookie
  | Login_Reply "set_cookie option"
  | Dashboard_Reply
  | Block_Reply block_page_data
  | Redirect_Reply string
  | Moved_Reply string
  | Missing_Reply
  | Asset_Reply string
  | Limited_Reply int

text \<open>The status code of an answer; assets are answered by the library.\<close>

fun reply_status :: "reply \<Rightarrow> int" where
  "reply_status (Error_Reply status _) = status"
| "reply_status (Created_Reply _) = 201"
| "reply_status (Redirect_Reply _) = 303"
| "reply_status (Moved_Reply _) = 307"
| "reply_status Missing_Reply = 404"
| "reply_status (Limited_Reply _) = 429"
| "reply_status _ = 200"

definition method_not_allowed :: reply where
  "method_not_allowed = Error_Reply 405 ''method not allowed''"

definition invalid_body :: reply where
  "invalid_body = Error_Reply 400 ''invalid JSON body''"

text \<open>Changing the store inside the state, with the answer for its result.\<close>

definition with_store :: "'r core_state \<Rightarrow> store \<Rightarrow> 'r core_state" where
  "with_store st d = st\<lparr>ks_world := (ks_world st)\<lparr>w_store := d\<rparr>\<rparr>"

definition store_change ::
  "'r core_state \<Rightarrow> store \<times> 'a go_result \<Rightarrow> int \<Rightarrow> ('a \<Rightarrow> reply) \<Rightarrow> 'r core_state \<times> reply" where
  "store_change st res status ok =
     (case res of (d, r) \<Rightarrow>
        (with_store st d, (case r of Inl e \<Rightarrow> Error_Reply status e | Inr v \<Rightarrow> ok v)))"

subsection \<open>Status\<close>

definition feed_status :: "core_env \<Rightarrow> 'r core_app \<Rightarrow> 'r core_state \<Rightarrow> status_summary" where
  "feed_status env a st =
     read_status_summary (co_feed env) (sv_redis (ca_risk a)) (ca_feed_key a) (ca_preset a) (ca_sources a)
       (ca_stale_after a) (w_redis (ks_world st))"

definition core_health :: "core_env \<Rightarrow> reply" where
  "core_health env = Health_Reply (co_stamp env (co_now env))"

definition core_status :: "core_env \<Rightarrow> 'r core_app \<Rightarrow> http_request \<Rightarrow> 'r core_state \<Rightarrow> reply" where
  "core_status env a r st =
     (if hq_path r \<noteq> ''/'' then Missing_Reply
      else if hq_method r \<noteq> ''GET'' then method_not_allowed
      else Status_Reply (ca_tier a) (service_cache_status (Some (ca_risk a)) (ks_world st)) (feed_status env a st)
             (co_stamp env (co_now env)))"

definition core_metrics :: "core_env \<Rightarrow> 'r core_app \<Rightarrow> http_request \<Rightarrow> 'r core_state \<Rightarrow> reply" where
  "core_metrics env a r st =
     (if hq_method r \<noteq> ''GET'' then method_not_allowed
      else Metrics_Reply (take_snapshot (co_stamp env) (co_now env) (ks_metrics st)) (feed_status env a st)
             (co_stamp env (co_now env)))"

definition core_version :: reply where
  "core_version = Fields_Reply [(''service'', ''core-api''), (''version'', ''0.1.0'')]"

subsection \<open>Analysis\<close>

definition analyze_domain_of :: "core_env \<Rightarrow> http_request \<Rightarrow> string + reply" where
  "analyze_domain_of env r =
     (if hq_method r = ''GET'' then Inl (query_get r ''domain'')
      else if hq_method r = ''POST'' then
        (case co_analyze env (limited_body r 4096) of None \<Rightarrow> Inr invalid_body | Some domain \<Rightarrow> Inl domain)
      else Inr method_not_allowed)"

definition analyze_handler ::
  "core_env \<Rightarrow> 'r core_app \<Rightarrow> http_request \<Rightarrow> 'r core_state \<Rightarrow> 'r core_state \<times> reply" where
  "analyze_handler env a r st =
     (case analyze_domain_of env r of
        Inr answer \<Rightarrow> (st, answer)
      | Inl domain \<Rightarrow>
          (case analyze_with_options (co_risk env) (ca_risk a) domain (extract_client_info r)
                  (query_get r ''include_evidence'' = ''1'') (query_get r ''force_osint'' = ''1'') (ks_world st) of
             (w, response) \<Rightarrow>
               (st\<lparr>ks_world := record_recent (co_risk env) (ca_risk a) response w\<rparr>, Analysis_Reply response)))"

definition osint_evidence_handler ::
  "core_env \<Rightarrow> 'r core_app \<Rightarrow> http_request \<Rightarrow> 'r core_state \<Rightarrow> 'r core_state \<times> reply" where
  "osint_evidence_handler env a r st =
     (if hq_method r \<noteq> ''GET'' then (st, method_not_allowed)
      else
        let domain = query_get r ''domain'';
            force = query_get r ''refresh'' = ''1'' \<or> query_get r ''force'' = ''1'' in
        if domain = [] then (st, Error_Reply 400 ''domain query parameter is required'')
        else (case service_osint_evidence (co_risk env) (ca_risk a) domain force (ks_world st) of
            (w, rep, e) \<Rightarrow>
              (st\<lparr>ks_world := w\<rparr>, (case e of Some msg \<Rightarrow> Error_Reply 502 msg | None \<Rightarrow> Evidence_Reply rep))))"

definition recent_analysis_handler ::
  "core_env \<Rightarrow> 'r core_app \<Rightarrow> http_request \<Rightarrow> 'r core_state \<Rightarrow> reply" where
  "recent_analysis_handler env a r st =
     (if hq_method r \<noteq> ''GET'' then method_not_allowed
      else Recent_Reply (recent (co_risk env) (ca_risk a) (ks_world st)))"

subsection \<open>Overrides\<close>

definition overrides_handler ::
  "core_env \<Rightarrow> http_request \<Rightarrow> 'r core_state \<Rightarrow> 'r core_state \<times> reply" where
  "overrides_handler env r st =
     (if hq_method r = ''GET'' then
        (st, (case service_list_overrides (co_risk env) (query_get r ''action'') (ks_world st) of
            Inl e \<Rightarrow> Error_Reply 500 e
          | Inr overrides \<Rightarrow> Overrides_Reply overrides))
      else if hq_method r = ''POST'' then
        (case co_override env (limited_body r 10240) of
           None \<Rightarrow> (st, invalid_body)
         | Some req \<Rightarrow>
             if or_domain req = [] \<or> or_action req = []
             then (st, Error_Reply 400 ''domain and action are required'')
             else (case service_upsert_override (co_risk env) (or_domain req) (or_action req) (or_reason req)
                           (ks_world st) of
                 (w, Inl e) \<Rightarrow> (st\<lparr>ks_world := w\<rparr>, Error_Reply 400 e)
               | (w, Inr _) \<Rightarrow> (st\<lparr>ks_world := w\<rparr>,
                   Fields_Reply [(''status'', ''ok''), (''domain'', or_domain req), (''action'', or_action req)])))
      else if hq_method r = ''DELETE'' then
        (let domain = query_get r ''domain'' in
         if domain = [] then (st, Error_Reply 400 ''domain query parameter is required'')
         else (case service_delete_override (co_risk env) domain (ks_world st) of
             (w, Inl e) \<Rightarrow> (st\<lparr>ks_world := w\<rparr>, Error_Reply 404 e)
           | (w, Inr _) \<Rightarrow> (st\<lparr>ks_world := w\<rparr>, Fields_Reply [(''status'', ''ok''), (''domain'', domain)])))
      else (st, method_not_allowed))"

subsection \<open>Telemetry\<close>

definition recent_limit :: "string \<Rightarrow> int" where
  "recent_limit v =
     (let limit = (if v = [] then 50 else (case atoi v of Some n \<Rightarrow> if 0 < n then n else 50 | None \<Rightarrow> 50)) in
      if 100 < limit then 100 else limit)"

definition recent_offset :: "string \<Rightarrow> int" where
  "recent_offset v = (if v = [] then 0 else (case atoi v of Some n \<Rightarrow> if 0 \<le> n then n else 0 | None \<Rightarrow> 0))"

definition telemetry_recent_handler :: "core_env \<Rightarrow> http_request \<Rightarrow> 'r core_state \<Rightarrow> reply" where
  "telemetry_recent_handler env r st =
     (if hq_method r \<noteq> ''GET'' then method_not_allowed
      else (case telemetry_recent (co_risk env) (recent_limit (query_get r ''limit''))
                   (recent_offset (query_get r ''offset'')) (ks_world st) of
          Inl e \<Rightarrow> Error_Reply 500 e
        | Inr entries \<Rightarrow> Telemetry_Reply entries))"

definition stats_hours :: "string \<Rightarrow> int" where
  "stats_hours period = (if period = ''7d'' then 7 * 24 else if period = ''30d'' then 30 * 24 else 24)"

definition telemetry_stats_handler :: "core_env \<Rightarrow> http_request \<Rightarrow> 'r core_state \<Rightarrow> reply" where
  "telemetry_stats_handler env r st =
     (if hq_method r \<noteq> ''GET'' then method_not_allowed
      else
        let period = query_get r ''period'';
            since = co_now env - stats_hours period * 3600 * second in
        (case telemetry_stats (co_risk env) (co_rfc3339 env since) (ks_world st) of
           Inl e \<Rightarrow> Error_Reply 500 e
         | Inr totals \<Rightarrow> Stats_Reply (if period = [] then ''24h'' else period) totals))"

subsection \<open>The agent\<close>

definition agent_status_handler :: "core_env \<Rightarrow> http_request \<Rightarrow> 'r core_state \<Rightarrow> reply" where
  "agent_status_handler env r st =
     (if hq_method r \<noteq> ''GET'' then method_not_allowed
      else Engine_Reply (case ks_engine st of
          None \<Rightarrow> \<lparr>es_enabled = False, es_tasks = []\<rparr>
        | Some e \<Rightarrow> engine_status_of (co_duration env) (co_rfc3339 env) e))"

definition agent_trigger_handler :: "http_request \<Rightarrow> 'r core_state \<Rightarrow> 'r core_state \<times> reply" where
  "agent_trigger_handler r st =
     (if hq_method r \<noteq> ''POST'' then (st, method_not_allowed)
      else (case ks_engine st of
          None \<Rightarrow> (st, Error_Reply 503 ''agent engine not enabled'')
        | Some e \<Rightarrow>
            let taskName = query_get r ''task'' in
            if taskName = [] then (st, Error_Reply 400 ''task query parameter is required'')
            else (case trigger taskName e of
                (e', False) \<Rightarrow> (st\<lparr>ks_engine := Some e'\<rparr>, Error_Reply 404 (''task not found: '' @ taskName))
              | (e', True) \<Rightarrow> (st\<lparr>ks_engine := Some e'\<rparr>,
                  Fields_Reply [(''status'', ''triggered''), (''task'', taskName)]))))"

end
