(* ===== verification/Core_Routes.thy ===== *)
theory Core_Routes
  imports Core_Api
begin

text \<open>
  The policy groups of the Core API (\<^verbatim>\<open>groupsHandler\<close>, \<^verbatim>\<open>mappingsHandler\<close>, \<^verbatim>\<open>groupOverridesHandler\<close> of
  \<^verbatim>\<open>cmd/core-api/main.go\<close>), the block page and its report (\<^verbatim>\<open>cmd/core-api/block.go\<close>), and what puts the
  handlers together: the routes, the limiters, the identifiers and the metrics of \<^verbatim>\<open>main\<close>.  The routes are
  looked up as \<^verbatim>\<open>http.ServeMux\<close> does for paths without escapes: a path that is not clean is redirected.
\<close>

subsection \<open>Groups\<close>

definition groups_get :: "core_env \<Rightarrow> http_request \<Rightarrow> 'r core_state \<Rightarrow> reply" where
  "groups_get env r st =
     (let id = query_get r ''id''; io = rk_io (co_risk env); store = w_store (ks_world st) in
      if id \<noteq> [] then
        (case sscan_int id of
           Inl _ \<Rightarrow> Error_Reply 400 ''invalid group id''
         | Inr gid \<Rightarrow> (case get_group io gid store of Inl e \<Rightarrow> Error_Reply 404 e | Inr g \<Rightarrow> Group_Reply g))
      else (case list_groups io store of Inl e \<Rightarrow> Error_Reply 500 e | Inr gs \<Rightarrow> Groups_Reply gs))"

definition groups_post :: "core_env \<Rightarrow> http_request \<Rightarrow> 'r core_state \<Rightarrow> 'r core_state \<times> reply" where
  "groups_post env r st =
     (case co_group env (limited_body r 65536) of
        None \<Rightarrow> (st, invalid_body)
      | Some req \<Rightarrow>
          if gq_name req = [] then (st, Error_Reply 400 ''name is required'')
          else store_change st (create_group (rk_io (co_risk env)) (rk_sql_now (co_risk env)) (gq_name req)
                 (gq_description req) (gq_categories req) (gq_phishing req) (gq_malware req) (w_store (ks_world st)))
               500 Created_Reply)"

definition groups_put :: "core_env \<Rightarrow> http_request \<Rightarrow> 'r core_state \<Rightarrow> 'r core_state \<times> reply" where
  "groups_put env r st =
     (let id = query_get r ''id'' in
      if id = [] then (st, Error_Reply 400 ''id is required'')
      else (case sscan_int id of
          Inl _ \<Rightarrow> (st, Error_Reply 400 ''invalid group id'')
        | Inr gid \<Rightarrow>
            (case co_group env (limited_body r 65536) of
               None \<Rightarrow> (st, invalid_body)
             | Some req \<Rightarrow>
                 store_change st (update_group (rk_io (co_risk env)) (rk_sql_now (co_risk env)) gid (gq_name req)
                   (gq_description req) (gq_categories req) (gq_phishing req) (gq_malware req) (w_store (ks_world st)))
                   500 (\<lambda>_. Fields_Reply [(''status'', ''updated'')]))))"

definition groups_delete :: "core_env \<Rightarrow> http_request \<Rightarrow> 'r core_state \<Rightarrow> 'r core_state \<times> reply" where
  "groups_delete env r st =
     (let id = query_get r ''id'' in
      if id = [] then (st, Error_Reply 400 ''id is required'')
      else (case sscan_int id of
          Inl _ \<Rightarrow> (st, Error_Reply 400 ''invalid group id'')
        | Inr gid \<Rightarrow>
            store_change st (delete_group (rk_io (co_risk env)) gid (w_store (ks_world st)))
              500 (\<lambda>_. Fields_Reply [(''status'', ''deleted'')])))"

definition no_store :: reply where
  "no_store = Error_Reply 503 ''store not configured''"

definition groups_handler :: "core_env \<Rightarrow> http_request \<Rightarrow> 'r core_state \<Rightarrow> 'r core_state \<times> reply" where
  "groups_handler env r st =
     (if w_store (ks_world st) = None then (st, no_store)
      else if hq_method r = ''GET'' then (st, groups_get env r st)
      else if hq_method r = ''POST'' then groups_post env r st
      else if hq_method r = ''PUT'' then groups_put env r st
      else if hq_method r = ''DELETE'' then groups_delete env r st
      else (st, method_not_allowed))"

subsection \<open>Mappings\<close>

definition mappings_post :: "core_env \<Rightarrow> http_request \<Rightarrow> 'r core_state \<Rightarrow> 'r core_state \<times> reply" where
  "mappings_post env r st =
     (case co_mapping env (limited_body r 10240) of
        None \<Rightarrow> (st, invalid_body)
      | Some req \<Rightarrow>
          if mq_type req = [] \<or> mq_value req = [] \<or> mq_group req = 0
          then (st, Error_Reply 400 ''mapping_type, value, and group_id are required'')
          else store_change st (add_mapping_int (rk_io (co_risk env)) (rk_sql_now (co_risk env)) (mq_type req)
                 (mq_value req) (mq_group req) (w_store (ks_world st))) 400 Created_Reply)"

definition mappings_delete :: "core_env \<Rightarrow> http_request \<Rightarrow> 'r core_state \<Rightarrow> 'r core_state \<times> reply" where
  "mappings_delete env r st =
     (let id = query_get r ''id'' in
      if id = [] then (st, Error_Reply 400 ''id is required'')
      else (case sscan_int id of
          Inl _ \<Rightarrow> (st, Error_Reply 400 ''invalid mapping id'')
        | Inr mid \<Rightarrow>
            store_change st (delete_mapping (rk_io (co_risk env)) mid (w_store (ks_world st)))
              404 (\<lambda>_. Fields_Reply [(''status'', ''deleted'')])))"

definition mappings_handler :: "core_env \<Rightarrow> http_request \<Rightarrow> 'r core_state \<Rightarrow> 'r core_state \<times> reply" where
  "mappings_handler env r st =
     (if w_store (ks_world st) = None then (st, no_store)
      else if hq_method r = ''GET'' then
        (st, (case list_mappings (rk_io (co_risk env)) (w_store (ks_world st)) of
            Inl e \<Rightarrow> Error_Reply 500 e
          | Inr ms \<Rightarrow> Mappings_Reply ms))
      else if hq_method r = ''POST'' then mappings_post env r st
      else if hq_method r = ''DELETE'' then mappings_delete env r st
      else (st, method_not_allowed))"

subsection \<open>Rules of groups\<close>

definition group_overrides_get :: "core_env \<Rightarrow> http_request \<Rightarrow> 'r core_state \<Rightarrow> reply" where
  "group_overrides_get env r st =
     (let gidText = query_get r ''group_id'' in
      if gidText = [] then Error_Reply 400 ''group_id is required''
      else (case sscan_int gidText of
          Inl _ \<Rightarrow> Error_Reply 400 ''invalid group_id''
        | Inr gid \<Rightarrow>
            (case list_group_overrides (rk_io (co_risk env)) gid (w_store (ks_world st)) of
               Inl e \<Rightarrow> Error_Reply 500 e
             | Inr os \<Rightarrow> Group_Overrides_Reply os)))"

definition group_overrides_put :: "core_env \<Rightarrow> http_request \<Rightarrow> 'r core_state \<Rightarrow> 'r core_state \<times> reply" where
  "group_overrides_put env r st =
     (case co_group_override env (limited_body r 10240) of
        None \<Rightarrow> (st, invalid_body)
      | Some req \<Rightarrow>
          if oq_group req = 0 \<or> oq_domain req = [] \<or> oq_action req = []
          then (st, Error_Reply 400 ''group_id, domain, and action are required'')
          else store_change st (upsert_group_override (rk_io (co_risk env)) (rk_sql_now (co_risk env)) (oq_group req)
                 (oq_domain req) (oq_action req) (oq_reason req) (w_store (ks_world st)))
               400 (\<lambda>_. Fields_Reply [(''status'', ''ok'')]))"

definition group_overrides_delete ::
  "core_env \<Rightarrow> http_request \<Rightarrow> 'r core_state \<Rightarrow> 'r core_state \<times> reply" where
  "group_overrides_delete env r st =
     (let gidText = query_get r ''group_id''; domain = query_get r ''domain'' in
      if gidText = [] \<or> domain = [] then (st, Error_Reply 400 ''group_id and domain are required'')
      else (case sscan_int gidText of
          Inl _ \<Rightarrow> (st, Error_Reply 400 ''invalid group_id'')
        | Inr gid \<Rightarrow>
            store_change st (delete_group_override (rk_io (co_risk env)) gid domain (w_store (ks_world st)))
              404 (\<lambda>_. Fields_Reply [(''status'', ''deleted'')])))"

definition group_overrides_handler ::
  "core_env \<Rightarrow> http_request \<Rightarrow> 'r core_state \<Rightarrow> 'r core_state \<times> reply" where
  "group_overrides_handler env r st =
     (if w_store (ks_world st) = None then (st, no_store)
      else if hq_method r = ''GET'' then (st, group_overrides_get env r st)
      else if hq_method r = ''POST'' \<or> hq_method r = ''PUT'' then group_overrides_put env r st
      else if hq_method r = ''DELETE'' then group_overrides_delete env r st
      else (st, method_not_allowed))"

subsection \<open>The block page\<close>

fun first_non_empty :: "string list \<Rightarrow> string" where
  "first_non_empty [] = []"
| "first_non_empty (v # vs) = (let value = trim_space v in if value \<noteq> [] then value else first_non_empty vs)"

definition normalize_block_page_domain :: "string \<Rightarrow> string" where
  "normalize_block_page_domain value0 =
     (let value = trim_space (to_lower value0) in
      if value = [] then []
      else trim_suffix (trim_set (case split_host_port value of Some (host, _) \<Rightarrow> host | None \<Rightarrow> value) ''[]'') ''.'')"

definition blocked_domain_of :: "http_request \<Rightarrow> string" where
  "blocked_domain_of r =
     (let q = normalize_block_page_domain (query_get r ''domain'');
          h = normalize_block_page_domain (hq_header r ''X-Blocked-Domain'') in
      if q \<noteq> [] then q else if h \<noteq> [] then h else normalize_block_page_domain (hq_host r))"

definition blocked_path_of :: "http_request \<Rightarrow> string" where
  "blocked_path_of r =
     (let q = trim_space (query_get r ''path''); h = trim_space (hq_header r ''X-Original-Path'') in
      if q \<noteq> [] then q else if h \<noteq> [] then h
      else if hq_path r \<noteq> [] \<and> hq_path r \<noteq> ''/block'' \<and> hq_path r \<noteq> ''/block/report'' then hq_path r
      else ''/'')"

definition default_block_reason :: string where
  "default_block_reason =
     ''This request was redirected because the requested domain matched a Safe Road block policy.''"

text \<open>\<open>rid\<close> is the identifier of the request.\<close>

definition block_page_handler :: "core_env \<Rightarrow> string \<Rightarrow> http_request \<Rightarrow> reply" where
  "block_page_handler env rid r =
     (if hq_method r \<noteq> ''GET'' then method_not_allowed
      else Block_Reply
        \<lparr>bp_domain = (let d = blocked_domain_of r in if d = [] then ''the requested domain'' else d),
         bp_path = blocked_path_of r,
         bp_category = first_non_empty [query_get r ''category'', ''policy block''],
         bp_reason = first_non_empty [query_get r ''reason'', default_block_reason],
         bp_support = trim_space (env_string (xe_os (co_access env)) ''SAFE_ROAD_BLOCK_PAGE_SUPPORT_EMAIL'' []),
         bp_reported = (query_get r ''reported'' = ''1''),
         bp_request_id = rid\<rparr>)"

definition report_target :: "string \<Rightarrow> string \<Rightarrow> string" where
  "report_target domain path =
     ''/block?reported=1'' @ (if domain \<noteq> [] then ''&domain='' @ query_escape domain else []) @
     (if path \<noteq> [] then ''&path='' @ query_escape path else [])"

definition block_report_handler ::
  "core_env \<Rightarrow> string \<Rightarrow> http_request \<Rightarrow> 'r core_state \<Rightarrow> 'r core_state \<times> reply" where
  "block_report_handler env rid r st =
     (if hq_method r \<noteq> ''POST'' then (st, method_not_allowed)
      else (case parse_form r (16 * 1024) of
          None \<Rightarrow> (st, Error_Reply 400 ''invalid form body'')
        | Some form \<Rightarrow>
            let domain = first_non_empty [trim_space (values_get form ''domain''), blocked_domain_of r];
                path = first_non_empty [trim_space (values_get form ''requested_path''), blocked_path_of r];
                contact = trim_space (values_get form ''contact'');
                note = trim_space (values_get form ''note'') in
            (case co_report env [(''domain'', domain), (''requested_path'', path), (''contact'', contact),
                    (''note'', note), (''user_agent'', hq_header r ''User-Agent''), (''request_id'', rid),
                    (''reported_at'', co_stamp env (co_now env))] of
               Inl _ \<Rightarrow> (st, Error_Reply 500 ''failed to serialize report'')
             | Inr details \<Rightarrow>
                 if \<not> enabled (w_store (ks_world st)) then (st, Redirect_Reply (report_target domain path))
                 else (case record_agent_event (rk_io (co_risk env)) (rk_sql_now (co_risk env)) ''block_page''
                             ''false_positive_report'' domain details (w_store (ks_world st)) of
                     (d, Inl _) \<Rightarrow> (with_store st d, Error_Reply 500 ''failed to record report'')
                   | (d, Inr _) \<Rightarrow> (with_store st d, Redirect_Reply (report_target domain path))))))"

subsection \<open>Routes\<close>

definition login_handler :: "core_env \<Rightarrow> 'r core_app \<Rightarrow> http_request \<Rightarrow> reply" where
  "login_handler env a r =
     (case auth_login (co_access env) (ca_access a) r of
        Login_Refused status e \<Rightarrow> Error_Reply status e | Logged_In c \<Rightarrow> Cookie_Reply c)"

definition logout_handler :: "http_request \<Rightarrow> reply" where
  "logout_handler r =
     (case auth_logout r of Login_Refused status e \<Rightarrow> Error_Reply status e | Logged_In c \<Rightarrow> Cookie_Reply c)"

definition dashboard_reply_of :: "core_env \<Rightarrow> 'r core_app \<Rightarrow> http_request \<Rightarrow> reply" where
  "dashboard_reply_of env a r =
     (case dashboard_handler (co_access env) (ca_access a) r of
        Wrong_Method \<Rightarrow> method_not_allowed | Login_Page c \<Rightarrow> Login_Reply c | Dashboard_Page \<Rightarrow> Dashboard_Reply)"

definition require_auth ::
  "core_env \<Rightarrow> 'r core_app \<Rightarrow> http_request \<Rightarrow> ('r core_state \<Rightarrow> 'r core_state \<times> reply) \<Rightarrow> 'r core_state \<Rightarrow>
     'r core_state \<times> reply" where
  "require_auth env a r next_handler st =
     (case access_decision (co_access env) (ca_access a) r of
        None \<Rightarrow> next_handler st
      | Some (status, e) \<Rightarrow> (st, Error_Reply status e))"

text \<open>The routes behind \<^verbatim>\<open>requireAuthFunc\<close>.\<close>

definition protected_handler ::
  "core_env \<Rightarrow> 'r core_app \<Rightarrow> http_request \<Rightarrow> ('r core_state \<Rightarrow> 'r core_state \<times> reply) option" where
  "protected_handler env a r =
     (let p = hq_path r in
      if p = ''/v1/osint/evidence'' then Some (osint_evidence_handler env a r)
      else if p = ''/v1/overrides'' then Some (overrides_handler env r)
      else if p = ''/v1/telemetry/recent'' then Some (\<lambda>st. (st, telemetry_recent_handler env r st))
      else if p = ''/v1/telemetry/stats'' then Some (\<lambda>st. (st, telemetry_stats_handler env r st))
      else if p = ''/v1/agent/status'' then Some (\<lambda>st. (st, agent_status_handler env r st))
      else if p = ''/v1/agent/trigger'' then Some (agent_trigger_handler r)
      else if p = ''/v1/groups'' then Some (groups_handler env r)
      else if p = ''/v1/mappings'' then Some (mappings_handler env r)
      else if p = ''/v1/group-overrides'' then Some (group_overrides_handler env r)
      else None)"

definition public_handler ::
  "core_env \<Rightarrow> 'r core_app \<Rightarrow> string \<Rightarrow> http_request \<Rightarrow> 'r core_state \<Rightarrow> 'r core_state \<times> reply" where
  "public_handler env a rid r st =
     (let p = hq_path r in
      if p = ''/healthz'' \<or> p = ''/readyz'' then (st, core_health env)
      else if p = ''/block'' then (st, block_page_handler env rid r)
      else if p = ''/block/report'' then block_report_handler env rid r st
      else if p = ''/v1/version'' then (st, core_version)
      else if p = ''/metrics'' then (st, core_metrics env a r st)
      else if p = ''/v1/analyze'' then analyze_handler env a r st
      else if p = ''/v1/analysis/recent'' then (st, recent_analysis_handler env a r st)
      else if p = ''/v1/auth/login'' then (st, login_handler env a r)
      else if p = ''/v1/auth/logout'' then (st, logout_handler r)
      else if has_prefix p ''/assets/'' then (st, Asset_Reply p)
      else if p = ''/dashboard'' \<or> has_prefix p ''/dashboard/'' then (st, dashboard_reply_of env a r)
      else (st, core_status env a r st))"

definition core_mux ::
  "core_env \<Rightarrow> 'r core_app \<Rightarrow> string \<Rightarrow> http_request \<Rightarrow> 'r core_state \<Rightarrow> 'r core_state \<times> reply" where
  "core_mux env a rid r st =
     (if hq_method r \<noteq> ''CONNECT'' \<and> mux_path (hq_path r) \<noteq> hq_path r \<or> hq_path r = ''/assets''
      then (st, Moved_Reply (if mux_path (hq_path r) = ''/assets'' then ''/assets/'' else mux_path (hq_path r)))
      else (case protected_handler env a r of
          Some h \<Rightarrow> require_auth env a r h st
        | None \<Rightarrow> public_handler env a rid r st))"

subsection \<open>The server\<close>

text \<open>The limiters, with the rates read by \<^verbatim>\<open>config.Float64\<close> (\<open>rate\<close>).\<close>

definition core_limiters :: "os_env \<Rightarrow> (string \<Rightarrow> real \<Rightarrow> real) \<Rightarrow> tiered option" where
  "core_limiters os rate =
     (if \<not> env_bool os ''SAFE_ROAD_RATELIMIT_ENABLED'' True then None
      else
        let limiter_of = (\<lambda>name rpm burst. Some (new_limiter (rate (''SAFE_ROAD_RATELIMIT_'' @ name @ ''_RPM'') rpm)
              (env_int os (''SAFE_ROAD_RATELIMIT_'' @ name @ ''_BURST'') burst))) in
        Some \<lparr>tm_tiers = [\<lparr>ti_prefix = ''/v1/analyze'', ti_limiter = limiter_of ''ANALYZE'' 10 5\<rparr>,
                \<lparr>ti_prefix = ''/v1/overrides'', ti_limiter = limiter_of ''OVERRIDE'' 20 5\<rparr>,
                \<lparr>ti_prefix = ''/v1/telemetry'', ti_limiter = limiter_of ''TELEMETRY'' 30 10\<rparr>],
              tm_fallback = limiter_of ''DEFAULT'' 60 15\<rparr>)"

text \<open>The application and the state it starts with; an error ends the process.\<close>

definition core_app_of ::
  "os_env \<Rightarrow> runtime_security \<Rightarrow> 'r service \<Rightarrow> 'r core_app go_result" where
  "core_app_of os security svc =
     (let preset = env_string os ''SAFE_ROAD_AGENT_FEED_PRESET'' [] in
      case resolve_sources (env_string os ''SAFE_ROAD_AGENT_FEED_SOURCES'' []) preset of
        Inl e \<Rightarrow> Inl e
      | Inr sources \<Rightarrow> Inr
          \<lparr>ca_risk = svc, ca_tier = env_string os ''SAFE_ROAD_DEPLOYMENT_TIER'' ''budget-vps'',
           ca_access = \<lparr>ac_session_secret = sec_session_secret security, ac_password = sec_password security,
             ac_api_key = sec_api_key security, ac_public_host = env_string os ''SAFE_ROAD_PUBLIC_HOST'' []\<rparr>,
           ca_feed_key = env_string os ''SAFE_ROAD_THREAT_FEED_KEY'' default_threat_feed_key,
           ca_preset = preset, ca_sources = sources,
           ca_stale_after = duration_seconds os ''SAFE_ROAD_AGENT_FEED_STALE_AFTER_SECONDS'' (36 * 3600 * second)\<rparr>)"

definition core_start ::
  "os_env \<Rightarrow> (string \<Rightarrow> real \<Rightarrow> real) \<Rightarrow> 'r agent_env \<Rightarrow> alert_env \<Rightarrow> int \<Rightarrow> 'r core_app \<Rightarrow> 'r world \<Rightarrow> 'r core_state" where
  "core_start os rate env al now a w =
     \<lparr>ks_world = w, ks_metrics = new_registry now, ks_tiers = core_limiters os rate,
      ks_engine = core_engine os rate env al (ca_risk a) (ca_feed_key a) (ca_sources a)\<rparr>"

text \<open>A request through the whole chain: its identifier, the limiters, the routes, the metrics.  \<open>size\<close>
  is the number of bytes of an answer and \<open>duration\<close> how long it took.\<close>

definition core_serve ::
  "core_env \<Rightarrow> 'r core_app \<Rightarrow> string option \<Rightarrow> (reply \<Rightarrow> int) \<Rightarrow> int \<Rightarrow> http_request \<Rightarrow> 'r core_state \<Rightarrow>
     'r core_state \<times> reply" where
  "core_serve env a random size_of duration r st =
     (let rid = request_id_of random (hq_header r ''X-Request-ID'') in
      case (case ks_tiers st of
              None \<Rightarrow> core_mux env a rid r st
            | Some tiers \<Rightarrow>
                (case wrap_request (co_now env) (limiter_view r) tiers of
                   (tiers', Passed) \<Rightarrow> core_mux env a rid r (st\<lparr>ks_tiers := Some tiers'\<rparr>)
                 | (tiers', Too_Many retry) \<Rightarrow> (st\<lparr>ks_tiers := Some tiers'\<rparr>, Limited_Reply retry))) of
        (st1, answer) \<Rightarrow>
          (st1\<lparr>ks_metrics := observe_once (hq_method r) (hq_path r) (reply_status answer) (size_of answer)
              duration False (ks_metrics st1)\<rparr>, answer))"

end
