(* ===== verification/Core_Facts.thy ===== *)
theory Core_Facts
  imports Core_Routes
begin

text \<open>
  What the Core API guarantees: requests without credentials change nothing an administrator decides, a login
  opens a session that the checks accept until it ends, requests of other sites cannot use that session to change
  anything, a rule saved through the API is the answer of the risk service from then on, a report comes
  back to the page that shows it, and the start refuses weak secrets in production.
\<close>

subsection \<open>What an administrator decides\<close>

definition rules_of :: "store \<Rightarrow>
  (override list \<times> client_group list \<times> client_mapping list \<times> group_override list \<times> string list) option" where
  "rules_of st = map_option (\<lambda>d. (db_overrides d, db_groups d, db_mappings d, db_group_overrides d, db_whitelist d)) st"

lemma replace_evidence_rules [simp]: "rules_of (fst (replace_osint_evidence io name items st)) = rules_of st"
proof (cases st)
  case (Some d)
  let ?d = "d\<lparr>db_evidence := filter (\<lambda>x. oe_domain x \<noteq> trim_space (to_lower name)) (db_evidence d)\<rparr>"
  show ?thesis
  proof (cases "fold (insert_evidence io (trim_space (to_lower name))) items (Inr ?d)")
    case (Inr d')
    from insert_evidence_fold [OF this] have "d' = ?d\<lparr>db_evidence := db_evidence d', db_oe_seq := db_oe_seq d'\<rparr>" by auto
    then obtain e q where d': "d' = ?d\<lparr>db_evidence := e, db_oe_seq := q\<rparr>" by blast
    have "rules_of (Some d') = rules_of (Some d)" by (simp add: d' rules_of_def)
    with Inr Some show ?thesis
      by (auto simp: replace_osint_evidence_def run_db_def Let_def split: option.split)
  qed (auto simp: Some replace_osint_evidence_def run_db_def Let_def split: option.split)
qed (simp add: replace_osint_evidence_def run_db_def)

lemma record_event_rules [simp]: "rules_of (fst (record_agent_event io now t ty n details st)) = rules_of st"
  by (cases st) (auto simp: record_agent_event_def run_db_def rules_of_def split: option.split)

lemma record_evidence_rules [simp]: "rules_of (w_store (record_osint_evidence env rep w)) = rules_of (w_store w)"
  by (simp add: record_osint_evidence_def Let_def)

lemma lookup_osint_rules: "lookup_osint env s n r mode force w = (w1, rep) \<Longrightarrow> rules_of (w_store w1) = rules_of (w_store w)"
  by (auto simp: lookup_osint_def with_osint_state_def split: lookup_mode.splits option.splits prod.splits if_splits)

lemma apply_osint_store: "apply_osint env s n r rep revision w = (w1, r') \<Longrightarrow> w_store w1 = w_store w"
  by (auto simp: apply_osint_def write_entry_cache_def Let_def split: if_splits)

lemma assess_rules: "assess env s n mode force w = (w1, r, hit, evs) \<Longrightarrow> rules_of (w_store w1) = rules_of (w_store w)"
  by (auto simp: assess_def write_entry_cache_def Let_def dest!: lookup_osint_rules apply_osint_store
      split: sum.splits option.splits prod.splits)

lemma analyze_rules:
  assumes "analyze_with_options env s n client includeEvidence force w = (w1, a)"
  shows "rules_of (w_store w1) = rules_of (w_store w)"
  using assms by (auto simp: analyze_with_options_def Let_def dest!: assess_rules
      split: sum.splits option.splits prod.splits if_splits)

text \<open>The part of the state that only an administrator may change: the rules, and what the agent was asked
  to run.\<close>

definition admin_view :: "'r core_state \<Rightarrow> _" where
  "admin_view st = (rules_of (w_store (ks_world st)), ks_engine st)"

lemma block_report_admin:
  "block_report_handler env rid r st = (st', answer) \<Longrightarrow> admin_view st' = admin_view st"
proof -
  assume a: "block_report_handler env rid r st = (st', answer)"
  have "rules_of d = rules_of st0" if "record_agent_event io now t ty n details st0 = (d, res)"
    for io now t ty n details st0 d and res :: "unit go_result"
    using record_event_rules [of io now t ty n details st0] that by simp
  with a show ?thesis
    by (auto simp: block_report_handler_def admin_view_def with_store_def Let_def
        split: if_splits option.splits sum.splits prod.splits)
qed

lemma analyze_handler_admin:
  "analyze_handler env a r st = (st', answer) \<Longrightarrow> admin_view st' = admin_view st"
  by (auto simp: analyze_handler_def admin_view_def record_recent_def split: sum.splits prod.splits dest!: analyze_rules)

lemma public_admin: "public_handler env a rid r st = (st', answer) \<Longrightarrow> admin_view st' = admin_view st"
  by (auto simp: public_handler_def Let_def split: if_splits dest: block_report_admin analyze_handler_admin)

lemma admin_view_simps [simp]:
  "admin_view (st\<lparr>ks_tiers := t\<rparr>) = admin_view st" "admin_view (st\<lparr>ks_metrics := m\<rparr>) = admin_view st"
  by (simp_all add: admin_view_def)

subsection \<open>Credentials\<close>

definition credentials_ok :: "core_env \<Rightarrow> 'r core_app \<Rightarrow> http_request \<Rightarrow> bool" where
  "credentials_ok env a r \<longleftrightarrow>
     bearer_accepted (co_access env) (ca_access a) r \<or>
     session_accepted (co_access env) (ca_access a) r \<and>
       (hq_method r \<in> {''POST'', ''PUT'', ''DELETE''} \<longrightarrow> valid_csrf_sources (co_access env) (ca_access a) r)"

lemma access_decision_iff:
  "access_decision (co_access env) (ca_access a) r = None \<longleftrightarrow> credentials_ok env a r"
  by (auto simp: access_decision_def credentials_ok_def verify_csrf_def)

lemma denied_status: "access_decision x a r = Some (status, e) \<Longrightarrow> status \<in> {401, 403}"
  by (auto simp: access_decision_def split: if_splits option.splits)

lemma protected_clean:
  assumes "protected_handler env a r \<noteq> None"
  shows "mux_path (hq_path r) = hq_path r \<and> hq_path r \<noteq> ''/assets''"
proof -
  have p: "hq_path r \<in> {''/v1/osint/evidence'', ''/v1/overrides'', ''/v1/telemetry/recent'', ''/v1/telemetry/stats'',
      ''/v1/agent/status'', ''/v1/agent/trigger'', ''/v1/groups'', ''/v1/mappings'', ''/v1/group-overrides''}"
    using assms by (auto simp: protected_handler_def Let_def split: if_splits)
  have "mux_path ''/v1/osint/evidence'' = ''/v1/osint/evidence''" "mux_path ''/v1/overrides'' = ''/v1/overrides''"
    "mux_path ''/v1/telemetry/recent'' = ''/v1/telemetry/recent''" "mux_path ''/v1/telemetry/stats'' = ''/v1/telemetry/stats''"
    "mux_path ''/v1/agent/status'' = ''/v1/agent/status''" "mux_path ''/v1/agent/trigger'' = ''/v1/agent/trigger''"
    "mux_path ''/v1/groups'' = ''/v1/groups''" "mux_path ''/v1/mappings'' = ''/v1/mappings''"
    "mux_path ''/v1/group-overrides'' = ''/v1/group-overrides''"
    by code_simp+
  with p show ?thesis by auto
qed

lemma mux_denied:
  assumes "\<not> credentials_ok env a r" "core_mux env a rid r st = (st', answer)"
  shows "admin_view st' = admin_view st \<and>
    (protected_handler env a r \<noteq> None \<longrightarrow> reply_status answer \<in> {401, 403})"
proof -
  obtain status e where d: "access_decision (co_access env) (ca_access a) r = Some (status, e)"
    using assms(1) access_decision_iff by (metis option.exhaust surj_pair)
  with denied_status [OF d] assms(2) protected_clean [of env a r] show ?thesis
    by (auto simp: core_mux_def require_auth_def split: if_splits option.splits dest: public_admin)
qed

text \<open>C1. Only an administrator administers.  Whatever a request without credentials asks for, on whatever path
  and whatever the state, its handling changes no rule, no group, no mapping, no whitelist entry and asks the agent
  for nothing; and on a path of the administration it is answered 401 or 403, or 429 by the
  limiter.  Credentials are the API key as a bearer token, or the cookie of a valid session
  whose request, if it is a POST, PUT or DELETE, names its origin.\<close>

theorem no_admin_without_credentials:
  assumes "\<not> credentials_ok env a r" "core_serve env a random size_of duration r st = (st', answer)"
  shows "rules_of (w_store (ks_world st')) = rules_of (w_store (ks_world st)) \<and> ks_engine st' = ks_engine st \<and>
    (protected_handler env a r \<noteq> None \<longrightarrow> reply_status answer \<in> {401, 403, 429})"
proof -
  let ?rid = "request_id_of random (hq_header r ''X-Request-ID'')"
  have m: "admin_view s' = admin_view s \<and> (protected_handler env a r \<noteq> None \<longrightarrow> reply_status ans \<in> {401, 403})"
    if "core_mux env a ?rid r s = (s', ans)" for s s' ans
    by (rule mux_denied [OF assms(1) that])
  have "admin_view st' = admin_view st \<and> (protected_handler env a r \<noteq> None \<longrightarrow> reply_status answer \<in> {401, 403, 429})"
    using assms(2) by (auto simp: core_serve_def Let_def split: option.splits prod.splits http_outcome.splits dest!: m)
  then show ?thesis by (simp add: admin_view_def)
qed


subsection \<open>Sessions\<close>

lemma login_cookie:
  assumes "auth_login x a r = Logged_In c"
  shows "\<exists>req token. xe_login x (limited_body r 4096) = Some req \<and> hq_method r = ''POST'' \<and>
    same_secret x (lr_username req) ''admin'' \<and> same_secret x (lr_password req) (ac_password a) \<and>
    generate_session (xe_auth x) ''admin'' session_hours (ac_session_secret a) = Inr token \<and>
    c = session_cookie r token 43200"
  using assms by (auto simp: auth_login_def session_hours_def second_def Let_def split: if_splits option.splits sum.splits)

lemma generated_nonempty: "generate_session au u d secret = Inr token \<Longrightarrow> token \<noteq> []"
  by (auto simp: generate_session_def Let_def split: sum.splits)

text \<open>C4. A login opens a session of twelve hours.  A login is accepted only for the user name and the
  password of the administrator, up to SHA-256; its cookie is for every path, hidden from scripts, held back from
  requests of other sites, and restricted to TLS when the login came over TLS; and a request that brings the cookie
  back is taken for the administrator up to twelve hours after the login and not later.\<close>

theorem login_opens_session:
  assumes "\<And>claims json. au_encode (xe_auth x) claims = Inr json \<Longrightarrow> au_decode (xe_auth x) json = Some claims"
    "auth_login x a r = Logged_In c" "request_cookie r' (ck_name c) = Some (ck_value c)"
  shows "(\<exists>req. xe_login x (limited_body r 4096) = Some req \<and>
      xe_sha256 x (lr_username req) = xe_sha256 x ''admin'' \<and> xe_sha256 x (lr_password req) = xe_sha256 x (ac_password a)) \<and>
    ck_path c = ''/'' \<and> ck_http_only c \<and> ck_same_site c = ''Lax'' \<and> ck_max_age c = 43200 \<and> (ck_secure c \<longleftrightarrow> is_https r) \<and>
    (session_accepted (x\<lparr>xe_auth := (xe_auth x)\<lparr>au_now := t\<rparr>\<rparr>) a r' \<longleftrightarrow>
       unix t \<le> unix (au_now (xe_auth x) + 12 * 3600 * 1000000000))"
proof -
  from login_cookie [OF assms(2)] obtain req token where l: "xe_login x (limited_body r 4096) = Some req"
      "same_secret x (lr_username req) ''admin''" "same_secret x (lr_password req) (ac_password a)"
      "generate_session (xe_auth x) ''admin'' session_hours (ac_session_secret a) = Inr token"
      "c = session_cookie r token 43200" by blast
  have "request_cookie r' ''admin_session'' = Some token"
    using assms(3) by (simp add: l(5) session_cookie_def)
  then have "session_accepted (x\<lparr>xe_auth := (xe_auth x)\<lparr>au_now := t\<rparr>\<rparr>) a r' \<longleftrightarrow>
       unix t \<le> unix (au_now (xe_auth x) + session_hours)"
    using generated_verifies [OF assms(1) l(4), of t] generated_nonempty [OF l(4)]
    by (auto simp: session_accepted_def)
  with l show ?thesis by (simp add: same_secret_def session_cookie_def session_hours_def second_def)
qed

definition toy_access_env :: access_env where
  "toy_access_env = \<lparr>xe_os = toy_os, xe_auth = toy_auth\<lparr>au_now := - (12 * 3600 * 1000000000)\<rparr>,
     xe_sha256 = (\<lambda>s. s), xe_login = (\<lambda>(b, _). Some \<lparr>lr_username = ''admin'', lr_password = b\<rparr>)\<rparr>"

definition toy_access :: access where
  "toy_access = \<lparr>ac_session_secret = ''k'', ac_password = ''pw'', ac_api_key = ''key'', ac_public_host = ''sr.vn''\<rparr>"

definition toy_core_request :: "string \<Rightarrow> string \<Rightarrow> string \<Rightarrow> http_request" where
  "toy_core_request meth path body =
     \<lparr>hq_method = meth, hq_path = path, hq_query = [], hq_header = (\<lambda>_. []), hq_host = ''sr.vn'', hq_remote = ''1.2.3.4:5'',
      hq_tls = False, hq_cookies = [], hq_is_form = False, hq_body = body, hq_body_error = None\<rparr>"

theorem login_opens_session_witness:
  "\<exists>c. auth_login toy_access_env toy_access (toy_core_request ''POST'' ''/v1/auth/login'' ''pw'') = Logged_In c \<and>
     session_accepted (toy_access_env\<lparr>xe_auth := (xe_auth toy_access_env)\<lparr>au_now := 0\<rparr>\<rparr>) toy_access
       ((toy_core_request ''GET'' ''/'' [])\<lparr>hq_cookies := [(ck_name c, ck_value c)]\<rparr>)"
proof -
  let ?r = "toy_core_request ''POST'' ''/v1/auth/login'' ''pw''"
  obtain c where c: "auth_login toy_access_env toy_access ?r = Logged_In c"
    by (simp add: auth_login_def toy_access_env_def toy_access_def toy_core_request_def same_secret_def limited_body_def
        generate_session_def toy_auth_def unix_def session_hours_def second_def Let_def)
  let ?r' = "(toy_core_request ''GET'' ''/'' [])\<lparr>hq_cookies := [(ck_name c, ck_value c)]\<rparr>"
  have e: "au_decode (xe_auth toy_access_env) json = Some claims" if "au_encode (xe_auth toy_access_env) claims = Inr json"
    for claims json
    using that by (cases claims) (auto simp: toy_access_env_def toy_auth_def split: if_splits)
  have "request_cookie ?r' (ck_name c) = Some (ck_value c)" by (simp add: request_cookie_def)
  from login_opens_session [OF e c this, of 0] c show ?thesis
    by (simp add: toy_access_env_def)
qed


subsection \<open>Rules saved through the API\<close>

lemma serve_mux:
  assumes "core_serve env a random size_of duration r st = (st', answer)" "\<And>retry. answer \<noteq> Limited_Reply retry"
  shows "\<exists>st0 st1. ks_world st0 = ks_world st \<and> ks_world st' = ks_world st1 \<and>
    core_mux env a (request_id_of random (hq_header r ''X-Request-ID'')) r st0 = (st1, answer)"
proof (cases "ks_tiers st")
  case None
  with assms(1) show ?thesis by (fastforce simp: core_serve_def Let_def split: prod.splits)
next
  case (Some tiers)
  obtain tiers' out where w: "wrap_request (co_now env) (limiter_view r) tiers = (tiers', out)" by fastforce
  show ?thesis
  proof (cases out)
    case Passed
    obtain s1 where "core_mux env a (request_id_of random (hq_header r ''X-Request-ID'')) r (st\<lparr>ks_tiers := Some tiers'\<rparr>)
        = (s1, answer)" "ks_world st' = ks_world s1"
      using assms(1) w Some Passed by (auto simp: core_serve_def Let_def split: prod.splits)
    then show ?thesis by (intro exI [of _ "st\<lparr>ks_tiers := Some tiers'\<rparr>"] exI [of _ s1]) simp
  next
    case (Too_Many retry)
    with assms w Some show ?thesis by (auto simp: core_serve_def Let_def)
  qed
qed

lemma override_posted:
  assumes "core_serve env a random size_of duration r st = (st', Fields_Reply fs)" "hq_path r = ''/v1/overrides''"
    "hq_method r = ''POST''" "co_override env (limited_body r 10240) = Some req"
  shows "credentials_ok env a r \<and> fs = [(''status'', ''ok''), (''domain'', or_domain req), (''action'', or_action req)] \<and>
    service_upsert_override (co_risk env) (or_domain req) (or_action req) (or_reason req) (ks_world st) =
      (ks_world st', Inr ())"
proof -
  let ?rid = "request_id_of random (hq_header r ''X-Request-ID'')"
  obtain st0 st1 where m: "ks_world st0 = ks_world st" "ks_world st' = ks_world st1"
      "core_mux env a ?rid r st0 = (st1, Fields_Reply fs)"
    using serve_mux [OF assms(1)] by blast
  have p: "protected_handler env a r = Some (overrides_handler env r)"
    by (simp add: protected_handler_def assms(2))
  have c: "mux_path (hq_path r) = hq_path r \<and> hq_path r \<noteq> ''/assets''"
    by (rule protected_clean [of env a]) (simp add: p)
  have "access_decision (co_access env) (ca_access a) r = None"
    using m(3) p c by (auto simp: core_mux_def require_auth_def split: option.splits)
  moreover from this m(3) p c have "overrides_handler env r st0 = (st1, Fields_Reply fs)"
    by (simp add: core_mux_def require_auth_def)
  ultimately show ?thesis
    using m(1,2) assms(3,4) access_decision_iff [of env a r]
    by (auto simp: overrides_handler_def split: if_splits prod.splits sum.splits)
qed


definition toy_core_env :: core_env where
  "toy_core_env = \<lparr>co_access = toy_access_env, co_risk = toy_risk_env, co_feed = plain_feed_env, co_now = 0,
     co_stamp = (\<lambda>_. []), co_rfc3339 = (\<lambda>_. []), co_duration = (\<lambda>_. []), co_analyze = (\<lambda>(b, _). Some b),
     co_override = (\<lambda>(b, _). Some \<lparr>or_domain = b, or_action = ''block'', or_reason = []\<rparr>),
     co_group = (\<lambda>_. None), co_mapping = (\<lambda>_. None), co_group_override = (\<lambda>_. None), co_report = (\<lambda>_. Inl [])\<rparr>"

definition toy_core_app :: "toy core_app" where
  "toy_core_app = \<lparr>ca_risk = toy_service, ca_tier = [], ca_access = toy_access, ca_feed_key = [], ca_preset = [],
     ca_sources = [], ca_stale_after = 0\<rparr>"

definition toy_core_state :: "toy core_state" where
  "toy_core_state = \<lparr>ks_world = ruled_world, ks_metrics = None, ks_tiers = None, ks_engine = None\<rparr>"

definition block_a :: http_request where
  "block_a = (toy_core_request ''POST'' ''/v1/overrides'' ''a.'')
     \<lparr>hq_header := (\<lambda>h. if h = ''Authorization'' then ''Bearer key'' else [])\<rparr>"

lemma block_a_served:
  "\<exists>st' fs. core_serve toy_core_env toy_core_app None (\<lambda>_. 0) 0 block_a toy_core_state = (st', Fields_Reply fs)"
proof -
  have b: "bearer_accepted toy_access_env toy_access block_a" by code_simp
  have p: "protected_handler toy_core_env toy_core_app block_a = Some (overrides_handler toy_core_env block_a)"
    by (simp add: protected_handler_def block_a_def toy_core_request_def)
  have c: "mux_path (hq_path block_a) = hq_path block_a \<and> hq_path block_a \<noteq> ''/assets''"
    by (rule protected_clean [of toy_core_env toy_core_app]) (simp add: p)
  have m: "core_mux toy_core_env toy_core_app rid block_a st = overrides_handler toy_core_env block_a st" for rid st
  proof -
    have "co_access toy_core_env = toy_access_env" "ca_access toy_core_app = toy_access"
      by (simp_all add: toy_core_env_def toy_core_app_def)
    with c show ?thesis by (simp add: core_mux_def p require_auth_def access_decision_def b)
  qed
  have "\<exists>st' fs. overrides_handler toy_core_env block_a toy_core_state = (st', Fields_Reply fs)"
    by (simp add: toy_core_state_def overrides_handler_def block_a_def toy_core_request_def
        toy_core_env_def limited_body_def service_upsert_override_def normalize_a ruled_world_def enabled_def
        upsert_override_def run_db_def toy_risk_env_def no_faults_def valid_action_def Let_def)
  then obtain st' fs where "overrides_handler toy_core_env block_a toy_core_state = (st', Fields_Reply fs)" by blast
  moreover have "ks_tiers toy_core_state = None" by (simp add: toy_core_state_def)
  ultimately show ?thesis by (simp add: core_serve_def m Let_def)
qed


theorem no_admin_without_credentials_witness:
  "rules_of (w_store (ks_world (fst (core_serve toy_core_env toy_core_app None (\<lambda>_. 0) 0
      (toy_core_request ''POST'' ''/v1/overrides'' ''a.'') toy_core_state)))) = rules_of (w_store ruled_world)"
proof -
  let ?r = "toy_core_request ''POST'' ''/v1/overrides'' ''a.''"
  have "\<not> credentials_ok toy_core_env toy_core_app ?r"
    by (simp add: credentials_ok_def bearer_accepted_def session_accepted_def request_cookie_def toy_core_request_def
        has_prefix_def)
  from no_admin_without_credentials [OF this prod.collapse [symmetric], of None "\<lambda>_. 0" 0 toy_core_state]
  show ?thesis by (simp add: toy_core_state_def)
qed


subsection \<open>Reports\<close>

lemma upper_hex_digit:
  assumes "d < 16" "0 \<le> d"
  shows "is_hex (''0123456789ABCDEF'' ! nat d) \<and> hex_val (''0123456789ABCDEF'' ! nat d) = d \<and>
    (''0123456789ABCDEF'' ! nat d) \<notin> set ''+&;=%''"
proof -
  have "d \<in> {0, 1, 2, 3, 4, 5, 6, 7, 8, 9, 10, 11, 12, 13, 14, 15}" using assms by simp presburger
  then show ?thesis by (auto simp: is_hex_def is_dec_def hex_val_def byte_of_def)
qed

lemma upper_hex_back:
  "upper_hex c = [a, b] \<Longrightarrow> is_hex a \<and> is_hex b \<and> char_of (hex_val a * 16 + hex_val b) = c \<and> {a, b} \<inter> set ''+&;=%'' = {}"
proof -
  assume u: "upper_hex c = [a, b]"
  have "0 \<le> x div 16 \<and> x div 16 < 16" if "0 \<le> x" "x < 256" for x :: int using that by presburger
  then have h: "0 \<le> byte_of c div 16" "byte_of c div 16 < 16" using byte_of_range [of c] by blast+
  have l: "0 \<le> byte_of c mod 16" "byte_of c mod 16 < 16" by simp_all
  have ab: "a = ''0123456789ABCDEF'' ! nat (byte_of c div 16)" "b = ''0123456789ABCDEF'' ! nat (byte_of c mod 16)"
    using u by (simp_all add: upper_hex_def)
  have "hex_val a * 16 + hex_val b = byte_of c"
    using upper_hex_digit [OF h(2,1)] upper_hex_digit [OF l(2,1)] by (simp add: ab)
  moreover have "char_of (byte_of c) = c" by (simp add: byte_of_def)
  ultimately show ?thesis
    using upper_hex_digit [OF h(2,1)] upper_hex_digit [OF l(2,1)] by (simp add: ab)
qed

lemma query_escape_Cons:
  "query_escape (c # s) =
     (if query_plain c then [c] else if c = CHR '' '' then ''+'' else CHR ''%'' # upper_hex c) @ query_escape s"
  by (simp add: query_escape_chars)

lemma unescape_escape: "query_unescape (query_escape s) = Some s"
proof (induction s)
  case Nil
  then show ?case by (simp add: query_escape_chars query_unescape_def)
next
  case (Cons c s)
  obtain a b where u: "upper_hex c = [a, b]" by (simp add: upper_hex_def)
  have p: "c \<noteq> CHR ''%'' \<and> c \<noteq> CHR ''+''" if "query_plain c"
    using that by (auto simp: query_plain_def is_alpha_def is_dec_def byte_of_def)
  from Cons upper_hex_back [OF u] p show ?case
    by (auto simp: query_escape_Cons query_unescape_def u Let_def)
qed

lemma escaped_chars: "set (query_escape s) \<inter> set ''&;='' = {}"
proof (induction s)
  case (Cons c s)
  obtain a b where u: "upper_hex c = [a, b]" by (simp add: upper_hex_def)
  have "c \<notin> set ''&;=''" if "query_plain c"
    using that by (auto simp: query_plain_def is_alpha_def is_dec_def byte_of_def)
  with Cons upper_hex_back [OF u] show ?case by (auto simp: query_escape_Cons u)
qed (simp add: query_escape_chars)

lemma escaped_pair:
  assumes "set key \<inter> set ''&;=%+'' = {}"
  shows "query_pair (key @ ''='' @ query_escape v) = Some (key, v)"
proof -
  have "\<not> contains (key @ ''='' @ query_escape v) '';''"
    using assms escaped_chars [of v] by (auto simp: contains_singleton)
  moreover have "cut CHR ''='' (key @ ''='' @ query_escape v) = (key, Some (query_escape v))"
    using assms by (auto simp: cut_app)
  moreover have "query_unescape key = Some key"
  proof -
    have "map (\<lambda>c. if c = CHR ''+'' then CHR '' '' else c) key = key"
      using assms by (intro map_idI) auto
    moreover have "unescape Other_mode key = Some key"
      using assms by (intro unescape_plain) (auto simp: list_all_iff)
    ultimately show ?thesis by (simp add: query_unescape_def)
  qed
  ultimately show ?thesis by (simp add: query_pair_def unescape_escape)
qed


lemma report_target_query:
  "\<exists>query. report_target d p = ''/block?'' @ query \<and> query_ok query \<and>
     (\<forall>key. values_get (parse_query query) key =
        (if key = ''reported'' then ''1'' else if key = ''domain'' then d else if key = ''path'' then p else []))"
proof -
  let ?part = "\<lambda>key v. if v = [] then [] else [key @ ''='' @ query_escape v]"
  let ?parts = "''reported=1'' # ?part ''domain'' d @ ?part ''path'' p"
  let ?q = "join_with ''&'' ?parts"
  have t: "report_target d p = ''/block?'' @ ?q" by (simp add: report_target_def)
  have n: "CHR ''&'' \<notin> set x" if "x \<in> set ?parts" for x
    using that escaped_chars [of d] escaped_chars [of p] by (auto split: if_splits)
  have parts: "split_on CHR ''&'' ?q = ?parts"
    by (rule split_join) (use n in \<open>auto simp: list_all_iff\<close>)
  have r: "query_pair ''reported=1'' = Some (''reported'', ''1'')"
    by (simp add: query_pair_def query_unescape_def has_prefix_def)
  have e: "query_pair (''domain='' @ query_escape v) = Some (''domain'', v)" "query_pair (''path='' @ query_escape v) = Some (''path'', v)" for v
    using escaped_pair [of "''domain''" v] escaped_pair [of "''path''" v] by simp_all
  have q: "query_parts ?q = ?parts" by (simp add: query_parts_def parts)
  have "parse_query ?q = (''reported'', ''1'') # (if d = [] then [] else [(''domain'', d)]) @ (if p = [] then [] else [(''path'', p)])"
    using r e by (simp add: parse_query_def q List.map_filter_def)
  moreover have "query_ok ?q" using r e by (simp add: query_ok_def q)
  ultimately show ?thesis using t by (intro exI [of _ ?q]) (auto simp: values_get_def)
qed

text \<open>C6. A report comes back to the page that thanks for it.  Whatever the visitor typed as the domain and the
  path, the page the report redirects to reads the same domain and path from its query, with nothing else in it
  but the mark that the report was received; no input can add a parameter or leave the block page.  The report
  changes no rule, and with a store it is recorded for the domain.\<close>

theorem report_round_trip:
  assumes "block_report_handler env rid r st = (st', Redirect_Reply target)" "parse_form r (16 * 1024) = Some form"
  shows "(let domain = first_non_empty [trim_space (values_get form ''domain''), blocked_domain_of r];
              path = first_non_empty [trim_space (values_get form ''requested_path''), blocked_path_of r] in
      \<exists>query. target = ''/block?'' @ query \<and> query_ok query \<and>
        (\<forall>key. values_get (parse_query query) key =
           (if key = ''reported'' then ''1'' else if key = ''domain'' then domain else if key = ''path'' then path else []))) \<and>
    rules_of (w_store (ks_world st')) = rules_of (w_store (ks_world st))"
proof -
  let ?d = "first_non_empty [trim_space (values_get form ''domain''), blocked_domain_of r]"
  let ?p = "first_non_empty [trim_space (values_get form ''requested_path''), blocked_path_of r]"
  have "target = report_target ?d ?p"
    using assms by (auto simp: block_report_handler_def method_not_allowed_def Let_def simp del: first_non_empty.simps
        split: if_splits sum.splits prod.splits)
  then show ?thesis
    using report_target_query [of ?d ?p] block_report_admin [OF assms(1)]
    by (simp add: admin_view_def Let_def del: first_non_empty.simps)
qed

definition toy_report_request :: http_request where
  "toy_report_request = (toy_core_request ''POST'' ''/block/report'' ''domain=a%26b.vn&requested_path=/x'')\<lparr>hq_is_form := True\<rparr>"

theorem report_round_trip_witness:
  "\<exists>query. snd (block_report_handler (toy_core_env\<lparr>co_report := (\<lambda>_. Inr [])\<rparr>) [] toy_report_request toy_core_state) =
      Redirect_Reply (''/block?'' @ query) \<and> values_get (parse_query query) ''domain'' = ''a&b.vn''"
proof -
  let ?env = "toy_core_env\<lparr>co_report := (\<lambda>_. Inr [])\<rparr>"
  have f: "parse_form toy_report_request (16 * 1024) = Some [(''domain'', ''a&b.vn''), (''requested_path'', ''/x'')]" by code_simp
  have e: "co_report ?env x = Inr []" "rk_io (co_risk toy_core_env) = no_faults" "hq_method toy_report_request = ''POST''" for x
    by (simp_all add: toy_core_env_def toy_risk_env_def toy_report_request_def toy_core_request_def)
  have w: "w_store (ks_world toy_core_state) = Some (fresh_db [] 30 True)"
    by (simp add: toy_core_state_def ruled_world_def)
  obtain st' target where h: "block_report_handler ?env [] toy_report_request toy_core_state = (st', Redirect_Reply target)"
    unfolding block_report_handler_def f
    by (simp add: e w enabled_def record_agent_event_def run_db_def no_faults_def Let_def del: first_non_empty.simps)
  have "first_non_empty [trim_space (values_get [(''domain'', ''a&b.vn''), (''requested_path'', ''/x'')] ''domain''),
      blocked_domain_of toy_report_request] = ''a&b.vn''" by code_simp
  with report_round_trip [OF h f] show ?thesis by (auto simp: h Let_def simp del: first_non_empty.simps)
qed


subsection \<open>Origins\<close>

lemma url_parse_origin:
  assumes "normal_name d"
  shows "url_parse (''https://'' @ d) = Some \<lparr>url_scheme = ''https'', url_opaque = [], url_host = d\<rparr>"
proof -
  let ?u = "''https://'' @ d"
  have d: "\<forall>c \<in> set d. \<not> ctl_byte c \<and> c \<notin> set '':/?#@%''" using normal_chars [OF assms] by fastforce
  have frag: "cut CHR ''#'' ?u = (?u, None)" by (rule cut_None) (use d in auto)
  have ctl: "\<not> list_ex ctl_byte ?u" using d by (auto simp: list_ex_iff ctl_byte_def byte_of_def)
  have scheme: "scheme_scan [] ?u = Some (''https'', ''//'' @ d)"
    by (simp add: is_alpha_def is_dec_def byte_of_def)
  have q: "fst (cut CHR ''?'' (''//'' @ d)) = ''//'' @ d"
    by (subst cut_None) (use d in auto)
  have auth: "cut CHR ''/'' d = (d, None)" by (rule cut_None) (use d in auto)
  have host: "parse_authority ''https'' d = Some d"
  proof -
    have "cut_last CHR ''@'' d = None" by (rule cut_last_None) (use d in auto)
    then show ?thesis by (simp add: parse_authority_def parse_host_normal [OF assms])
  qed
  have low: "to_lower ''https'' = ''https''" by code_simp
  have "d \<noteq> []" using assms by (simp add: normal_name_def)
  moreover have "CHR ''/'' \<notin> set d" using d by auto
  ultimately have nos: "\<not> has_prefix (''//'' @ d) ''///''" by (cases d) (auto simp: has_prefix_def)
  show ?thesis
    using frag ctl scheme q auth host low
    by (simp add: url_parse_def Let_def has_prefix_def)
qed

lemma canonical_plain:
  assumes "normal_name h"
  shows "canonical_request_host h = h" "canonical_request_host (h @ '':80'') = h" "canonical_request_host (h @ '':443'') = h"
proof -
  have c: "\<forall>c \<in> set h. \<not> ascii_space c \<and> c \<notin> set '':/?#@%[]''" and a: "is_ascii h" "upper_free h" "h \<noteq> []"
    using normal_chars [OF assms] assms by (fastforce simp: normal_name_def)+
  have n: "CHR '':'' \<notin> set h" "CHR ''/'' \<notin> set h" "{bracket, CHR '']''} \<inter> set h = {}"
    using c by (auto simp: bracket_def)
  have t: "trim_space (to_lower (h @ p)) = h @ p" if "p \<in> {[], '':80'', '':443''}" for p
  proof -
    have "is_ascii p \<and> upper_free p \<and> list_all (\<lambda>c. \<not> ascii_space c) p"
      using that by (elim insertE emptyE) (simp_all add: is_ascii_def upper_free_def byte_of_def ascii_space_def)
    moreover have "list_all (\<lambda>c. \<not> ascii_space c) h" using c by (simp add: list_all_iff)
    ultimately show ?thesis using a(1,2) by (intro trim_lower_id) simp_all
  qed
  have u: "\<not> contains (h @ p) ''://''" if "p \<in> {[], '':80'', '':443''}" for p
  proof
    assume "contains (h @ p) ''://''"
    then have "set ''://'' \<subseteq> set (h @ p)" by (rule contains_set)
    with that n show False by auto
  qed
  have s: "trim_suffix (h @ p) ''/'' = h @ p" if "p \<in> {[], '':80'', '':443''}" for p
    using that n by (intro trim_suffix_notin) auto
  have e: "canonical_request_host (h @ p) = (case split_host_port (h @ p) of None \<Rightarrow> h @ p
       | Some (host, port) \<Rightarrow> if port = ''80'' \<or> port = ''443'' then host else join_host_port host port)"
    if "p \<in> {[], '':80'', '':443''}" for p
    using t [OF that] u [OF that] s [OF that] a(3) by (simp add: canonical_request_host_def Let_def split: option.split)
  have p: "split_host_port (h @ '':80'') = Some (h, ''80'')" "split_host_port (h @ '':443'') = Some (h, ''443'')"
    using split_host_port_plain [of h "''80''"] split_host_port_plain [of h "''443''"] n by (auto simp: bracket_def)
  show "canonical_request_host h = h"
    using e [of "[]"] split_host_port_no_colon [OF n(1)] by simp
  show "canonical_request_host (h @ '':80'') = h" "canonical_request_host (h @ '':443'') = h"
    using e [of "'':80''"] e [of "'':443''"] p by simp_all
qed


text \<open>A page of \<^verbatim>\<open>b\<close> posts to \<^verbatim>\<open>sr.vn\<close>.\<close>

definition foreign_post :: http_request where
  "foreign_post = (toy_core_request ''POST'' ''/v1/overrides'' ''a.'')\<lparr>hq_header := (\<lambda>h. if h = ''Origin'' then ''https://b'' else [])\<rparr>"


subsection \<open>Secrets of a run\<close>

lemma random_string_length:
  assumes "\<And>n bytes. au_random au n = Inr bytes \<Longrightarrow> length bytes = n" "secure_random_string au n = Inr s"
  shows "length s = 2 * n"
proof -
  obtain bytes where b: "au_random au n = Inr bytes" "s = concat (map hex_of bytes)"
    using assms(2) by (auto simp: secure_random_string_def split: sum.splits)
  have "length (concat (map hex_of xs)) = 2 * length xs" for xs by (induction xs) (simp_all add: hex_of_def)
  with b assms(1) [OF b(1)] show ?thesis by simp
qed

text \<open>C5. The API never starts with weak secrets in production, and outside production it never starts
  without secrets.  In production the password has at least 12 and the API key at least 24 bytes, neither is a
  placeholder, both are the configured ones and nothing is written to disk; elsewhere a missing secret is
  replaced by a random one of 32 or 48 characters, and exactly the generated ones are in the file that is
  written.  The session secret is always new.\<close>

theorem startup_secrets:
  assumes "\<And>n bytes. au_random au n = Inr bytes \<Longrightarrow> length bytes = n" "load_runtime_security os au sf = (written, Inr sec)"
  shows "length (sec_session_secret sec) = 64 \<and>
    (\<exists>pw key. secret_string_e os ''SAFE_ROAD_ADMIN_PASSWORD'' = Inr pw \<and>
       secret_string_e os ''SAFE_ROAD_ADMIN_API_KEY'' = Inr key \<and>
       (if is_production os then
          written = None \<and> sec_password sec = pw \<and> sec_api_key sec = key \<and>
          12 \<le> length (trim_space pw) \<and> \<not> looks_placeholder_secret (trim_space pw) \<and>
          24 \<le> length (trim_space key) \<and> \<not> looks_placeholder_secret (trim_space key)
        else
          (if pw = [] then length (sec_password sec) = 32 else sec_password sec = pw) \<and>
          (if key = [] then length (sec_api_key sec) = 48 else sec_api_key sec = key) \<and>
          written = (if pw = [] \<or> key = [] then
            Some (secrets_content (if pw = [] then sec_password sec else []) (if key = [] then sec_api_key sec else []))
            else None)))"
proof -
  obtain seed pw key where b: "secure_random_string au 32 = Inr seed"
      "secret_string_e os ''SAFE_ROAD_ADMIN_PASSWORD'' = Inr pw" "secret_string_e os ''SAFE_ROAD_ADMIN_API_KEY'' = Inr key"
    using assms(2) by (auto simp: load_runtime_security_def split: sum.splits)
  have len: "length s = 2 * n" if "secure_random_string au n = Inr s" for n s
    by (rule random_string_length [OF _ that]) (rule assms(1))
  show ?thesis
  proof (cases "is_production os")
    case True
    with assms(2) b have "written = None \<and> validate_production_admin_password os pw = None \<and>
        validate_production_admin_api_key os key = None \<and>
        sec = \<lparr>sec_session_secret = seed, sec_password = pw, sec_api_key = key\<rparr>"
      by (auto simp: load_runtime_security_def split: option.splits)
    with b True len [OF b(1)] show ?thesis
      by (auto simp: validate_production_admin_password_def validate_production_admin_api_key_def
          min_admin_password_length_def min_admin_api_key_length_def Let_def not_less split: if_splits)
  next
    case False
    obtain p np where p: "secret_or_generated au ''password'' 16 pw = Inr (p, np)"
      using assms(2) b False by (auto simp: load_runtime_security_def split: sum.splits)
    obtain k nk where k: "secret_or_generated au ''API key'' 24 key = Inr (k, nk)"
      using assms(2) b False p by (auto simp: load_runtime_security_def split: sum.splits)
    have pl: "if pw = [] then length p = 32 \<and> np = p else p = pw \<and> np = []"
      using p len by (auto simp: secret_or_generated_def split: if_splits sum.splits)
    have kl: "if key = [] then length k = 48 \<and> nk = k else k = key \<and> nk = []"
      using k len by (auto simp: secret_or_generated_def split: if_splits sum.splits)
    have sec: "sec = \<lparr>sec_session_secret = seed, sec_password = p, sec_api_key = k\<rparr>"
        "written = (if np = [] \<and> nk = [] then None else Some (secrets_content np nk))"
      using assms(2) b False p k
      by (auto simp: load_runtime_security_def write_local_admin_secrets_def Let_def split: if_splits option.splits prod.splits)
    have "np = [] \<longleftrightarrow> pw \<noteq> []" "nk = [] \<longleftrightarrow> key \<noteq> []" using pl kl by (auto split: if_splits)
    then show ?thesis using b False len [OF b(1)] pl kl by (auto simp: sec split: if_splits)
  qed
qed

theorem startup_secrets_witness:
  "\<exists>content sec. load_runtime_security toy_os toy_auth \<lparr>sf_mkdir = None, sf_write = (\<lambda>_. None)\<rparr> = (Some content, Inr sec) \<and>
     length (sec_password sec) = 32 \<and> length (sec_api_key sec) = 48"
proof -
  have t: "trim_space [] = []" by simp
  have e: "to_lower [] = []" "getenv toy_os k = []" "secret_string_e toy_os k = Inr []" for k
    by (simp_all add: toy_os_def secret_string_e_def Let_def)
  have n: "\<not> is_production toy_os" by (simp add: is_production_def environment_def e)
  have r: "secure_random_string toy_auth n = Inr (concat (replicate n (hex_of (char_of (0 :: nat)))))" for n
    by (simp add: secure_random_string_def toy_auth_def map_replicate)
  have "\<exists>content sec. load_runtime_security toy_os toy_auth \<lparr>sf_mkdir = None, sf_write = (\<lambda>_. None)\<rparr> = (Some content, Inr sec)"
    by (simp add: load_runtime_security_def e n r secret_or_generated_def write_local_admin_secrets_def hex_of_def Let_def)
  then obtain content sec where l: "load_runtime_security toy_os toy_auth \<lparr>sf_mkdir = None, sf_write = (\<lambda>_. None)\<rparr> = (Some content, Inr sec)"
    by blast
  have "length bytes = n" if "au_random toy_auth n = Inr bytes" for n bytes using that by (auto simp: toy_auth_def)
  from startup_secrets [OF this l] l show ?thesis by (auto simp: e n)
qed

end
