(* ===== verification/Tls_Inspect.thy ===== *)
theory Tls_Inspect
  imports Osint Web
begin

text \<open>
  \<^verbatim>\<open>internal/tlsinspect/inspect.go\<close>: the certificate of a name and the score it gives.  The resolver and the
  TLS handshake are parameters, a certificate is a record of the fields that are read, times are
  nanoseconds.  The age in days is computed without the rounding of floating point numbers and without the
  saturation of \<^verbatim>\<open>time.Time.Sub\<close> at 292 years.
\<close>

record certificate =
  ct_issuer :: string
  ct_subject :: string
  ct_issuer_name :: string
  ct_subject_name :: string
  ct_dns_names :: "string list"
  ct_not_before :: int
  ct_not_after :: int

record tls_result =
  tr_has_tls :: bool
  tr_valid :: bool
  tr_self_signed :: bool
  tr_expired :: bool
  tr_issuer :: string
  tr_subject :: string
  tr_san_match :: bool
  tr_age_days :: int
  tr_wildcard :: bool
  tr_not_before :: int
  tr_not_after :: int
  tr_score :: int
  tr_reasons :: "string list"

record tls_env =
  te_now :: int
  te_lookup :: "string \<Rightarrow> ip list go_result"
  te_dial :: "ip \<Rightarrow> string \<Rightarrow> certificate list go_result"

subsection \<open>Addresses\<close>

text \<open>The methods of \<^verbatim>\<open>net.IP\<close> on the four-byte form, and the shared address space of RFC 6598.\<close>

fun public4 :: "32 word \<Rightarrow> bool" where
  "public4 w \<longleftrightarrow>
     \<not> (drop_bit 24 w = 127 \<or> drop_bit 24 w = 10 \<or> drop_bit 20 w = 2753 \<or> drop_bit 16 w = 49320 \<or>
        drop_bit 16 w = 43518 \<or> drop_bit 8 w = 14680064 \<or> w = 0) \<and>
     \<not> (drop_bit 24 w = 100 \<and> 64 \<le> take_bit 8 (drop_bit 16 w) \<and> take_bit 8 (drop_bit 16 w) \<le> 127)"

fun public6 :: "128 word \<Rightarrow> bool" where
  "public6 w \<longleftrightarrow>
     \<not> (w = 1 \<or> drop_bit 121 w = 126 \<or> drop_bit 118 w = 1018 \<or>
        (drop_bit 120 w = 255 \<and> take_bit 4 (drop_bit 112 w) = 2) \<or> w = 0)"

definition is_public_ip :: "ip \<Rightarrow> bool" where
  "is_public_ip a \<longleftrightarrow> (case to4 a of IPv4 w \<Rightarrow> public4 w | IPv6 w \<Rightarrow> public6 w)"

subsection \<open>Names\<close>

definition match_hostname :: "string \<Rightarrow> string \<Rightarrow> bool" where
  "match_hostname pattern host \<longleftrightarrow>
     pattern = host \<or>
     (has_prefix pattern ''*.'' \<and>
      (let suffix = tl pattern in has_suffix host suffix \<and> count_char host CHR ''.'' = count_char suffix CHR ''.''))"

definition cert_matches_domain :: "certificate \<Rightarrow> string \<Rightarrow> bool" where
  "cert_matches_domain c domain0 \<longleftrightarrow>
     (let domain = to_lower (trim_suffix domain0 ''.'') in
      list_ex (\<lambda>san. match_hostname (to_lower san) domain) (ct_dns_names c) \<or>
      match_hostname (to_lower (ct_subject_name c)) domain)"

subsection \<open>Scores\<close>

text \<open>Hours over 24, cut off to an integer.\<close>

definition whole_days :: "int \<Rightarrow> int" where
  "whole_days d = (let day = 24 * 3600 * second in if 0 \<le> d then d div day else - (- d div day))"

definition no_tls :: tls_result where
  "no_tls = \<lparr>tr_has_tls = False, tr_valid = False, tr_self_signed = False, tr_expired = False, tr_issuer = [],
     tr_subject = [], tr_san_match = False, tr_age_days = 0, tr_wildcard = False, tr_not_before = 0,
     tr_not_after = 0, tr_score = 0, tr_reasons = []\<rparr>"

definition score_result :: "int \<Rightarrow> string \<Rightarrow> certificate \<Rightarrow> tls_result" where
  "score_result now domain c =
     (let expired = ct_not_after c < now;
          self = ct_issuer c = ct_subject c;
          age = whole_days (now - ct_not_before c);
          matches = cert_matches_domain c domain;
          wildcard = list_ex (\<lambda>name. has_prefix name ''*.'') (ct_dns_names c) \<or> has_prefix (ct_subject_name c) ''*.'';
          signals =
            (if expired then [(20, ''tls: certificate expired'')] else []) @
            (if self then [(25, ''tls: self-signed certificate'')] else []) @
            (if age < 7 \<and> \<not> expired then [(15, ''tls: certificate issued < 7 days ago'')] else []) @
            (if \<not> matches then [(30, ''tls: certificate name does not match domain'')] else []);
          score = sum_list (map fst signals)
      in \<lparr>tr_has_tls = True, tr_valid = \<not> expired, tr_self_signed = self, tr_expired = expired,
          tr_issuer = ct_issuer_name c, tr_subject = ct_subject_name c, tr_san_match = matches, tr_age_days = age,
          tr_wildcard = wildcard, tr_not_before = ct_not_before c, tr_not_after = ct_not_after c,
          tr_score = (if 100 < score then 100 else score), tr_reasons = map snd signals\<rparr>)"

definition inspect_cert :: "int \<Rightarrow> string \<Rightarrow> certificate \<Rightarrow> tls_result" where
  "inspect_cert now domain c = score_result now domain c"

text \<open>\<^verbatim>\<open>Inspect\<close>: the address that was dialled, if any, and the result.\<close>

definition inspect :: "tls_env \<Rightarrow> string \<Rightarrow> ip option \<times> tls_result" where
  "inspect env domain =
     (case te_lookup env domain of
        Inl _ \<Rightarrow> (None, no_tls)
      | Inr ips \<Rightarrow>
          if ips = [] then (None, no_tls)
          else (case find is_public_ip ips of
              None \<Rightarrow> (None, no_tls\<lparr>tr_reasons := [''tls: blocked connection to private ip'']\<rparr>)
            | Some ip \<Rightarrow>
                (case te_dial env ip domain of
                   Inl _ \<Rightarrow> (Some ip, no_tls)
                 | Inr [] \<Rightarrow> (Some ip, no_tls\<lparr>tr_has_tls := True\<rparr>)
                 | Inr (cert # _) \<Rightarrow> (Some ip, score_result (te_now env) domain cert))))"

definition tls_signal :: "tls_env \<Rightarrow> string \<Rightarrow> int \<times> string list" where
  "tls_signal env domain = (case inspect env domain of (_, r) \<Rightarrow> (tr_score r, tr_reasons r))"

subsection \<open>Facts\<close>

text \<open>A wildcard stands for exactly one label.\<close>

lemma match_hostname_iff:
  "match_hostname pattern host \<longleftrightarrow> pattern = host \<or>
     (\<exists>label suffix. pattern = ''*.'' @ suffix \<and> host = label @ ''.'' @ suffix \<and> CHR ''.'' \<notin> set label)"
proof -
  have "(\<exists>label suffix. pattern = ''*.'' @ suffix \<and> host = label @ ''.'' @ suffix \<and> CHR ''.'' \<notin> set label) \<longleftrightarrow>
      has_prefix pattern ''*.'' \<and> has_suffix host (tl pattern) \<and>
      count_char host CHR ''.'' = count_char (tl pattern) CHR ''.''"
    by (auto simp: has_prefix_iff has_suffix_iff count_char_def filter_empty_conv)
  then show ?thesis by (auto simp: match_hostname_def Let_def)
qed

lemma inspect_public: "inspect env domain = (Some ip, r) \<Longrightarrow> is_public_ip ip"
  by (auto simp: inspect_def find_Some_iff split: sum.splits if_splits option.splits list.splits)

lemma score_result_bounds: "0 \<le> tr_score (score_result now domain c) \<and> tr_score (score_result now domain c) \<le> 75"
  by (simp add: score_result_def Let_def)

lemma tls_signal_bounds: "0 \<le> fst (tls_signal env domain) \<and> fst (tls_signal env domain) \<le> 75"
  using score_result_bounds
  by (auto simp: tls_signal_def inspect_def no_tls_def split: sum.split option.split list.split)

lemma tls_signal_unreached:
  assumes "\<And>ip. ip \<in> set ips \<Longrightarrow> is_public_ip ip \<Longrightarrow> isl (te_dial env ip domain) \<or> te_dial env ip domain = Inr []"
    "te_lookup env domain = Inr ips"
  shows "fst (tls_signal env domain) = 0"
  using assms by (fastforce simp: tls_signal_def inspect_def no_tls_def find_Some_iff in_set_conv_nth
      split: option.split sum.split list.split)

end
