(* ===== verification/Whois.thy ===== *)
theory Whois
  imports Whitelist Tls_Inspect
begin

text \<open>
  \<^verbatim>\<open>internal/whois/lookup.go\<close>: the age of a registration and the score it gives.  The regular expressions are
  written out as what they match: a label in any case, white space, and the rest of a line, at the leftmost
  place.  The connection to the server and \<^verbatim>\<open>time.Parse\<close> are parameters; times are nanoseconds.
\<close>

record whois_result =
  wr_found :: bool
  wr_registered :: int
  wr_age_days :: int
  wr_registrar :: string
  wr_privacy :: bool
  wr_score :: int
  wr_reasons :: "string list"

record whois_env =
  we_now :: int
  we_query :: "string \<Rightarrow> string \<Rightarrow> (string \<times> err option) go_result"
  we_parse_time :: "string \<Rightarrow> string \<Rightarrow> int option"

definition whois_servers :: "(string \<times> string) list" where
  "whois_servers =
     [(''com'', ''whois.verisign-grs.com''), (''net'', ''whois.verisign-grs.com''), (''org'', ''whois.pir.org''),
      (''info'', ''whois.afilias.net''), (''biz'', ''whois.biz''), (''io'', ''whois.nic.io''), (''co'', ''whois.nic.co''),
      (''us'', ''whois.nic.us''), (''uk'', ''whois.nic.uk''), (''app'', ''whois.nic.google''),
      (''dev'', ''whois.nic.google''), (''xyz'', ''whois.nic.xyz''), (''site'', ''whois.nic.site''),
      (''store'', ''whois.nic.store''), (''shop'', ''whois.nic.shop''), (''online'', ''whois.nic.online''),
      (''club'', ''whois.nic.club''), (''vn'', ''whois.dot.vn'')]"

subsection \<open>Patterns\<close>

definition date_labels :: "string list" where
  "date_labels = [''creation date:'', ''registration date:'', ''created:'', ''registered:'',
     ''domain registration date:'', ''registration time:'']"

definition registrar_labels :: "string list" where
  "registrar_labels = [''registrar:'', ''registrar name:'']"

definition privacy_keywords :: "string list" where
  "privacy_keywords = [''privacy'', ''protect'', ''whoisguard'', ''domains by proxy'', ''perfect privacy'',
     ''contact privacy'', ''private registration'']"

text \<open>A label under \<^verbatim>\<open>(?i)\<close>: besides the other case of a letter, the long s and the kelvin sign match.\<close>

fun match_fold :: "string \<Rightarrow> string \<Rightarrow> string option" where
  "match_fold [] s = Some s"
| "match_fold (l # ls) [] = None"
| "match_fold (l # ls) (c # cs) =
     (if lower_char c = l then match_fold ls cs
      else if l = CHR ''s'' \<and> has_prefix (c # cs) [char_of (197 :: nat), char_of (191 :: nat)]
        then match_fold ls (drop 1 cs)
      else if l = CHR ''k'' \<and> has_prefix (c # cs) [char_of (226 :: nat), char_of (132 :: nat), char_of (170 :: nat)]
        then match_fold ls (drop 2 cs)
      else None)"

definition re_space :: "char \<Rightarrow> bool" where
  "re_space c \<longleftrightarrow> byte_of c \<in> {9, 10, 12, 13, 32}"

definition line_feed :: char where
  "line_feed = char_of (10 :: nat)"

text \<open>\<^verbatim>\<open>\s*(.+)\<close>: the rest of the line after the white space; when only white space is left, the last
  character of it that a dot can match.\<close>

definition capture :: "string \<Rightarrow> string option" where
  "capture rest =
     (case dropWhile re_space rest of
        [] \<Rightarrow> (case filter (\<lambda>c. c \<noteq> line_feed) rest of [] \<Rightarrow> None | cs \<Rightarrow> Some [List.last cs])
      | after \<Rightarrow> Some (takeWhile (\<lambda>c. c \<noteq> line_feed) after))"

fun find_submatch :: "string \<Rightarrow> string \<Rightarrow> string option" where
  "find_submatch label [] = None"
| "find_submatch label (c # cs) =
     (case Option.bind (match_fold label (c # cs)) capture of
        Some m \<Rightarrow> Some m
      | None \<Rightarrow> find_submatch label cs)"

definition extract_field :: "string \<Rightarrow> string list \<Rightarrow> string" where
  "extract_field raw labels =
     (case first_some (\<lambda>label. find_submatch label raw) labels of None \<Rightarrow> [] | Some m \<Rightarrow> trim_space m)"

subsection \<open>Dates\<close>

definition date_layouts :: "string list" where
  "date_layouts = [''2006-01-02T15:04:05Z07:00'', ''2006-01-02T15:04:05Z'', ''2006-01-02T15:04:05'',
     ''2006-01-02 15:04:05'', ''2006-01-02'', ''02-Jan-2006'', ''January 02 2006'', ''Jan 02 2006'', ''02/01/2006'',
     ''2006.01.02'']"

definition strip_remark :: "string \<Rightarrow> string" where
  "strip_remark val = (case index_of val '' ('' of Some i \<Rightarrow> if 0 < i then take i val else val | None \<Rightarrow> val)"

definition parse_creation_date :: "whois_env \<Rightarrow> string \<Rightarrow> int option" where
  "parse_creation_date env raw =
     first_some (\<lambda>label.
       case find_submatch label raw of
         None \<Rightarrow> None
       | Some m \<Rightarrow> first_some (\<lambda>layout. we_parse_time env layout (strip_remark (trim_space m))) date_layouts) date_labels"

subsection \<open>Scores\<close>

definition no_whois :: whois_result where
  "no_whois = \<lparr>wr_found = False, wr_registered = 0, wr_age_days = 0, wr_registrar = [], wr_privacy = False,
     wr_score = 0, wr_reasons = []\<rparr>"

definition age_signals :: "int \<Rightarrow> (int \<times> string) list" where
  "age_signals days =
     (if days < 7 then [(25, ''whois: domain registered < 7 days ago'')]
      else if days < 30 then [(15, ''whois: domain registered < 30 days ago'')]
      else if days < 90 then [(5, ''whois: domain registered < 90 days ago'')]
      else [])"

definition parse_and_score :: "whois_env \<Rightarrow> string \<Rightarrow> whois_result" where
  "parse_and_score env raw =
     (case parse_creation_date env raw of
        None \<Rightarrow> no_whois
      | Some created \<Rightarrow>
          let days = whole_days (we_now env - created);
              registrar = extract_field raw registrar_labels;
              regLower = to_lower (registrar @ '' '' @ take 2000 raw);
              privacy = list_ex (contains regLower) privacy_keywords;
              signals = age_signals days @ (if privacy then [(5, ''whois: privacy guard enabled'')] else [])
          in \<lparr>wr_found = True, wr_registered = created, wr_age_days = days, wr_registrar = registrar,
              wr_privacy = privacy, wr_score = sum_list (map fst signals), wr_reasons = map snd signals\<rparr>)"

subsection \<open>Lookups\<close>

definition second_level_suffixes :: "string list" where
  "second_level_suffixes =
     [''com'', ''gov'', ''net'', ''edu'', ''org'', ''co'', ''ac'', ''biz'', ''info'', ''pro'', ''name'', ''me'']"

definition registered_domain :: "string \<Rightarrow> string" where
  "registered_domain domain0 =
     (let domain = to_lower (trim_suffix domain0 ''.'');
          parts = split_on CHR ''.'' domain; n = length parts in
      if n < 2 then []
      else if 3 \<le> n \<and> parts ! (n - 2) \<in> set second_level_suffixes then join_with ''.'' (drop (n - 3) parts)
      else join_with ''.'' (drop (n - 2) parts))"

definition tld_of :: "string \<Rightarrow> string" where
  "tld_of domain = List.last (split_on CHR ''.'' domain)"

text \<open>The reply of a server: its lines up to the end, or the first error.\<close>

definition query_whois :: "whois_env \<Rightarrow> string \<Rightarrow> string \<Rightarrow> string go_result" where
  "query_whois env server domain =
     (case we_query env server (domain @ [char_of (13 :: nat), line_feed]) of
        Inl e \<Rightarrow> Inl e
      | Inr (reply, e) \<Rightarrow>
          (case scan_lines reply of
             Inl e' \<Rightarrow> Inl e'
           | Inr lines \<Rightarrow>
               (case e of Some e' \<Rightarrow> Inl e' | None \<Rightarrow> Inr (concat (map (\<lambda>l. l @ [line_feed]) lines)))))"

definition whois_lookup :: "whois_env \<Rightarrow> string \<Rightarrow> whois_result" where
  "whois_lookup env domain =
     (let registered = registered_domain domain in
      if registered = [] then no_whois
      else (case map_of whois_servers (tld_of registered) of
          None \<Rightarrow> no_whois
        | Some server \<Rightarrow>
            (case query_whois env server registered of
               Inl _ \<Rightarrow> no_whois
             | Inr raw \<Rightarrow> parse_and_score env raw)))"

definition whois_signal :: "whois_env \<Rightarrow> string \<Rightarrow> int \<times> string list" where
  "whois_signal env domain = (wr_score (whois_lookup env domain), wr_reasons (whois_lookup env domain))"

subsection \<open>Facts\<close>

lemma parse_and_score_bounds: "0 \<le> wr_score (parse_and_score env raw) \<and> wr_score (parse_and_score env raw) \<le> 30"
  by (auto simp: parse_and_score_def age_signals_def no_whois_def Let_def split: option.split)

lemma whois_signal_bounds: "0 \<le> fst (whois_signal env domain) \<and> fst (whois_signal env domain) \<le> 30"
  using parse_and_score_bounds
  by (auto simp: whois_signal_def whois_lookup_def no_whois_def Let_def split: option.split sum.split)

text \<open>The registered domain is a parent of the name.\<close>

lemma registered_domain_parent:
  assumes "upper_free domain" "is_ascii domain" "\<not> has_suffix domain ''.''" "registered_domain domain \<noteq> []"
  shows "registered_domain domain \<in> set (parent_names domain)"
proof -
  let ?parts = "split_on CHR ''.'' domain"
  have d: "to_lower (trim_suffix domain ''.'') = domain"
    using assms(1-3) by (simp add: trim_suffix_def to_lower_id)
  let ?n = "length ?parts"
  let ?k = "if 3 \<le> ?n \<and> ?parts ! (?n - 2) \<in> set second_level_suffixes then ?n - 3 else ?n - 2"
  have "registered_domain domain = join_with ''.'' (drop ?k ?parts) \<and> ?k < ?n"
    using assms(4) unfolding registered_domain_def Let_def d by (auto split: if_splits)
  then have "\<exists>k < length ?parts. registered_domain domain = join_with ''.'' (drop k ?parts)" by blast
  then obtain k where "k < length ?parts" "registered_domain domain = join_with ''.'' (drop k ?parts)" by blast
  then show ?thesis
    unfolding parent_names_def name_suffixes_iff
    by (intro exI [of _ "take k ?parts"] exI [of _ "drop k ?parts"]) simp
qed

end
