(* ===== verification/Enrichment.thy ===== *)
theory Enrichment
  imports Agent_Tasks Whois
begin

text \<open>
  What the evidence of \<^verbatim>\<open>internal/tlsinspect\<close> and \<^verbatim>\<open>internal/whois\<close> can do to a decision, when the risk
  service and the agent use them: the scores they add are bounded, and the agent blocks no name on the age of
  its registration alone.
\<close>

text \<open>An environment whose signals come from the two inspections.\<close>

definition inspected :: "tls_env \<Rightarrow> whois_env \<Rightarrow> risk_env \<Rightarrow> bool" where
  "inspected te we env \<longleftrightarrow> rk_tls env = tls_signal te \<and> rk_whois env = whois_signal we"

lemma assess_malicious:
  assumes "audit_assess env s n = (Malicious, score, confidence, reasons)"
  shows "40 \<le> fst (rk_tls (ag_risk env) n) + fst (rk_whois (ag_risk env) n)"
proof (rule ccontr)
  assume "\<not> ?thesis"
  then have "interim_verdict (fst (rk_tls (ag_risk env) n) + fst (rk_whois (ag_risk env) n)) = Safe"
    by (simp add: interim_verdict_def)
  with assms show False by (simp add: audit_assess_def Let_def split: prod.splits)
qed

lemma bad_certificate:
  assumes "10 \<le> fst (tls_signal te n)"
  shows "\<exists>ip cert rest. inspect te n = (Some ip, score_result (te_now te) n cert) \<and> is_public_ip ip \<and>
    te_dial te ip n = Inr (cert # rest) \<and> 15 \<le> tr_score (score_result (te_now te) n cert)"
proof -
  obtain ip r where i: "inspect te n = (ip, r)" by fastforce
  have score: "10 \<le> tr_score r" using assms by (simp add: tls_signal_def i)
  have "\<exists>a cert rest. ip = Some a \<and> te_dial te a n = Inr (cert # rest) \<and> r = score_result (te_now te) n cert"
  proof (cases "te_lookup te n")
    case (Inl e)
    then show ?thesis using i score by (auto simp: inspect_def no_tls_def)
  next
    case (Inr ips)
    show ?thesis
    proof (cases "find is_public_ip ips")
      case None
      then show ?thesis using i score Inr by (auto simp: inspect_def no_tls_def split: if_splits)
    next
      case (Some a)
      have "inspect te n = (case te_dial te a n of Inl _ \<Rightarrow> (Some a, no_tls) | Inr [] \<Rightarrow> (Some a, no_tls\<lparr>tr_has_tls := True\<rparr>)
          | Inr (cert # _) \<Rightarrow> (Some a, score_result (te_now te) n cert))"
        using Inr Some by (auto simp: inspect_def)
      then show ?thesis using i score by (auto simp: no_tls_def split: sum.splits list.splits)
    qed
  qed
  then obtain a cert rest where a: "ip = Some a" "te_dial te a n = Inr (cert # rest)" "r = score_result (te_now te) n cert"
    by blast
  moreover have "is_public_ip a" using inspect_public i a(1) by blast
  moreover have "15 \<le> tr_score (score_result (te_now te) n cert)"
    using score unfolding a(3) by (simp add: score_result_def Let_def split: if_splits)
  ultimately show ?thesis using i by blast
qed

text \<open>C19. Blocking on evidence needs a bad certificate.  When the agent blocks a name by itself, it has seen a
  certificate of the name, from a public address that the name resolves to, and the certificate is expired,
  self-signed, a week old or made out to another name: the score of TLS lies between 15 and 75, that of WHOIS
  between 0 and 30, and together they reach 40, so the age of the registration and a privacy service never block,
  nor does an AI model without them.\<close>

theorem block_needs_bad_certificate:
  assumes "inspected te we (ag_risk env)" "audit_domain env cfg s n w = (w1, Inr ''blocked'')"
  shows "\<exists>ip cert rest. fst (inspect te n) = Some ip \<and> is_public_ip ip \<and> te_dial te ip n = Inr (cert # rest) \<and>
    (let tls = tr_score (score_result (te_now te) n cert); registration = wr_score (whois_lookup we n) in
     15 \<le> tls \<and> tls \<le> 75 \<and> 0 \<le> registration \<and> registration \<le> 30 \<and> 40 \<le> tls + registration \<and>
     (ct_not_after cert < te_now te \<or> ct_issuer cert = ct_subject cert \<or>
      whole_days (te_now te - ct_not_before cert) < 7 \<or> \<not> cert_matches_domain cert n))"
proof -
  obtain score confidence reasons where "audit_assess env s n = (Malicious, score, confidence, reasons)"
    using audit_blocked [OF assms(2)] by (auto split: prod.splits)
  from assess_malicious [OF this] have total: "40 \<le> fst (tls_signal te n) + fst (whois_signal we n)"
    using assms(1) by (simp add: inspected_def)
  have w: "0 \<le> fst (whois_signal we n)" "fst (whois_signal we n) \<le> 30" using whois_signal_bounds by auto
  with total have "10 \<le> fst (tls_signal te n)" by linarith
  then obtain ip cert rest where c: "inspect te n = (Some ip, score_result (te_now te) n cert)" "is_public_ip ip"
      "te_dial te ip n = Inr (cert # rest)" "15 \<le> tr_score (score_result (te_now te) n cert)"
    using bad_certificate by blast
  have "ct_not_after cert < te_now te \<or> ct_issuer cert = ct_subject cert \<or>
      whole_days (te_now te - ct_not_before cert) < 7 \<or> \<not> cert_matches_domain cert n"
    using c(4) by (simp add: score_result_def Let_def split: if_splits)
  moreover have "fst (tls_signal te n) = tr_score (score_result (te_now te) n cert)"
      "fst (whois_signal we n) = wr_score (whois_lookup we n)"
    by (simp_all add: tls_signal_def c(1) whois_signal_def)
  ultimately show ?thesis using c w total score_result_bounds by (auto simp: Let_def)
qed

definition toy_cert :: certificate where
  "toy_cert = \<lparr>ct_issuer = [], ct_subject = [], ct_issuer_name = [], ct_subject_name = [], ct_dns_names = [],
     ct_not_before = 0, ct_not_after = 0\<rparr>"

definition toy_tls :: tls_env where
  "toy_tls = \<lparr>te_now = 1, te_lookup = (\<lambda>_. Inr [IPv4 0x0A000001, IPv4 0x01010101]), te_dial = (\<lambda>_ _. Inr [toy_cert])\<rparr>"

definition toy_whois :: whois_env where
  "toy_whois = \<lparr>we_now = 1, we_query = (\<lambda>_ _. Inl ''down''), we_parse_time = (\<lambda>_ _. None)\<rparr>"

definition inspecting_env :: "toy agent_env" where
  "inspecting_env = toy_agent_env\<lparr>ag_risk := toy_risk_env\<lparr>rk_tls := tls_signal toy_tls, rk_whois := whois_signal toy_whois\<rparr>\<rparr>"

lemma inspecting_signals: "tls_signal toy_tls ''a'' = (75, [''tls: certificate expired'', ''tls: self-signed certificate'',
      ''tls: certificate name does not match domain''])" "whois_signal toy_whois ''a'' = (0, [])"
proof -
  have "inspect toy_tls ''a'' = (Some (IPv4 0x01010101), score_result 1 ''a'' toy_cert)"
    by (simp add: inspect_def toy_tls_def is_public_ip_def)
  moreover have "score_result 1 ''a'' toy_cert = \<lparr>tr_has_tls = True, tr_valid = False, tr_self_signed = True, tr_expired = True,
      tr_issuer = [], tr_subject = [], tr_san_match = False, tr_age_days = 0, tr_wildcard = False, tr_not_before = 0,
      tr_not_after = 0, tr_score = 75, tr_reasons = [''tls: certificate expired'', ''tls: self-signed certificate'',
      ''tls: certificate name does not match domain'']\<rparr>"
    by code_simp
  ultimately show "tls_signal toy_tls ''a'' = (75, [''tls: certificate expired'', ''tls: self-signed certificate'',
      ''tls: certificate name does not match domain''])" by (simp add: tls_signal_def)
  have "registered_domain ''a'' = []" by code_simp
  then show "whois_signal toy_whois ''a'' = (0, [])" by (simp add: whois_signal_def whois_lookup_def no_whois_def)
qed

theorem block_needs_bad_certificate_witness:
  "\<exists>ip. fst (inspect toy_tls ''a'') = Some ip \<and> is_public_ip ip \<and>
     snd (audit_domain inspecting_env toy_audit_config toy_service ''a'' ruled_world) = Inr ''blocked''"
proof -
  have "get_override no_faults ''a'' (w_store ruled_world) = Inr None"
    by (simp add: ruled_world_def get_override_def ask_db_def first_hit_None select_override_def no_faults_def
        fresh_db_def empty_db_def wrap_error_def)
  moreover have "audit_assess inspecting_env toy_service ''a'' = (Malicious, 75, 1, snd (tls_signal toy_tls ''a''))"
    by (simp add: audit_assess_def inspecting_env_def toy_agent_env_def toy_risk_env_def interim_verdict_def inspecting_signals)
  ultimately obtain w1 where b: "audit_domain inspecting_env toy_audit_config toy_service ''a'' ruled_world = (w1, Inr ''blocked'')"
    by (simp add: audit_domain_def inspecting_env_def toy_agent_env_def toy_risk_env_def toy_audit_config_def new_audit_config_def
        upsert_override_def run_db_def valid_action_def ruled_world_def no_faults_def Let_def)
  have "inspected toy_tls toy_whois (ag_risk inspecting_env)" by (simp add: inspected_def inspecting_env_def)
  from block_needs_bad_certificate [OF this b] b show ?thesis by auto
qed

end
