(* ===== verification/Feed_Commands.thy ===== *)
theory Feed_Commands
  imports Feed_Sync Config
begin

text \<open>
  The two commands around the synchronisation: \<^verbatim>\<open>cmd/feed-sync/main.go\<close>, which runs it once, and
  \<^verbatim>\<open>cmd/feed-syncd/main.go\<close>, which runs it again at every tick until it is told to stop.  The flags are a
  record, with the defaults taken from the environment; parsing a command line, the deadline of a run and the
  log lines are left out.  \<open>rate\<close> is \<^verbatim>\<open>config.Float64\<close>, \<open>encode\<close> the JSON encoder of a report.
\<close>

record feed_flags =
  ff_source :: string
  ff_redis_addr :: string
  ff_redis_password :: string
  ff_redis_db :: int
  ff_key :: string
  ff_dry_run :: bool
  ff_replace :: bool
  ff_once :: bool
  ff_interval :: int
  ff_timeout :: int

definition default_flags :: "os_env \<Rightarrow> feed_flags" where
  "default_flags os =
     \<lparr>ff_source = env_string os ''SAFE_ROAD_THREAT_FEED_SOURCE'' [],
      ff_redis_addr = env_string os ''SAFE_ROAD_REDIS_ADDR'' [],
      ff_redis_password = secret_string os ''SAFE_ROAD_REDIS_PASSWORD'' [],
      ff_redis_db = env_int os ''SAFE_ROAD_REDIS_DB'' 0,
      ff_key = env_string os ''SAFE_ROAD_THREAT_FEED_KEY'' default_threat_feed_key,
      ff_dry_run = False, ff_replace = True, ff_once = False,
      ff_interval = duration_seconds os ''SAFE_ROAD_FEED_SYNC_INTERVAL_SECONDS'' (24 * 3600 * second),
      ff_timeout = duration_millis os ''SAFE_ROAD_FEED_SYNC_TIMEOUT_MS'' (30 * second)\<rparr>"

definition command_options :: "os_env \<Rightarrow> (string \<Rightarrow> real \<Rightarrow> real) \<Rightarrow> feed_flags \<Rightarrow> bool \<Rightarrow> sync_options" where
  "command_options os rate fl dryRun =
     \<lparr>so_source = ff_source fl, so_file_root = feed_file_root os,
      so_max_bytes = env_int os ''SAFE_ROAD_FEED_MAX_BYTES'' default_max_feed_bytes,
      so_redis_addr = ff_redis_addr fl, so_redis_password = ff_redis_password fl, so_redis_db = ff_redis_db fl,
      so_key = ff_key fl, so_dry_run = dryRun, so_replace = ff_replace fl,
      so_drift_ratio = rate ''SAFE_ROAD_FEED_DRIFT_INVALID_RATIO'' (1 / 5),
      so_drift_min = env_int os ''SAFE_ROAD_FEED_DRIFT_MIN_INVALID'' 25,
      so_min_writes = env_int os ''SAFE_ROAD_FEED_CACHE_INVALIDATION_MIN_WRITES'' 1\<rparr>"

text \<open>The exit status of the command and what it prints; \<open>None\<close> when the synchronisation does not return.\<close>

datatype exit = Exit_Error err | Exit_Ok string

definition feed_sync_main ::
  "os_env \<Rightarrow> (string \<Rightarrow> real \<Rightarrow> real) \<Rightarrow> 'r sync_env \<Rightarrow> (sync_report \<Rightarrow> string go_result) \<Rightarrow> feed_flags \<Rightarrow> 'r \<Rightarrow>
     ('r \<times> exit) option" where
  "feed_sync_main os rate env encode fl s =
     (if trim_space (ff_source fl) = [] then Some (s, Exit_Error ''feed source is required'')
      else (case feed_sync env (command_options os rate fl (ff_dry_run fl)) s of
          None \<Rightarrow> None
        | Some (s', Inl e) \<Rightarrow> Some (s', Exit_Error e)
        | Some (s', Inr report) \<Rightarrow>
            Some (s', (case encode report of Inl e \<Rightarrow> Exit_Error e | Inr text \<Rightarrow> Exit_Ok text))))"

text \<open>One cycle of the daemon: an error is only logged.\<close>

definition run_sync ::
  "os_env \<Rightarrow> (string \<Rightarrow> real \<Rightarrow> real) \<Rightarrow> 'r sync_env \<Rightarrow> feed_flags \<Rightarrow> 'r \<Rightarrow> 'r option" where
  "run_sync os rate env fl s = map_option fst (feed_sync env (command_options os rate fl False) s)"

datatype daemon_event = Tick | Stop_Signal

text \<open>The events the loop receives in order, with the environment each run sees.  When both a stop and a
  tick are ready the choice is the runtime's, which is the order of the events here.\<close>

fun daemon_loop ::
  "os_env \<Rightarrow> (string \<Rightarrow> real \<Rightarrow> real) \<Rightarrow> feed_flags \<Rightarrow> (daemon_event \<times> 'r sync_env) list \<Rightarrow> 'r \<Rightarrow> 'r option" where
  "daemon_loop os rate fl [] s = Some s"
| "daemon_loop os rate fl ((Stop_Signal, env) # events) s = Some s"
| "daemon_loop os rate fl ((Tick, env) # events) s =
     (case run_sync os rate env fl s of None \<Rightarrow> None | Some s' \<Rightarrow> daemon_loop os rate fl events s')"

text \<open>The command of the daemon; a ticker panics for an interval that is not positive.\<close>

definition feed_syncd_main ::
  "os_env \<Rightarrow> (string \<Rightarrow> real \<Rightarrow> real) \<Rightarrow> 'r sync_env \<Rightarrow> feed_flags \<Rightarrow> (daemon_event \<times> 'r sync_env) list \<Rightarrow> 'r \<Rightarrow>
     ('r \<times> err option) option" where
  "feed_syncd_main os rate env fl events s =
     (if trim_space (ff_source fl) = [] then Some (s, Some ''feed source is required'')
      else (case run_sync os rate env fl s of
          None \<Rightarrow> None
        | Some s' \<Rightarrow>
            if ff_once fl then Some (s', None)
            else if ff_interval fl \<le> 0 then Some (s', Some ''non-positive interval for NewTicker'')
            else map_option (\<lambda>s''. (s'', None)) (daemon_loop os rate fl events s')))"

subsection \<open>Facts\<close>

text \<open>The interval is taken from the environment as it is: a zero lets the daemon panic after its first cycle.\<close>

lemma zero_interval_panics:
  assumes "getenv os ''SAFE_ROAD_FEED_SYNC_INTERVAL_SECONDS'' = ''0''" "trim_space src \<noteq> []"
    "run_sync os rate env ((default_flags os)\<lparr>ff_source := src\<rparr>) s = Some s'"
  shows "feed_syncd_main os rate env ((default_flags os)\<lparr>ff_source := src\<rparr>) events s =
    Some (s', Some ''non-positive interval for NewTicker'')"
proof -
  have "atoi ''0'' = Some 0" by code_simp
  then have "ff_interval (default_flags os) = 0"
    using assms(1) by (simp add: default_flags_def duration_seconds_def wrap64_def)
  moreover have "\<not> ff_once (default_flags os)" by (simp add: default_flags_def)
  ultimately show ?thesis using assms(2,3) by (simp add: feed_syncd_main_def)
qed

text \<open>A failed cycle does not end the daemon: with runs that return, the state after some ticks is that of
  so many synchronisations, whatever their results.\<close>

lemma daemon_ticks:
  assumes "\<And>env s. env \<in> set envs \<Longrightarrow> run_sync os rate env fl s \<noteq> None"
  shows "daemon_loop os rate fl (map (Pair Tick) envs) s =
     Some (fold (\<lambda>env s. the (run_sync os rate env fl s)) envs s)"
  using assms
proof (induction envs arbitrary: s)
  case (Cons env envs)
  obtain s' where "run_sync os rate env fl s = Some s'" using Cons.prems [of env s] by auto
  with Cons show ?case by simp
qed simp

lemma daemon_stops: "daemon_loop os rate fl (map (Pair Tick) envs @ (Stop_Signal, env) # events) s =
    daemon_loop os rate fl (map (Pair Tick) envs) s"
  by (induction envs arbitrary: s) (auto split: option.split)

end
