(* ===== verification/Serving.thy ===== *)
theory Serving
  imports Web
begin

text \<open>
  What both servers do around a handler: \<^verbatim>\<open>logRequests\<close> with its \<^verbatim>\<open>statusLoggingResponseWriter\<close>, \<^verbatim>\<open>writeJSON\<close> and
  \<^verbatim>\<open>writeError\<close> (\<^verbatim>\<open>cmd/core-api/main.go\<close>; \<^verbatim>\<open>cmd/dns-resolver/main.go\<close> declares the same text), and the lines of
  \<^verbatim>\<open>internal/logjson/logjson.go\<close>.  A handler is the list of its calls on the response writer and the value it
  panicked with, if any.  The writer of \<^verbatim>\<open>net/http\<close> underneath sends the status of the first call and ignores
  later ones; of a body it takes the bytes that the connection accepts.
\<close>

subsection \<open>Log lines\<close>

text \<open>The fields of a call are added after the three of the logger and can replace them.\<close>

definition log_payload :: "'v \<Rightarrow> 'v \<Rightarrow> 'v \<Rightarrow> (string \<rightharpoonup> 'v) \<Rightarrow> (string \<rightharpoonup> 'v)" where
  "log_payload ts level message extra = [''ts'' \<mapsto> ts, ''level'' \<mapsto> level, ''message'' \<mapsto> message] ++ extra"

text \<open>The standard output after a call; a payload that cannot be encoded is dropped.\<close>

definition log_write ::
  "((string \<rightharpoonup> string) \<Rightarrow> string go_result) \<Rightarrow> string \<Rightarrow> string \<Rightarrow> string \<Rightarrow> (string \<rightharpoonup> string) \<Rightarrow> string \<Rightarrow> string" where
  "log_write encode ts level message fs out =
     (case encode (log_payload ts level message fs) of
        Inl _ \<Rightarrow> out
      | Inr encoded \<Rightarrow> out @ encoded @ [char_of (10 :: nat)])"

definition log_info ::
  "((string \<rightharpoonup> string) \<Rightarrow> string go_result) \<Rightarrow> string \<Rightarrow> string \<Rightarrow> (string \<rightharpoonup> string) \<Rightarrow> string \<Rightarrow> string" where
  "log_info encode ts message fs out = log_write encode ts ''info'' message fs out"

definition log_warn ::
  "((string \<rightharpoonup> string) \<Rightarrow> string go_result) \<Rightarrow> string \<Rightarrow> string \<Rightarrow> (string \<rightharpoonup> string) \<Rightarrow> string \<Rightarrow> string" where
  "log_warn encode ts message fs out = log_write encode ts ''warn'' message fs out"

definition log_error ::
  "((string \<rightharpoonup> string) \<Rightarrow> string go_result) \<Rightarrow> string \<Rightarrow> string \<Rightarrow> (string \<rightharpoonup> string) \<Rightarrow> string \<Rightarrow> string" where
  "log_error encode ts message fs out = log_write encode ts ''error'' message fs out"

text \<open>With an encoder that writes no line feed, as \<^verbatim>\<open>json.Marshal\<close> does, a call is one line or none.\<close>

lemma log_one_line:
  assumes "\<And>p s. encode p = Inr s \<Longrightarrow> char_of (10 :: nat) \<notin> set s"
  shows "count_char (log_write encode ts level message fs out) (char_of (10 :: nat)) =
    count_char out (char_of (10 :: nat)) + (case encode (log_payload ts level message fs) of Inl _ \<Rightarrow> 0 | Inr _ \<Rightarrow> 1)"
proof (cases "encode (log_payload ts level message fs)")
  case (Inr s)
  then have "filter (\<lambda>c. c = char_of (10 :: nat)) s = []" using assms [OF Inr] by (auto simp: filter_empty_conv)
  then show ?thesis using Inr by (simp add: log_write_def count_char_def)
qed (simp add: log_write_def)

subsection \<open>Values in log lines\<close>

lemma runes_nonneg: "r \<in> set (runes s) \<Longrightarrow> 0 \<le> r"
proof (induction s rule: runes.induct)
  case (2 c cs)
  show ?case
  proof (cases "byte_of c < 128")
    case True
    with 2 show ?thesis by auto
  next
    case False
    obtain r' n where d: "decode_rune (c # cs) = (r', n)" by fastforce
    with decode_rune_nonascii [of c cs] False have "0 \<le> r'" by simp
    with 2(2) [OF False d [symmetric]] 2(3) False d show ?thesis by auto
  qed
qed simp

lemma byte_of_char: "0 \<le> n \<Longrightarrow> n < 256 \<Longrightarrow> byte_of (char_of n) = n"
  by (simp add: byte_of_def)

lemma encode_rune_high: "128 \<le> r \<Longrightarrow> c \<in> set (encode_rune r) \<Longrightarrow> 128 \<le> byte_of c"
  by (auto simp: encode_rune_def rune_error_def Let_def byte_of_char split: if_splits)

text \<open>No control character of a request gets into a log line.\<close>

lemma sanitize_log_clean:
  assumes "c \<in> set (sanitize_log s)"
  shows "32 \<le> byte_of c \<and> byte_of c \<noteq> 127"
proof -
  obtain r where r: "r \<in> set (runes s)" "\<not> (r < 32 \<or> r = 127)" "c \<in> set (encode_rune r)"
    using assms by (auto simp: sanitize_log_def encode_runes_def)
  show ?thesis
  proof (cases "r < 128")
    case True
    then show ?thesis using r runes_nonneg [OF r(1)] by (simp add: encode_rune_ascii byte_of_char)
  next
    case False
    then show ?thesis using encode_rune_high [OF _ r(3)] by simp
  qed
qed

subsection \<open>Responses\<close>

text \<open>A call of the handler on its response writer; a body comes with the number of bytes accepted.\<close>

datatype response_action = Write_Header int | Write_Body string nat

record http_response =
  hr_status :: "int option"
  hr_body :: string

record response_recorder =
  rc_status :: int
  rc_bytes :: int
  rc_response :: http_response

definition send_header :: "int \<Rightarrow> http_response \<Rightarrow> http_response" where
  "send_header code r = (if hr_status r = None then r\<lparr>hr_status := Some code\<rparr> else r)"

definition send_body :: "string \<Rightarrow> nat \<Rightarrow> http_response \<Rightarrow> http_response" where
  "send_body p n r = (let r' = send_header 200 r in r'\<lparr>hr_body := hr_body r' @ take n p\<rparr>)"

text \<open>What the client gets: a handler that sends nothing is answered with 200.\<close>

definition sent_status :: "http_response \<Rightarrow> int" where
  "sent_status r = (case hr_status r of None \<Rightarrow> 200 | Some code \<Rightarrow> code)"

fun record_action :: "response_action \<Rightarrow> response_recorder \<Rightarrow> response_recorder" where
  "record_action (Write_Header code) rc =
     rc\<lparr>rc_status := code, rc_response := send_header code (rc_response rc)\<rparr>"
| "record_action (Write_Body p n) rc =
     (let status = (if rc_status rc = 0 then 200 else rc_status rc) in
      rc\<lparr>rc_status := status, rc_bytes := rc_bytes rc + int (min n (length p)),
         rc_response := send_body p n (rc_response rc)\<rparr>)"

definition new_recorder :: response_recorder where
  "new_recorder = \<lparr>rc_status = 200, rc_bytes = 0, rc_response = \<lparr>hr_status = None, hr_body = []\<rparr>\<rparr>"

definition record_all :: "response_action list \<Rightarrow> response_recorder" where
  "record_all acts = fold record_action acts new_recorder"

definition write_json :: "('a \<Rightarrow> string go_result) \<Rightarrow> int \<Rightarrow> 'a \<Rightarrow> nat \<Rightarrow> response_action list" where
  "write_json encode status payload n =
     Write_Header status #
     (case encode payload of Inl _ \<Rightarrow> [] | Inr text \<Rightarrow> [Write_Body (text @ [char_of (10 :: nat)]) n])"

definition write_error ::
  "((string \<rightharpoonup> string) \<Rightarrow> string go_result) \<Rightarrow> int \<Rightarrow> string \<Rightarrow> nat \<Rightarrow> response_action list" where
  "write_error encode status message n = write_json encode status [''error'' \<mapsto> message] n"

definition write_dns_message :: "string \<Rightarrow> nat \<Rightarrow> response_action list" where
  "write_dns_message wire n = [Write_Header 200, Write_Body wire n]"

text \<open>A handler under \<^verbatim>\<open>Recovery\<close>: its calls, whether a panic was observed, and the metrics after.\<close>

definition recovered_run ::
  "string \<Rightarrow> string \<Rightarrow> nat \<Rightarrow> int \<Rightarrow> http_request \<Rightarrow> response_action list \<times> string option \<Rightarrow> registry option \<Rightarrow>
     response_action list \<times> bool \<times> registry option" where
  "recovered_run before after n duration r run reg =
     (case run of (acts, panic) \<Rightarrow>
        (case recovery before after (\<lambda>b. int (min n (length b))) (hq_header r ''Accept'') (hq_method r) (hq_path r) duration
                (case panic of None \<Rightarrow> Answered 0 acts | Some msg \<Rightarrow> Panicked msg) reg of
           (Inl (_, done), observed, reg') \<Rightarrow> (done, observed, reg')
         | (Inr body, observed, reg') \<Rightarrow> (acts @ [Write_Header 500, Write_Body body n], observed, reg')))"

text \<open>The response, the metrics and the fields of the log line of a request; \<open>rid\<close> is its identifier.\<close>

definition log_requests ::
  "string \<Rightarrow> string \<Rightarrow> int \<Rightarrow> http_request \<Rightarrow> response_action list \<times> bool \<times> registry option \<Rightarrow>
     response_recorder \<times> registry option \<times> (string \<rightharpoonup> string)" where
  "log_requests service rid duration r run =
     (case run of (acts, observed, reg) \<Rightarrow>
        let rc = record_all acts; client = extract_client_info r in
        (rc, observe_once (hq_method r) (hq_path r) (rc_status rc) (rc_bytes rc) duration observed reg,
         [''service'' \<mapsto> service, ''request_id'' \<mapsto> rid, ''method'' \<mapsto> sanitize_log (hq_method r),
          ''path'' \<mapsto> sanitize_log (hq_path r), ''status'' \<mapsto> itoa (rc_status rc), ''bytes'' \<mapsto> itoa (rc_bytes rc),
          ''duration_ms'' \<mapsto> itoa (duration div 1000000), ''client_ip'' \<mapsto> ci_ip client, ''client_id'' \<mapsto> ci_id client]))"

subsection \<open>What is recorded is what was sent\<close>

lemma record_bytes: "rc_bytes (fold record_action acts rc) - rc_bytes rc =
    int (length (hr_body (rc_response (fold record_action acts rc)))) - int (length (hr_body (rc_response rc)))"
proof (induction acts arbitrary: rc)
  case (Cons a acts)
  have "rc_bytes (record_action a rc) - rc_bytes rc =
      int (length (hr_body (rc_response (record_action a rc)))) - int (length (hr_body (rc_response rc)))"
    by (cases a) (simp_all add: send_header_def send_body_def Let_def min.commute)
  then show ?case using Cons.IH [of "record_action a rc"] by simp
qed simp

lemma recorded_bytes: "rc_bytes (record_all acts) = int (length (hr_body (rc_response (record_all acts))))"
  using record_bytes [of acts new_recorder] by (simp add: record_all_def new_recorder_def)

text \<open>A handler that sends at most one header, and that first, as \<^verbatim>\<open>writeJSON\<close> does.\<close>

fun is_body :: "response_action \<Rightarrow> bool" where
  "is_body (Write_Header _) = False"
| "is_body (Write_Body _ _) = True"

fun first_status :: "response_action \<Rightarrow> int" where
  "first_status (Write_Header code) = code"
| "first_status (Write_Body _ _) = 200"

definition header_first :: "response_action list \<Rightarrow> bool" where
  "header_first acts = (case acts of [] \<Rightarrow> True | a # rest \<Rightarrow> first_status a \<noteq> 0 \<and> list_all is_body rest)"

lemma write_json_header_first: "status \<noteq> 0 \<Longrightarrow> header_first (write_json encode status payload n)"
  by (simp add: header_first_def write_json_def split: sum.split)

lemma fold_bodies:
  "list_all is_body acts \<Longrightarrow> rc_status rc \<noteq> 0 \<Longrightarrow> hr_status (rc_response rc) = Some code \<Longrightarrow>
   rc_status (fold record_action acts rc) = rc_status rc \<and> hr_status (rc_response (fold record_action acts rc)) = Some code"
proof (induction acts arbitrary: rc)
  case (Cons a acts)
  then obtain p n where a: "a = Write_Body p n" by (cases a) auto
  have "rc_status (record_action a rc) = rc_status rc" "hr_status (rc_response (record_action a rc)) = Some code"
    using Cons.prems by (simp_all add: a send_body_def send_header_def Let_def)
  with Cons show ?case by simp
qed simp

text \<open>The first call decides what is sent.\<close>

lemma fold_sent: "hr_status (rc_response rc) = Some code \<Longrightarrow> hr_status (rc_response (fold record_action acts rc)) = Some code"
proof (induction acts arbitrary: rc)
  case (Cons a acts)
  have "hr_status (rc_response (record_action a rc)) = Some code"
    using Cons.prems by (cases a) (simp_all add: send_body_def send_header_def Let_def)
  with Cons show ?case by simp
qed simp

lemma sent_first: "sent_status (rc_response (record_all (a # acts))) = first_status a"
proof -
  have "hr_status (rc_response (record_action a new_recorder)) = Some (first_status a)"
    by (cases a) (simp_all add: new_recorder_def send_body_def send_header_def Let_def)
  from fold_sent [OF this, of acts] show ?thesis by (simp add: record_all_def sent_status_def)
qed

lemma recorded_status:
  assumes "header_first acts"
  shows "rc_status (record_all acts) = sent_status (rc_response (record_all acts))"
proof (cases acts)
  case Nil
  then show ?thesis by (simp add: record_all_def new_recorder_def sent_status_def)
next
  case (Cons a rest)
  have "rc_status (record_action a new_recorder) = first_status a"
    "hr_status (rc_response (record_action a new_recorder)) = Some (first_status a)"
    by (cases a; simp add: new_recorder_def send_body_def send_header_def Let_def)+
  with fold_bodies [of rest "record_action a new_recorder" "first_status a"] assms Cons
  show ?thesis by (simp add: record_all_def header_first_def sent_status_def)
qed

lemma panic_status: "rc_status (record_all (acts @ [Write_Header 500, Write_Body b n])) = 500"
  by (simp add: record_all_def)

text \<open>C37. Every request is logged and counted once.  For a handler that sends its header first, as those that use \<^verbatim>\<open>writeJSON\<close> do,
  the bytes recorded are the bytes sent and the metrics count the request exactly once, under the status that the
  log line names.  That is the status the client got, unless the handler panicked: then it is 500, although the
  client of a handler that had begun to answer got the status it had begun with.\<close>

theorem request_logged_once:
  assumes "header_first acts"
    "log_requests service rid duration' r (recovered_run before after n duration r (acts, panic) (Some r0)) = (rc, reg, fs)"
  shows "rc_bytes rc = int (length (hr_body (rc_response rc))) \<and>
    rc_status rc = (if panic = None then sent_status (rc_response rc) else 500) \<and>
    sent_status (rc_response rc) = (case acts of [] \<Rightarrow> if panic = None then 200 else 500 | a # _ \<Rightarrow> first_status a) \<and>
    fs ''status'' = Some (itoa (rc_status rc)) \<and>
    count_of reg key = count_of (Some r0) key +
      (if key = metrics_key (hq_method r) (hq_path r) (rc_status rc) then 1 else 0)"
proof (cases panic)
  case None
  then have "rc = record_all acts" "fs ''status'' = Some (itoa (rc_status rc))"
      "reg = observe (hq_method r) (hq_path r) (rc_status rc) (rc_bytes rc) duration' (Some r0)"
    using assms(2) by (auto simp: log_requests_def recovered_run_def recovery_def observe_once_def Let_def)
  then show ?thesis using None recorded_status [OF assms(1)] recorded_bytes sent_first
    by (auto simp: count_observe record_all_def new_recorder_def sent_status_def split: list.split)
next
  case (Some msg)
  then obtain b bytes where "rc = record_all (acts @ [Write_Header 500, Write_Body b n])"
      "fs ''status'' = Some (itoa (rc_status rc))"
      "reg = observe (hq_method r) (hq_path r) 500 bytes duration (Some r0)"
    using assms(2) by (auto simp: log_requests_def recovered_run_def recovery_def observe_once_def Let_def)
  then show ?thesis using Some recorded_bytes sent_first [of "Write_Header 500"] sent_first
    by (auto simp: count_observe panic_status split: list.split)
qed

definition late_panic :: "response_action list \<times> string option" where
  "late_panic = ([Write_Header 200, Write_Body ''ok'' 2], Some ''boom'')"

definition plain_request :: http_request where
  "plain_request = \<lparr>hq_method = ''GET'', hq_path = ''/'', hq_query = [], hq_header = (\<lambda>_. []), hq_host = [], hq_remote = ''a:1'',
     hq_tls = False, hq_cookies = [], hq_is_form = False, hq_body = [], hq_body_error = None\<rparr>"

theorem request_logged_once_witness:
  "\<exists>rc reg fs. log_requests ''core-api'' ''x'' 0 plain_request
      (recovered_run [] [] 99 0 plain_request late_panic (new_registry 0)) = (rc, reg, fs) \<and>
    rc_status rc = 500 \<and> sent_status (rc_response rc) = 200"
proof -
  obtain rc reg fs where l: "log_requests ''core-api'' ''x'' 0 plain_request
      (recovered_run [] [] 99 0 plain_request ([Write_Header 200, Write_Body ''ok'' 2], Some ''boom'')
        (Some \<lparr>rg_started = 0, rg_requests = Map.empty, rg_counters = Map.empty\<rparr>)) = (rc, reg, fs)"
    by (metis prod_cases3)
  have "header_first [Write_Header 200, Write_Body ''ok'' 2]" by (simp add: header_first_def)
  from request_logged_once [OF this l] l show ?thesis by (auto simp: late_panic_def new_registry_def)
qed

end
