(* ===== verification/Dns_Server.thy ===== *)
theory Dns_Server
  imports Dns_Resolver Serving Tls_Inspect
begin

text \<open>
  The server of \<^verbatim>\<open>cmd/dns-resolver/main.go\<close> around the handlers: its routes behind limiter, recovery and metrics,
  its start, the certificate of DNS over TLS, and its end.  Loading a key pair, making keys and certificates
  are parameters; a certificate is what the parameters give.
\<close>

subsection \<open>Routes\<close>

datatype dns_reply =
    Doh_Answer doh_reply
  | Policy_Answer policy_reply
  | Status_Answer status_reply
  | Moved_Answer string
  | Limited_Answer int

fun dns_reply_status :: "dns_reply \<Rightarrow> int" where
  "dns_reply_status (Doh_Answer (Doh_Error status _)) = status"
| "dns_reply_status (Policy_Answer (Policy_Error status _)) = status"
| "dns_reply_status (Status_Answer Not_Found) = 404"
| "dns_reply_status (Status_Answer Method_Not_Allowed) = 405"
| "dns_reply_status (Moved_Answer _) = 307"
| "dns_reply_status (Limited_Answer _) = 429"
| "dns_reply_status _ = 200"

record 'r resolver_state =
  rs_dns :: "'r dns_state"
  rs_tiers :: "tiered option"

text \<open>The answer of a route, and whether a packet went to the upstream resolver.\<close>

definition dns_mux ::
  "(int \<Rightarrow> string) \<Rightarrow> 'r dns_env \<Rightarrow> 'r dns_app \<Rightarrow> http_request \<Rightarrow> 'r dns_state \<Rightarrow> 'r dns_state \<times> dns_reply \<times> bool" where
  "dns_mux format env a r st =
     (let p = hq_path r in
      if hq_method r \<noteq> ''CONNECT'' \<and> mux_path p \<noteq> p then (st, Moved_Answer (mux_path p), False)
      else if p = ''/healthz'' then (st, Status_Answer (health_handler format env), False)
      else if p = ''/metrics'' then (st, Status_Answer (metrics_handler format env r st), False)
      else if p = ''/v1/policy'' then (case policy_handler env a r st of (st', reply) \<Rightarrow> (st', Policy_Answer reply, False))
      else if p = ''/dns-query'' \<or> has_prefix p ''/dns-query/'' then
        (case doh_handler env a r st of (st', reply, forwarded) \<Rightarrow> (st', Doh_Answer reply, forwarded))
      else (st, Status_Answer (status_handler format env a r st), False))"

text \<open>A request through the chain: the limiter, the routes, the metrics.  \<open>size_of\<close> is the number of bytes of
  an answer and \<open>duration\<close> how long it took.\<close>

definition dns_serve ::
  "(int \<Rightarrow> string) \<Rightarrow> 'r dns_env \<Rightarrow> 'r dns_app \<Rightarrow> (dns_reply \<Rightarrow> int) \<Rightarrow> int \<Rightarrow> http_request \<Rightarrow> 'r resolver_state \<Rightarrow>
     'r resolver_state \<times> dns_reply \<times> bool" where
  "dns_serve format env a size_of duration r st =
     (case (case rs_tiers st of
              None \<Rightarrow> (None, dns_mux format env a r (rs_dns st))
            | Some tiers \<Rightarrow>
                (case wrap_request (de_now env) (limiter_view r) tiers of
                   (tiers', Passed) \<Rightarrow> (Some tiers', dns_mux format env a r (rs_dns st))
                 | (tiers', Too_Many retry) \<Rightarrow> (Some tiers', rs_dns st, Limited_Answer retry, False))) of
        (tiers', st1, answer, forwarded) \<Rightarrow>
          (\<lparr>rs_dns = st1\<lparr>ds_metrics := observe_once (hq_method r) (hq_path r) (dns_reply_status answer) (size_of answer)
               duration False (ds_metrics st1)\<rparr>, rs_tiers = tiers'\<rparr>, answer, forwarded))"

subsection \<open>Start\<close>

definition resolver_start ::
  "os_env \<Rightarrow> (string \<Rightarrow> real \<Rightarrow> real) \<Rightarrow> int \<Rightarrow> 'r world \<Rightarrow> 'r resolver_state" where
  "resolver_start os rate now w =
     (case resolver_limiters os rate of
        (tiers, dot) \<Rightarrow> \<lparr>rs_dns = \<lparr>ds_world = w, ds_metrics = new_registry now, ds_limiter = dot\<rparr>, rs_tiers = tiers\<rparr>)"

text \<open>The template of the certificate that is made when none is configured.\<close>

record cert_template =
  cm_serial :: int
  cm_organization :: "string list"
  cm_common_name :: string
  cm_dns_names :: "string list"
  cm_not_before :: int
  cm_not_after :: int
  cm_key_usage :: "string list"
  cm_server_auth :: bool
  cm_basic_constraints :: bool

definition self_signed_template :: "int \<Rightarrow> cert_template" where
  "self_signed_template now =
     \<lparr>cm_serial = 1, cm_organization = [''Safe Road Security''], cm_common_name = ''saferoad.local'', cm_dns_names = [],
      cm_not_before = now, cm_not_after = now + 365 * 24 * 3600 * second, 
      cm_key_usage = [''key encipherment'', ''digital signature''], cm_server_auth = True, cm_basic_constraints = True\<rparr>"

text \<open>\<open>create\<close> is \<^verbatim>\<open>x509.CreateCertificate\<close> with the template as its own issuer; \<open>key_pair\<close> goes through the PEM
  form of certificate and key.\<close>

definition generate_self_signed_cert ::
  "'k go_result \<Rightarrow> (cert_template \<Rightarrow> 'k \<Rightarrow> string go_result) \<Rightarrow> (string \<Rightarrow> 'k \<Rightarrow> 'c go_result) \<Rightarrow> int \<Rightarrow> 'c go_result" where
  "generate_self_signed_cert key create key_pair now =
     (case key of
        Inl e \<Rightarrow> Inl e
      | Inr priv \<Rightarrow>
          (case create (self_signed_template now) priv of
             Inl e \<Rightarrow> Inl e
           | Inr der \<Rightarrow> key_pair der priv))"

text \<open>The address and the certificate of DNS over TLS, \<^term>\<open>None\<close> when it is switched off; an error ends the process.\<close>

definition dot_setup ::
  "os_env \<Rightarrow> (string \<Rightarrow> string \<Rightarrow> 'c go_result) \<Rightarrow> 'c go_result \<Rightarrow> (string \<times> 'c) option go_result" where
  "dot_setup os load_pair self_signed =
     (if \<not> env_bool os ''SAFE_ROAD_DNS_DOT_ENABLED'' True then Inr None
      else
        let addr = env_string os ''SAFE_ROAD_DNS_DOT_ADDR'' '':8533'';
            certFile = env_string os ''SAFE_ROAD_DNS_DOT_CERT_FILE'' [];
            keyFile = env_string os ''SAFE_ROAD_DNS_DOT_KEY_FILE'' [] in
        (case (if certFile \<noteq> [] \<or> keyFile \<noteq> [] then load_pair certFile keyFile else self_signed) of
           Inl e \<Rightarrow> Inl e
         | Inr cert \<Rightarrow> Inr (Some (addr, cert))))"

subsection \<open>What reaches the upstream resolver\<close>

lemma doh_forwarded:
  assumes "doh_handler env a r st = (st', reply, True)"
  shows "\<exists>wire query. read_dns_message r = Inr wire \<and> dl_unpack (de_lib env) wire = Inr query \<and> dm_questions query \<noteq> [] \<and>
    po_policy (snd (decide_policy (de_risk env) (da_risk a) (question_domain query) (resolver_client_info r) (ds_world st))) \<noteq>
      ''block'' \<and>
    reply = (case forward_doh env a wire of
        Inr response \<Rightarrow> Doh_Message response
      | Inl _ \<Rightarrow> (case servfail_response (de_lib env) query of
            Inl _ \<Rightarrow> Doh_Error 502 ''upstream DoH failed''
          | Inr servfail \<Rightarrow> Doh_Message servfail))"
  using assms by (auto simp: doh_handler_def Let_def split: sum.splits if_splits prod.splits)

lemma mux_forwarded:
  assumes "dns_mux format env a r st = (st', answer, True)"
  shows "(hq_path r = ''/dns-query'' \<or> has_prefix (hq_path r) ''/dns-query/'') \<and>
    (\<exists>reply. answer = Doh_Answer reply \<and> doh_handler env a r st = (st', reply, True))"
  using assms by (auto simp: dns_mux_def Let_def split: if_splits prod.splits)

text \<open>C9. Nothing is sent upstream past the policy.  Whatever request the server handles, a packet goes to the upstream
  resolver only if the path is that of DNS over HTTPS, the limiter let the request pass, the packet has a question
  and the policy of the client for the name of its first question is not to block it; the answer is then the reply of the
  upstream resolver, or a server failure when there is none.\<close>

theorem upstream_only_after_policy:
  assumes "dns_serve format env a size_of duration r st = (st', answer, True)"
  shows "(hq_path r = ''/dns-query'' \<or> has_prefix (hq_path r) ''/dns-query/'') \<and>
    (case rs_tiers st of None \<Rightarrow> True | Some tiers \<Rightarrow> snd (wrap_request (de_now env) (limiter_view r) tiers) = Passed) \<and>
    (\<exists>wire query. read_dns_message r = Inr wire \<and> dl_unpack (de_lib env) wire = Inr query \<and> dm_questions query \<noteq> [] \<and>
      po_policy (snd (decide_policy (de_risk env) (da_risk a) (question_domain query) (resolver_client_info r)
        (ds_world (rs_dns st)))) \<noteq> ''block'' \<and>
      answer = Doh_Answer (case forward_doh env a wire of
          Inr response \<Rightarrow> Doh_Message response
        | Inl _ \<Rightarrow> (case servfail_response (de_lib env) query of
              Inl _ \<Rightarrow> Doh_Error 502 ''upstream DoH failed''
            | Inr servfail \<Rightarrow> Doh_Message servfail)))"
proof -
  obtain st1 where m: "dns_mux format env a r (rs_dns st) = (st1, answer, True)"
      "case rs_tiers st of None \<Rightarrow> True | Some tiers \<Rightarrow> snd (wrap_request (de_now env) (limiter_view r) tiers) = Passed"
    using assms by (auto simp: dns_serve_def split: option.splits prod.splits http_outcome.splits)
  from mux_forwarded [OF m(1)] obtain reply where
    p: "hq_path r = ''/dns-query'' \<or> has_prefix (hq_path r) ''/dns-query/''" and
    d: "answer = Doh_Answer reply" "doh_handler env a r (rs_dns st) = (st1, reply, True)" by blast
  show ?thesis using doh_forwarded [OF d(2)] m(2) p unfolding d(1) by blast
qed

theorem upstream_only_after_policy_witness:
  "\<exists>st. snd (snd (dns_serve (\<lambda>_. []) toy_dns_env toy_dns_app (\<lambda>_. 0) 0 toy_dns_request st)) \<and>
     po_policy (snd (decide_policy toy_risk_env toy_service ''a'' (resolver_client_info toy_dns_request)
       (ds_world (rs_dns st)))) \<noteq> ''block''"
proof -
  obtain w1 where w1: "service_upsert_override toy_risk_env ''a.'' ''allow'' [] ruled_world = (w1, Inr ())"
    by (simp add: service_upsert_override_def normalize_a ruled_world_def enabled_def upsert_override_def
        run_db_def toy_risk_env_def no_faults_def valid_action_def)
  let ?st = "\<lparr>rs_dns = \<lparr>ds_world = w1, ds_metrics = None, ds_limiter = None\<rparr>, rs_tiers = None\<rparr>"
  have q: "question_domain toy_query = ''a''"
    by (simp add: question_domain_def toy_query_def trim_suffix_def has_suffix_def)
  have "normal_name ''a''"
    by (simp add: normal_name_def upper_free_def byte_of_def has_suffix_def domain_rune_def)
  moreover have "rk_io toy_risk_env = no_faults" "w_store ruled_world = Some (fresh_db [] 30 True)"
      "db_group_overrides (fresh_db [] 30 True) = []"
    by (simp_all add: toy_risk_env_def ruled_world_def fresh_db_def empty_db_def)
  ultimately have p: "po_policy (snd (decide_policy toy_risk_env toy_service ''a'' client w1)) = ''allow''" for client
    using admin_rule_lemma [OF _ _ _ _ _ _ w1 prod.collapse [symmetric]] normalize_a by simp
  have "read_dns_message toy_dns_request = Inr ''q''"
    by (simp add: read_dns_message_def toy_dns_request_def read_body_def limited_body_def)
  then have "snd (snd (doh_handler toy_dns_env toy_dns_app toy_dns_request (rs_dns ?st)))"
    using p [of "resolver_client_info toy_dns_request"] q
    by (simp add: doh_handler_def toy_dns_env_def toy_dns_app_def toy_query_def Let_def split_beta forward_doh_def)
  moreover have "mux_path ''/dns-query'' = ''/dns-query''" by code_simp
  ultimately have "snd (snd (dns_serve (\<lambda>_. []) toy_dns_env toy_dns_app (\<lambda>_. 0) 0 toy_dns_request ?st))"
    by (simp add: dns_serve_def dns_mux_def toy_dns_request_def Let_def split_beta)
  then obtain st' answer where s: "dns_serve (\<lambda>_. []) toy_dns_env toy_dns_app (\<lambda>_. 0) 0 toy_dns_request ?st = (st', answer, True)"
    by (metis prod.collapse)
  from upstream_only_after_policy [OF s] show ?thesis
    using s p by (intro exI [of _ ?st]) (auto simp: toy_dns_env_def toy_dns_app_def toy_query_def question_domain_def
        trim_suffix_def has_suffix_def)
qed

subsection \<open>The generated certificate\<close>

text \<open>What a handshake shows of a certificate whose template is its own issuer; \<open>name\<close> prints a subject.\<close>

definition shown_certificate :: "(cert_template \<Rightarrow> string) \<Rightarrow> cert_template \<Rightarrow> certificate" where
  "shown_certificate name t =
     \<lparr>ct_issuer = name t, ct_subject = name t, ct_issuer_name = cm_common_name t, ct_subject_name = cm_common_name t,
      ct_dns_names = cm_dns_names t, ct_not_before = cm_not_before t, ct_not_after = cm_not_after t\<rparr>"

text \<open>The generated certificate would not pass the inspection of the risk service: for every name but
  \<^verbatim>\<open>saferoad.local\<close> it counts as self-signed and made out to another name.\<close>

lemma generated_certificate_flagged:
  assumes "now \<le> t" "t \<le> now + 365 * 24 * 3600 * second" "to_lower (trim_suffix domain ''.'') \<noteq> ''saferoad.local''"
  shows "let r = score_result t domain (shown_certificate name (self_signed_template now)) in
    tr_valid r \<and> tr_self_signed r \<and> \<not> tr_san_match r \<and> 55 \<le> tr_score r"
proof -
  have "to_lower ''saferoad.local'' = ''saferoad.local''" by code_simp
  moreover have "\<not> match_hostname ''saferoad.local'' (to_lower (trim_suffix domain ''.''))"
    using assms(3) by (auto simp: match_hostname_def has_prefix_def)
  ultimately show ?thesis using assms(1,2)
    by (simp add: score_result_def shown_certificate_def self_signed_template_def cert_matches_domain_def Let_def)
qed


end
