(* ===== verification/Lifecycle.thy ===== *)
theory Lifecycle
  imports Dns_Server
begin

text \<open>
  How the parts end: \<^verbatim>\<open>RunHTTPServer\<close> of \<^verbatim>\<open>internal/serve/http.go\<close>, the ends of the \<^verbatim>\<open>main\<close> functions of both servers with
  their deferred calls, \<^verbatim>\<open>Close\<close> of the risk service and of a file, and the goroutines that clean limiters and the
  database up until they are told to stop.  What a \<^verbatim>\<open>select\<close> receives is an argument; \<^verbatim>\<open>os.Exit\<close> runs no deferred call.
\<close>

subsection \<open>Servers\<close>

datatype serve_event = Signalled string | Listen_Failed err | Server_Closed

text \<open>\<open>shutdown\<close> is the result of \<^verbatim>\<open>server.Shutdown\<close>.\<close>

fun run_http_server :: "err option \<Rightarrow> serve_event \<Rightarrow> err option" where
  "run_http_server shutdown (Signalled _) = shutdown"
| "run_http_server shutdown (Listen_Failed e) = Some e"
| "run_http_server shutdown Server_Closed = None"

datatype end_step = Http_Shutdown | Dot_Shutdown | Stop_Agent | Close_Limiter string | Close_Service

text \<open>The deferred calls of the Core API, the last one first: \<open>limited\<close> and \<open>agent\<close> tell whether there are limiters
  and an engine.\<close>

definition core_deferred :: "bool \<Rightarrow> bool \<Rightarrow> end_step list" where
  "core_deferred limited agent =
     (if agent then [Stop_Agent] else []) @
     (if limited then map Close_Limiter [''default'', ''telemetry'', ''override'', ''analyze''] else []) @
     [Close_Service]"

text \<open>The exit status and what was done before it.\<close>

definition core_main_end :: "bool \<Rightarrow> bool \<Rightarrow> err option \<Rightarrow> serve_event \<Rightarrow> int \<times> end_step list" where
  "core_main_end limited agent shutdown ev =
     (let served = (case ev of Signalled _ \<Rightarrow> [Http_Shutdown] | _ \<Rightarrow> []) in
      case run_http_server shutdown ev of
        Some _ \<Rightarrow> (1, served)
      | None \<Rightarrow> (0, served @ core_deferred limited agent))"

text \<open>What the DNS resolver waits for: a signal, or one of the two servers to return.  A server puts its error on the
  channel; \<open>was_closed\<close> tells whether the error of DNS over TLS is \<^verbatim>\<open>net.ErrClosed\<close>.\<close>

datatype dns_event = Dns_Signalled string | Doh_Returned "err option" | Dot_Returned "err option" bool

fun dns_end_error :: "dns_event \<Rightarrow> err option" where
  "dns_end_error (Dns_Signalled _) = None"
| "dns_end_error (Doh_Returned e) = map_option (\<lambda>m. ''DoH server error: '' @ m) e"
| "dns_end_error (Dot_Returned e was_closed) =
     (if was_closed then None else map_option (\<lambda>m. ''DoT server error: '' @ m) e)"

text \<open>The exit status, the error that is logged, and what is done in order.\<close>

definition dns_main_end :: "bool \<Rightarrow> bool \<Rightarrow> dns_event \<Rightarrow> int \<times> err option \<times> end_step list" where
  "dns_main_end limited dot ev =
     (0, dns_end_error ev,
      [Http_Shutdown] @ (if dot then [Dot_Shutdown] else []) @
      (if limited then map Close_Limiter [''dot'', ''default'', ''doh''] else []) @ [Close_Service])"

text \<open>The line about the cache at the start: its level and its message.\<close>

definition log_cache_status :: "cache_status \<Rightarrow> (string \<times> string) option" where
  "log_cache_status status =
     (if \<not> cs_configured status then None
      else if cs_status status = ''ok'' then Some (''info'', ''redis cache connected'')
      else Some (''warn'', ''redis cache unavailable at startup''))"

text \<open>An orderly end of the Core API stops what uses the database before it closes the database.\<close>

lemma core_end_ordered:
  assumes "core_main_end limited agent shutdown ev = (0, steps)"
  shows "\<exists>before. steps = before @ [Close_Service] \<and> Close_Service \<notin> set before \<and> (agent \<longrightarrow> Stop_Agent \<in> set before) \<and>
    ((\<exists>s. ev = Signalled s) \<longrightarrow> hd steps = Http_Shutdown)"
proof -
  let ?served = "case ev of Signalled _ \<Rightarrow> [Http_Shutdown] | _ \<Rightarrow> []"
  let ?mid = "(if agent then [Stop_Agent] else []) @
     (if limited then map Close_Limiter [''default'', ''telemetry'', ''override'', ''analyze''] else [])"
  have "steps = (?served @ ?mid) @ [Close_Service]"
    using assms by (auto simp: core_main_end_def core_deferred_def Let_def split: option.splits)
  then show ?thesis by (intro exI [of _ "?served @ ?mid"]) (auto split: serve_event.splits)
qed

text \<open>When its server fails, the process ends without closing the database, so queued telemetry is lost.\<close>

lemma core_failure_closes_nothing:
  "fst (core_main_end limited agent shutdown ev) \<noteq> 0 \<Longrightarrow> Close_Service \<notin> set (snd (core_main_end limited agent shutdown ev))"
  by (auto simp: core_main_end_def core_deferred_def Let_def split: option.splits serve_event.splits)

text \<open>The resolver closes everything but reports success also when a server could not listen.\<close>

lemma dns_end_status:
  "\<exists>steps. dns_main_end limited dot (Dot_Returned (Some e) False) = (0, Some (''DoT server error: '' @ e), steps) \<and>
     Close_Service \<in> set steps"
  by (simp add: dns_main_end_def)

subsection \<open>Closing\<close>

text \<open>\<^verbatim>\<open>errors.Join\<close>.\<close>

definition join_errors :: "err option list \<Rightarrow> err option" where
  "join_errors es =
     (case List.map_filter (\<lambda>e. e) es of [] \<Rightarrow> None | ms \<Rightarrow> Some (join_with [char_of (10 :: nat)] ms))"

text \<open>Each part is \<^term>\<open>None\<close> when the service does not have it, and else the result of its \<^verbatim>\<open>Close\<close>.\<close>

definition service_close :: "err option option \<Rightarrow> err option option \<Rightarrow> err option" where
  "service_close redis store =
     join_errors [case redis of None \<Rightarrow> None | Some e \<Rightarrow> e, case store of None \<Rightarrow> None | Some e \<Rightarrow> e]"

text \<open>\<^verbatim>\<open>File.Close\<close>: both are closed, the error of the file comes first.\<close>

definition file_close :: "err option \<Rightarrow> err option \<Rightarrow> err option" where
  "file_close fileErr rootErr = (case fileErr of Some e \<Rightarrow> Some e | None \<Rightarrow> rootErr)"

lemma service_close_ok: "service_close redis store = None \<longleftrightarrow> redis \<in> {None, Some None} \<and> store \<in> {None, Some None}"
  by (auto simp: service_close_def join_errors_def List.map_filter_simps split: option.splits)

subsection \<open>Cleaning loops\<close>

datatype loop_event = Loop_Tick int | Loop_Done

fun limiter_loop :: "loop_event list \<Rightarrow> limiter \<Rightarrow> limiter" where
  "limiter_loop [] l = l"
| "limiter_loop (Loop_Done # events) l = l"
| "limiter_loop (Loop_Tick now # events) l = limiter_loop events (limiter_cleanup now l)"

text \<open>\<open>cutoff\<close> formats the time so many days of retention before now.\<close>

fun store_loop :: "io \<Rightarrow> (int \<Rightarrow> string) \<Rightarrow> loop_event list \<Rightarrow> db \<Rightarrow> db" where
  "store_loop io cutoff [] d = d"
| "store_loop io cutoff (Loop_Done # events) d = d"
| "store_loop io cutoff (Loop_Tick now # events) d = store_loop io cutoff events (cleanup io (cutoff now) d)"

lemma cleanup_frame: "(cleanup io c d)\<lparr>db_log := []\<rparr> = d\<lparr>db_log := []\<rparr>" "set (db_log (cleanup io c d)) \<subseteq> set (db_log d)"
  by (auto simp: cleanup_def split: option.split)

text \<open>The loop of the database touches nothing but old rows of the log.\<close>

lemma store_loop_frame:
  "(store_loop io cutoff events d)\<lparr>db_log := []\<rparr> = d\<lparr>db_log := []\<rparr> \<and>
   set (db_log (store_loop io cutoff events d)) \<subseteq> set (db_log d)"
proof (induction io cutoff events d rule: store_loop.induct)
  case (3 io cutoff now events d)
  then show ?case using cleanup_frame [of io "cutoff now" d] by auto
qed simp_all

lemma available_capped:
  assumes "0 < lm_rate l" "t \<le> t'"
  shows "available l key t' = min (of_int (lm_burst l)) (available l key t + seconds (t' - t) * lm_rate l)"
proof (cases "map_of (lm_buckets l) key")
  case None
  have "0 \<le> seconds (t' - t) * lm_rate l"
    using assms seconds_mono [of 0 "t' - t"] by simp
  with None show ?thesis by (simp add: available_def refill_def bucket_of_def Let_def)
next
  case (Some b)
  have "0 \<le> seconds (t' - t) * lm_rate l"
    using assms seconds_mono [of 0 "t' - t"] by simp
  moreover have "seconds (t' - bk_last b) = seconds (t - bk_last b) + seconds (t' - t)"
    by (simp add: seconds_def diff_divide_distrib)
  ultimately show ?thesis using Some
    by (simp add: available_def refill_def bucket_of_def Let_def distrib_right min_def)
qed

text \<open>The loop of a limiter is invisible: with a rate that fills a bucket within the ten minutes after which an idle
  bucket is dropped, no sweep changes what a client has left, then or later.\<close>

lemma limiter_loop_invisible:
  assumes "limiter_ok l t0" "of_int (lm_burst l) \<le> lm_rate l * 600" "1 \<le> lm_burst l"
    "sorted (t0 # List.map_filter (\<lambda>ev. case ev of Loop_Tick t \<Rightarrow> Some t | Loop_Done \<Rightarrow> None) events @ [t])"
  shows "available (limiter_loop events l) key t = available l key t"
  using assms
proof (induction events l arbitrary: t0 rule: limiter_loop.induct)
  case (3 now events l)
  let ?l = "limiter_cleanup now l"
  have times: "t0 \<le> now" "now \<le> t" using 3(5) by (auto simp: List.map_filter_simps)
  have ok: "limiter_ok l now" using 3(2) times(1) by (auto simp: limiter_ok_def)
  then have "limiter_ok ?l now" using limiter_ok_step [of l now "Sweep now"] 3(4) by simp
  then have "available (limiter_loop events ?l) key t = available ?l key t"
    using 3(1) [of now] 3(3-5) by (auto simp: List.map_filter_simps)
  also have "available ?l key now = available l key now" using available_cleanup [OF ok 3(3)] .
  then have "available ?l key t = available l key t"
    using ok times(2) available_capped [of l now t key] available_capped [of ?l now t key] by (simp add: limiter_ok_def)
  finally show ?case by simp
qed simp_all

subsection \<open>Redis under a guard\<close>

text \<open>\<^verbatim>\<open>withRedis\<close> of the risk service and of the OSINT service, but for the time limit.\<close>

definition with_redis :: "'r redis \<Rightarrow> 'a go_result \<Rightarrow> 'a go_result" where
  "with_redis c call = (if redis_enabled c then call else Inl err_disabled)"

text \<open>The operations of the client have the guard of their own, so the model calls them directly.\<close>

lemma with_redis_get: "with_redis c (get_json dec c key r) = get_json dec c key r"
  by (simp add: with_redis_def get_json_def redis_enabled_def split: option.split)

end
