(* ===== verification/Load_Test.thy ===== *)
theory Load_Test
  imports Web "HOL-Library.Multiset"
begin

text \<open>
  \<^verbatim>\<open>cmd/load-test/main.go\<close>: the driver that measures the servers.  Its settings and its report are functions; the
  workers of \<^verbatim>\<open>run\<close>, the channel between them and the deadline are a step relation.  The packing of a DNS query
  (\<^verbatim>\<open>github.com/miekg/dns\<close>), the HTTP exchange, the JSON encoder, the clock and the random source are parameters;
  counters of a Go map are association lists.
\<close>

subsection \<open>Settings\<close>

record load_config =
  lc_url :: string
  lc_type :: string
  lc_concurrency :: int
  lc_duration :: int
  lc_rate :: int
  lc_domains :: "string list"

record load_flags =
  lf_url :: string
  lf_type :: string
  lf_concurrency :: int
  lf_duration :: int
  lf_rate :: int
  lf_domains :: string

definition default_load_flags :: load_flags where
  "default_load_flags = \<lparr>lf_url = ''http://localhost:8081/dns-query'', lf_type = ''doh'', lf_concurrency = 10,
     lf_duration = 10 * 1000000000, lf_rate = 0, lf_domains = []\<rparr>"

definition parse_load_config :: "load_flags \<Rightarrow> load_config go_result" where
  "parse_load_config fl =
     (let testType = to_lower (trim_space (lf_type fl)) in
      if testType \<noteq> ''doh'' \<and> testType \<noteq> ''api''
      then Inl (''-type must be '' @ quoted ''doh'' @ '' or '' @ quoted ''api'')
      else if trim_space (lf_url fl) = [] then Inl ''-url is required''
      else if lf_concurrency fl \<le> 0 then Inl ''-concurrency must be greater than 0''
      else if lf_duration fl \<le> 0 then Inl ''-duration must be greater than 0''
      else if lf_rate fl < 0 then Inl ''-rate must be 0 or greater''
      else Inr
        \<lparr>lc_url = lf_url fl, lc_type = testType, lc_concurrency = lf_concurrency fl, lc_duration = lf_duration fl,
         lc_rate = lf_rate fl,
         lc_domains = filter (\<lambda>d. d \<noteq> []) (map trim_space (split_on CHR '','' (lf_domains fl)))\<rparr>)"

text \<open>The interval between two ticks of the rate limiter, \<^term>\<open>None\<close> when there is none.\<close>

definition tick_interval :: "int \<Rightarrow> int option" where
  "tick_interval rate =
     (if rate \<le> 0 then None
      else let interval = 1000000000 div rate in Some (if interval \<le> 0 then 1 else interval))"

subsection \<open>Names\<close>

definition default_domains :: "string list" where
  "default_domains = [''google.com'', ''facebook.com'', ''wikipedia.org'', ''evil-phishing.com'', ''bad-tracker.net'', [], []]"

record domain_picker =
  dp_custom :: "string list"
  dp_count :: "64 word"

definition bounded_index :: "64 word \<Rightarrow> nat \<Rightarrow> nat" where
  "bounded_index n len = unat (n mod of_nat len)"

text \<open>\<open>now\<close> is the time in nanoseconds, \<open>random\<close> four random bytes.\<close>

definition random_domain :: "int \<Rightarrow> string option \<Rightarrow> 64 word \<Rightarrow> string" where
  "random_domain now random seed =
     (case random of
        None \<Rightarrow> ''user-'' @ itoa now @ ''-'' @ itoa (uint seed) @ ''.test''
      | Some buf \<Rightarrow> ''user-'' @ itoa now @ ''-'' @ concat (map hex_of buf) @ ''.test'')"

definition picker_next :: "int \<Rightarrow> string option \<Rightarrow> domain_picker \<Rightarrow> domain_picker \<times> string" where
  "picker_next now random p =
     (let n = dp_count p; p' = p\<lparr>dp_count := n + 1\<rparr> in
      if dp_custom p \<noteq> [] then (p', dp_custom p ! bounded_index n (length (dp_custom p)))
      else
        let domain = default_domains ! bounded_index n (length default_domains) in
        (p', if domain \<noteq> [] then domain else random_domain now random n))"

subsection \<open>Requests\<close>

text \<open>\<open>le_pack\<close> packs the question for the addresses of a name, \<open>le_new\<close> is the error of making a request for a
  URL, and \<open>le_do\<close> posts headers and body and gives the status once the answer was read.\<close>

record load_env =
  le_pack :: "string \<Rightarrow> string go_result"
  le_encode :: "(string \<times> string) list \<Rightarrow> string go_result"
  le_new :: "string \<Rightarrow> err option"
  le_do :: "string \<Rightarrow> (string \<times> string) list \<Rightarrow> string \<Rightarrow> int go_result"

definition do_request :: "load_env \<Rightarrow> string \<Rightarrow> (string \<times> string) list \<Rightarrow> string \<Rightarrow> int \<times> err option" where
  "do_request env url headers body =
     (case le_do env url headers body of
        Inl e \<Rightarrow> (0, Some e)
      | Inr status \<Rightarrow> if status \<noteq> 200 then (status, Some (''http status '' @ itoa status)) else (status, None))"

definition post_request :: "load_env \<Rightarrow> string \<Rightarrow> (string \<times> string) list \<Rightarrow> string \<Rightarrow> int \<times> err option" where
  "post_request env url headers body =
     (case le_new env url of
        Some e \<Rightarrow> (0, Some (''create request: '' @ e))
      | None \<Rightarrow> do_request env url headers body)"

definition send_doh_request :: "load_env \<Rightarrow> string \<Rightarrow> string \<Rightarrow> int \<times> err option" where
  "send_doh_request env url domain =
     (case le_pack env domain of
        Inl e \<Rightarrow> (0, Some (''pack dns query: '' @ e))
      | Inr body \<Rightarrow>
          post_request env url
            [(''Content-Type'', ''application/dns-message''), (''Accept'', ''application/dns-message'')] body)"

definition send_api_request :: "load_env \<Rightarrow> string \<Rightarrow> string \<Rightarrow> int \<times> err option" where
  "send_api_request env url domain =
     (case le_encode env [(''domain'', domain)] of
        Inl e \<Rightarrow> (0, Some (''marshal api payload: '' @ e))
      | Inr payload \<Rightarrow> post_request env url [(''Content-Type'', ''application/json'')] payload)"

definition send_load_request :: "load_env \<Rightarrow> load_config \<Rightarrow> string \<Rightarrow> int \<times> err option" where
  "send_load_request env cfg domain =
     (if lc_type cfg = ''doh'' then send_doh_request env (lc_url cfg) domain
      else if lc_type cfg = ''api'' then send_api_request env (lc_url cfg) domain
      else (0, Some (''unknown test type '' @ quoted (lc_type cfg))))"

subsection \<open>Report\<close>

record load_result =
  lr_status :: int
  lr_latency :: int
  lr_err :: "err option"

record load_summary =
  ls_total :: int
  ls_successes :: int
  ls_errors :: int
  ls_latencies :: "int list"
  ls_codes :: "(int \<times> int) list"
  ls_kinds :: "(string \<times> int) list"
  ls_elapsed :: int

definition classify_error :: "err \<Rightarrow> string" where
  "classify_error e =
     (let message = to_lower e in
      if contains message ''client.timeout'' \<or> contains message ''timeout'' \<or> contains message ''deadline exceeded''
      then ''timeout''
      else if contains message ''connection refused'' then ''connection refused''
      else if contains message ''no such host'' then ''dns lookup''
      else if contains message ''http status'' then ''non-200 status''
      else ''request error'')"

fun bump :: "'k \<Rightarrow> ('k \<times> int) list \<Rightarrow> ('k \<times> int) list" where
  "bump k [] = [(k, 1)]"
| "bump k ((k', n) # counts) = (if k' = k then (k', n + 1) # counts else (k', n) # bump k counts)"

definition count_result :: "load_result \<Rightarrow> load_summary \<Rightarrow> load_summary" where
  "count_result r s =
     (let s1 = s\<lparr>ls_total := ls_total s + 1, ls_latencies := ls_latencies s @ [lr_latency r]\<rparr>;
          s2 = (if 0 < lr_status r then s1\<lparr>ls_codes := bump (lr_status r) (ls_codes s1)\<rparr> else s1) in
      if lr_err r = None \<and> lr_status r = 200 then s2\<lparr>ls_successes := ls_successes s2 + 1\<rparr>
      else
        let s3 = s2\<lparr>ls_errors := ls_errors s2 + 1\<rparr> in
        (case lr_err r of
           None \<Rightarrow> s3
         | Some e \<Rightarrow> s3\<lparr>ls_kinds := bump (classify_error e) (ls_kinds s3)\<rparr>))"

definition summarize_load :: "load_result list \<Rightarrow> int \<Rightarrow> load_summary" where
  "summarize_load results elapsed =
     (let s = fold count_result results
            \<lparr>ls_total = 0, ls_successes = 0, ls_errors = 0, ls_latencies = [], ls_codes = [], ls_kinds = [],
             ls_elapsed = elapsed\<rparr>
      in s\<lparr>ls_latencies := sort (ls_latencies s)\<rparr>)"

definition percentile :: "int list \<Rightarrow> real \<Rightarrow> int" where
  "percentile values pct =
     (if values = [] then 0
      else if pct \<le> 0 then hd values
      else if 100 \<le> pct then List.last values
      else values ! nat \<lfloor>pct / 100 * real (length values - 1) + 1 / 2\<rfloor>)"

definition qps :: "int \<Rightarrow> int \<Rightarrow> real" where
  "qps n elapsed = (if elapsed \<le> 0 then 0 else of_int n / seconds elapsed)"

definition success_rate :: "load_summary \<Rightarrow> real" where
  "success_rate s = (if ls_total s = 0 then 0 else of_int (ls_successes s) * 100 / of_int (ls_total s))"

definition sorted_status_codes :: "(int \<times> int) list \<Rightarrow> int list" where
  "sorted_status_codes counts = sort (map fst counts)"

definition sorted_error_kinds :: "(string \<times> int) list \<Rightarrow> string list" where
  "sorted_error_kinds counts = sort (map fst counts)"

text \<open>Microseconds over a thousand, with two digits.\<close>

definition format_latency :: "int \<Rightarrow> string" where
  "format_latency v = fixed2 (of_int (v div 1000) / 1000) @ '' ms''"

definition pad_right :: "nat \<Rightarrow> string \<Rightarrow> string" where
  "pad_right n s = s @ replicate (n - length (runes s)) CHR '' ''"

text \<open>The lines of the report; \<open>status_text\<close> is \<^verbatim>\<open>http.StatusText\<close>.\<close>

definition print_summary :: "(int \<Rightarrow> string) \<Rightarrow> load_summary \<Rightarrow> string list" where
  "print_summary status_text s =
     [''Summary'', ''======='', ''Total requests: '' @ itoa (ls_total s),
      ''Throughput:     '' @ fixed2 (qps (ls_total s) (ls_elapsed s)) @ '' req/s'',
      ''Success rate:   '' @ fixed2 (success_rate s) @ ''% ('' @ itoa (ls_successes s) @ '' OK / '' @ itoa (ls_errors s) @ '' errors)'',
      [], ''Latency'', ''-------''] @
     map (\<lambda>(label, pct). label @ '': '' @ format_latency (percentile (ls_latencies s) pct))
       [(''Min'', 0), (''p50'', 50), (''p90'', 90), (''p99'', 99), (''Max'', 100)] @
     [[], ''HTTP Status Codes'', ''-----------------''] @
     (if ls_codes s = [] then [''(none)'']
      else map (\<lambda>code. itoa code @ '' '' @ pad_right 24 (status_text code) @ '' '' @ itoa (the (map_of (ls_codes s) code)))
             (sorted_status_codes (ls_codes s))) @
     (if ls_kinds s = [] then []
      else [[], ''Errors'', ''------''] @
        map (\<lambda>kind. pad_right 24 kind @ '' '' @ itoa (the (map_of (ls_kinds s) kind))) (sorted_error_kinds (ls_kinds s)))"

subsection \<open>What the report says\<close>

lemma bump_keys: "set (map fst (bump k counts)) = insert k (set (map fst counts))"
  by (induction k counts rule: bump.induct) auto

lemma bump_distinct: "distinct (map fst counts) \<Longrightarrow> distinct (map fst (bump k counts))"
proof (induction k counts rule: bump.induct)
  case (2 k k' n counts)
  then show ?case using bump_keys [of k counts] by auto
qed simp

lemma bump_value: "map_of (bump k counts) k' =
    (if k' = k then Some ((case map_of counts k of None \<Rightarrow> 0 | Some n \<Rightarrow> n) + 1) else map_of counts k')"
  by (induction k counts rule: bump.induct) auto

lemma bump_total: "sum_list (map snd (bump k counts)) = sum_list (map snd counts) + 1"
  by (induction k counts rule: bump.induct) auto

text \<open>Totals, errors and counters agree with each other at every moment of the loop.\<close>

definition summary_ok :: "load_result list \<Rightarrow> load_summary \<Rightarrow> bool" where
  "summary_ok results s \<longleftrightarrow>
     ls_total s = int (length results) \<and> ls_successes s + ls_errors s = ls_total s \<and>
     ls_successes s = int (length (filter (\<lambda>r. lr_err r = None \<and> lr_status r = 200) results)) \<and>
     ls_latencies s = map lr_latency results \<and>
     distinct (map fst (ls_codes s)) \<and> distinct (map fst (ls_kinds s)) \<and>
     (\<forall>code. (case map_of (ls_codes s) code of None \<Rightarrow> 0 | Some n \<Rightarrow> n) =
        int (length (filter (\<lambda>r. 0 < lr_status r \<and> lr_status r = code) results))) \<and>
     sum_list (map snd (ls_kinds s)) = int (length (filter (\<lambda>r. lr_err r \<noteq> None) results))"

lemma count_result_ok:
  assumes "summary_ok rs s"
  shows "summary_ok (rs @ [r]) (count_result r s)"
  using assms
  by (auto simp: summary_ok_def count_result_def Let_def bump_distinct bump_value bump_total split: option.splits)

lemma fold_count_ok: "summary_ok rs s \<Longrightarrow> summary_ok (rs @ us) (fold count_result us s)"
proof (induction us arbitrary: rs s)
  case (Cons r us)
  from Cons.IH [OF count_result_ok [OF Cons.prems, of r]] show ?case by simp
qed simp

lemma summarize_counts:
  "\<exists>s. summary_ok results s \<and> summarize_load results elapsed = s\<lparr>ls_latencies := sort (map lr_latency results)\<rparr>"
proof -
  let ?s0 = "\<lparr>ls_total = 0, ls_successes = 0, ls_errors = 0, ls_latencies = [], ls_codes = [], ls_kinds = [],
    ls_elapsed = elapsed\<rparr>"
  have "summary_ok [] ?s0" by (simp add: summary_ok_def)
  from fold_count_ok [OF this, of results] have "summary_ok results (fold count_result results ?s0)" by simp
  then show ?thesis by (intro exI [of _ "fold count_result results ?s0"]) (simp add: summarize_load_def summary_ok_def)
qed

text \<open>The rank of a percentile is an index of the list and grows with the percentage.\<close>

definition rank_of :: "nat \<Rightarrow> real \<Rightarrow> nat" where
  "rank_of n pct = nat \<lfloor>pct / 100 * real (n - 1) + 1 / 2\<rfloor>"

lemma rank_mono:
  assumes "p \<le> q"
  shows "rank_of n p \<le> rank_of n q"
proof -
  have "p / 100 * real (n - 1) + 1 / 2 \<le> q / 100 * real (n - 1) + 1 / 2"
    using assms by (intro add_right_mono mult_right_mono divide_right_mono) simp_all
  then show ?thesis unfolding rank_of_def by (intro nat_mono floor_mono)
qed

lemma rank_ends: "rank_of n 0 = 0" "rank_of n 100 = n - 1"
proof -
  have "\<lfloor>real (n - 1) + 1 / 2\<rfloor> = int (n - 1)" by (intro floor_unique) simp_all
  then show "rank_of n 0 = 0" "rank_of n 100 = n - 1" by (simp_all add: rank_of_def)
qed

definition clamp :: "real \<Rightarrow> real" where
  "clamp p = (if p \<le> 0 then 0 else if 100 \<le> p then 100 else p)"

lemma percentile_rank:
  assumes "values \<noteq> []"
  shows "percentile values p = values ! rank_of (length values) (clamp p) \<and> rank_of (length values) (clamp p) < length values"
proof -
  have "rank_of (length values) (clamp p) \<le> length values - 1"
    using rank_mono [of "clamp p" 100 "length values"] by (simp add: rank_ends clamp_def)
  then have "rank_of (length values) (clamp p) < length values" using assms by (cases "values") auto
  moreover have "percentile values p = values ! rank_of (length values) (clamp p)"
  proof -
    consider "p \<le> 0" | "100 \<le> p" "\<not> p \<le> 0" | "\<not> p \<le> 0" "\<not> 100 \<le> p" by linarith
    then show ?thesis
    proof cases
      case 1
      then show ?thesis using assms by (simp add: percentile_def clamp_def rank_ends hd_conv_nth)
    next
      case 2
      then show ?thesis using assms by (simp add: percentile_def clamp_def rank_ends last_conv_nth)
    next
      case 3
      then show ?thesis using assms by (simp add: percentile_def clamp_def rank_of_def)
    qed
  qed
  ultimately show ?thesis by blast
qed

lemma percentile_sorted:
  assumes "sorted values" "values \<noteq> []" "p \<le> q"
  shows "percentile values p \<le> percentile values q"
proof -
  have "clamp p \<le> clamp q" using assms(3) by (simp add: clamp_def)
  from rank_mono [OF this] show ?thesis
    using assms(1,2) percentile_rank [of "values" p] percentile_rank [of "values" q] by (simp add: sorted_nth_mono)
qed

text \<open>The numbers of a report: the results split into successes and errors, the latencies are those measured, the
  percentiles lie in order between the smallest and the largest, each code is counted as often as it came, and the rate is
  a percentage.\<close>

lemma report_faithful:
  assumes "s = summarize_load results elapsed" "results \<noteq> []"
  shows "ls_successes s + ls_errors s = int (length results)" "0 \<le> success_rate s \<and> success_rate s \<le> 100"
    "percentile (ls_latencies s) 0 = Min (lr_latency ` set results)"
    "percentile (ls_latencies s) 100 = Max (lr_latency ` set results)"
    "p \<le> q \<Longrightarrow> percentile (ls_latencies s) p \<le> percentile (ls_latencies s) q"
    "percentile (ls_latencies s) p \<in> lr_latency ` set results"
proof -
  obtain s0 where s0: "summary_ok results s0" "s = s0\<lparr>ls_latencies := sort (map lr_latency results)\<rparr>"
    using summarize_counts assms(1) by blast
  let ?v = "sort (map lr_latency results)"
  have v: "?v \<noteq> []" "sorted ?v" "set ?v = lr_latency ` set results"
    using assms(2) by (metis length_0_conv length_map length_sort) simp_all
  show "ls_successes s + ls_errors s = int (length results)" using s0 by (simp add: summary_ok_def)
  have "0 \<le> ls_successes s0" "ls_successes s0 \<le> ls_total s0" "0 < ls_total s0"
    using s0(1) assms(2) length_filter_le [of "\<lambda>r. lr_err r = None \<and> lr_status r = 200" results]
    by (simp_all add: summary_ok_def)
  then show "0 \<le> success_rate s \<and> success_rate s \<le> 100"
    by (simp add: success_rate_def s0(2) divide_le_eq)
  show mono: "p \<le> q \<Longrightarrow> percentile (ls_latencies s) p \<le> percentile (ls_latencies s) q"
    using percentile_sorted [OF v(2,1)] by (simp add: s0(2))
  have m: "percentile ?v x \<in> set ?v" for x
    using percentile_rank [OF v(1), of x] by (simp del: set_sort length_sort)
  then show "percentile (ls_latencies s) p \<in> lr_latency ` set results" using v(3) by (simp add: s0(2))
  have "hd ?v \<le> y" if "y \<in> set ?v" for y
    using that v(1,2) by (cases ?v) auto
  then show "percentile (ls_latencies s) 0 = Min (lr_latency ` set results)"
    using v m [of 0] by (intro Min_eqI [symmetric]) (auto simp: s0(2) percentile_def)
  have "y \<le> List.last ?v" if "y \<in> set ?v" for y
    using that v(1,2) by (metis last_conv_nth diff_less in_set_conv_nth length_greater_0_conv less_Suc_eq_le
        less_one sorted_nth_mono Suc_diff_1)
  then show "percentile (ls_latencies s) 100 = Max (lr_latency ` set results)"
    using v m [of 100] by (intro Max_eqI [symmetric]) (auto simp: s0(2) percentile_def)
qed


subsection \<open>Workers\<close>

text \<open>A worker between two requests, with a request on its way, with a result it has not delivered, or ended.\<close>

datatype worker = Ready | Sending string | Holding load_result | Ended

text \<open>The workers, the channel of results, what \<^verbatim>\<open>run\<close> has collected, whether the deadline has passed and whether the
  rate limiter still ticks.  The last two fields are for the proofs: all answers there were, and those no one collected.\<close>

record pool =
  po_workers :: "worker list"
  po_picker :: domain_picker
  po_queue :: "load_result list"
  po_results :: "load_result list"
  po_over :: bool
  po_ticking :: bool
  po_answered :: "load_result list"
  po_lost :: "load_result list"

definition pool_capacity :: "load_config \<Rightarrow> nat" where
  "pool_capacity cfg = nat (lc_concurrency cfg) * 4"

definition new_pool :: "load_config \<Rightarrow> pool" where
  "new_pool cfg = \<lparr>po_workers = replicate (nat (lc_concurrency cfg)) Ready,
     po_picker = \<lparr>dp_custom = lc_domains cfg, dp_count = 0\<rparr>, po_queue = [], po_results = [], po_over = False,
     po_ticking = True, po_answered = [], po_lost = []\<rparr>"

text \<open>A \<^verbatim>\<open>select\<close> with two ready cases may take either.  With a rate, a worker waits for a tick or the end; without, it
  goes on until the deadline.\<close>

inductive pool_step :: "load_config \<Rightarrow> pool \<Rightarrow> pool \<Rightarrow> bool" for cfg where
  Take: "i < length (po_workers s) \<Longrightarrow> po_workers s ! i = Ready \<Longrightarrow>
    (if 0 < lc_rate cfg then po_ticking s else \<not> po_over s) \<Longrightarrow> picker_next now random (po_picker s) = (p, d) \<Longrightarrow>
    pool_step cfg s (s\<lparr>po_workers := (po_workers s)[i := Sending d], po_picker := p\<rparr>)"
| Answer: "i < length (po_workers s) \<Longrightarrow> po_workers s ! i = Sending d \<Longrightarrow>
    (lr_status r, lr_err r) = send_load_request env cfg d \<Longrightarrow>
    pool_step cfg s (s\<lparr>po_workers := (po_workers s)[i := Holding r], po_answered := po_answered s @ [r]\<rparr>)"
| Deliver: "i < length (po_workers s) \<Longrightarrow> po_workers s ! i = Holding r \<Longrightarrow> length (po_queue s) < pool_capacity cfg \<Longrightarrow>
    pool_step cfg s (s\<lparr>po_workers := (po_workers s)[i := Ready], po_queue := po_queue s @ [r]\<rparr>)"
| Drop: "i < length (po_workers s) \<Longrightarrow> po_workers s ! i = Holding r \<Longrightarrow> po_over s \<Longrightarrow>
    pool_step cfg s (s\<lparr>po_workers := (po_workers s)[i := Ended], po_lost := po_lost s @ [r]\<rparr>)"
| Leave: "i < length (po_workers s) \<Longrightarrow> po_workers s ! i = Ready \<Longrightarrow> po_over s \<or> 0 < lc_rate cfg \<and> \<not> po_ticking s \<Longrightarrow>
    pool_step cfg s (s\<lparr>po_workers := (po_workers s)[i := Ended]\<rparr>)"
| Collect: "po_queue s = r # q \<Longrightarrow> pool_step cfg s (s\<lparr>po_queue := q, po_results := po_results s @ [r]\<rparr>)"
| Deadline: "\<not> po_over s \<Longrightarrow> pool_step cfg s (s\<lparr>po_over := True\<rparr>)"
| Ticker_End: "po_over s \<Longrightarrow> po_ticking s \<Longrightarrow> pool_step cfg s (s\<lparr>po_ticking := False\<rparr>)"

text \<open>All workers have ended, the channel is closed and drained: \<^verbatim>\<open>run\<close> returns what it collected.\<close>

definition pool_done :: "pool \<Rightarrow> bool" where
  "pool_done s \<longleftrightarrow> list_all (\<lambda>w. w = Ended) (po_workers s) \<and> po_queue s = []"

fun held :: "worker \<Rightarrow> load_result multiset" where
  "held (Holding r) = {#r#}"
| "held _ = {#}"

definition all_held :: "worker list \<Rightarrow> load_result multiset" where
  "all_held ws = sum_list (map held ws)"

definition ended :: "worker list \<Rightarrow> nat" where
  "ended ws = length (filter (\<lambda>w. w = Ended) ws)"

lemma all_held_update: "i < length ws \<Longrightarrow> all_held (ws[i := w]) + held (ws ! i) = all_held ws + held w"
proof (induction ws arbitrary: i)
  case (Cons v ws)
  then show ?case by (cases i) (simp_all add: all_held_def ac_simps)
qed simp

lemma ended_update:
  "i < length ws \<Longrightarrow> ended (ws[i := w]) + (if ws ! i = Ended then 1 else 0) = ended ws + (if w = Ended then 1 else 0)"
proof (induction ws arbitrary: i)
  case (Cons v ws)
  show ?case
  proof (cases i)
    case (Suc j)
    then show ?thesis using Cons.IH [of j] Cons.prems by (simp add: ended_def split: if_splits)
  qed (simp add: ended_def)
qed simp

lemma ended_le: "ended ws \<le> length ws"
  by (simp add: ended_def)

text \<open>An answer has an error exactly if its status is not 200.\<close>

lemma send_load_request_result: "(status, e) = send_load_request env cfg d \<Longrightarrow> e = None \<longleftrightarrow> status = 200"
  by (auto simp: send_load_request_def send_doh_request_def send_api_request_def post_request_def do_request_def
      split: if_splits sum.splits option.splits)

definition pool_ok :: "load_config \<Rightarrow> pool \<Rightarrow> bool" where
  "pool_ok cfg s \<longleftrightarrow> length (po_workers s) = nat (lc_concurrency cfg) \<and> length (po_queue s) \<le> pool_capacity cfg \<and>
     mset (po_answered s) = mset (po_results s) + mset (po_queue s) + mset (po_lost s) + all_held (po_workers s) \<and>
     length (po_lost s) \<le> ended (po_workers s) \<and> (po_ticking s \<or> po_over s) \<and>
     (\<forall>r \<in> set (po_answered s). lr_err r = None \<longleftrightarrow> lr_status r = 200)"

lemma new_pool_ok: "pool_ok cfg (new_pool cfg)"
proof -
  have "all_held (replicate n Ready) = {#}" for n by (induction n) (simp_all add: all_held_def)
  then show ?thesis by (simp add: pool_ok_def new_pool_def ended_def)
qed

lemma pool_step_ok:
  assumes "pool_step cfg s s'" "pool_ok cfg s"
  shows "pool_ok cfg s'"
  using assms
proof (induction rule: pool_step.induct)
  case (Take i s now random p d)
  then show ?case using all_held_update [of i "po_workers s" "Sending d"] ended_update [of i "po_workers s" "Sending d"]
    by (simp add: pool_ok_def)
next
  case (Answer i s d r env)
  then show ?case using all_held_update [of i "po_workers s" "Holding r"] ended_update [of i "po_workers s" "Holding r"]
      send_load_request_result [OF Answer(3)]
    by (auto simp: pool_ok_def)
next
  case (Deliver i s r)
  then show ?case using all_held_update [of i "po_workers s" Ready] ended_update [of i "po_workers s" Ready]
    by (auto simp: pool_ok_def)
next
  case (Drop i s r)
  then show ?case using all_held_update [of i "po_workers s" Ended] ended_update [of i "po_workers s" Ended]
    by (auto simp: pool_ok_def)
next
  case (Leave i s)
  then show ?case using all_held_update [of i "po_workers s" Ended] ended_update [of i "po_workers s" Ended]
    by (simp add: pool_ok_def)
qed (auto simp: pool_ok_def)

lemma pool_steps_ok: "(pool_step cfg)\<^sup>*\<^sup>* s s' \<Longrightarrow> pool_ok cfg s \<Longrightarrow> pool_ok cfg s'"
  by (induction rule: rtranclp_induct) (auto intro: pool_step_ok)

lemma done_held: "list_all (\<lambda>w. w = Ended) ws \<Longrightarrow> all_held ws = {#}"
  by (induction ws) (simp_all add: all_held_def)


text \<open>C38. What the load test reports is complete but for one answer per worker.  When \<^verbatim>\<open>run\<close> returns, whatever the
  interleaving of the workers, each answer was collected exactly once or was one of at most as many as there are workers
  that the deadline made its worker throw away; and the report counts the collected ones: successes and errors add up
  to them, and the classes of errors add up to the errors.\<close>

theorem load_results_complete:
  assumes "(pool_step cfg)\<^sup>*\<^sup>* (new_pool cfg) s" "pool_done s" "report = summarize_load (po_results s) elapsed"
  shows "mset (po_answered s) = mset (po_results s) + mset (po_lost s) \<and>
    length (po_lost s) \<le> nat (lc_concurrency cfg) \<and>
    ls_total report = int (length (po_answered s)) - int (length (po_lost s)) \<and>
    ls_successes report + ls_errors report = ls_total report \<and>
    sum_list (map snd (ls_kinds report)) = ls_errors report"
proof -
  have ok: "pool_ok cfg s" using pool_steps_ok [OF assms(1) new_pool_ok] .
  have m: "mset (po_answered s) = mset (po_results s) + mset (po_lost s)"
    using ok assms(2) by (simp add: pool_ok_def pool_done_def done_held)
  then have l: "length (po_answered s) = length (po_results s) + length (po_lost s)"
    by (metis size_mset size_union)
  have "set (po_results s) \<subseteq> set (po_answered s)" using m by (metis set_mset_mset set_mset_union sup_ge1)
  then have e: "\<forall>r \<in> set (po_results s). lr_err r = None \<longleftrightarrow> lr_status r = 200" using ok by (auto simp: pool_ok_def)
  obtain s0 where s0: "summary_ok (po_results s) s0" "report = s0\<lparr>ls_latencies := sort (map lr_latency (po_results s))\<rparr>"
    using summarize_counts assms(3) by blast
  have "filter (\<lambda>r. lr_err r = None \<and> lr_status r = 200) (po_results s) = filter (\<lambda>r. lr_err r = None) (po_results s)"
    using e by (intro filter_cong) auto
  then have "ls_successes s0 + sum_list (map snd (ls_kinds s0)) = ls_total s0"
    using s0(1) sum_length_filter_compl [of "\<lambda>r. lr_err r = None" "po_results s"] by (simp add: summary_ok_def flip: of_nat_add)
  then show ?thesis using ok m l s0 ended_le [of "po_workers s"] by (simp add: pool_ok_def summary_ok_def)
qed

definition one_worker :: load_config where
  "one_worker = \<lparr>lc_url = [], lc_type = ''none'', lc_concurrency = 1, lc_duration = 1, lc_rate = 0, lc_domains = [''a.vn'']\<rparr>"

theorem load_results_complete_witness:
  "\<exists>s. (pool_step one_worker)\<^sup>*\<^sup>* (new_pool one_worker) s \<and> length (po_lost s) = 1 \<and>
     ls_total (summarize_load (po_results s) 0) = int (length (po_answered s)) - 1"
proof -
  let ?d = "snd (picker_next 0 None \<lparr>dp_custom = [''a.vn''], dp_count = 0\<rparr>)"
  let ?p = "fst (picker_next 0 None \<lparr>dp_custom = [''a.vn''], dp_count = 0\<rparr>)"
  let ?r = "\<lparr>lr_status = 0, lr_latency = 7, lr_err = Some (''unknown test type '' @ quoted ''none'')\<rparr>"
  let ?s0 = "new_pool one_worker"
  let ?s1 = "?s0\<lparr>po_workers := (po_workers ?s0)[0 := Sending ?d], po_picker := ?p\<rparr>"
  let ?s2 = "?s1\<lparr>po_workers := (po_workers ?s1)[0 := Holding ?r], po_answered := po_answered ?s1 @ [?r]\<rparr>"
  let ?s3 = "?s2\<lparr>po_over := True\<rparr>"
  let ?s4 = "?s3\<lparr>po_workers := (po_workers ?s3)[0 := Ended], po_lost := po_lost ?s3 @ [?r]\<rparr>"
  have s1: "pool_step one_worker ?s0 ?s1"
    by (rule pool_step.Take) (simp_all add: new_pool_def one_worker_def)
  have "(0, Some (''unknown test type '' @ quoted ''none'')) = send_load_request env one_worker ?d" for env
    by (simp add: send_load_request_def one_worker_def)
  then have s2: "pool_step one_worker ?s1 ?s2"
    by (intro pool_step.Answer [where d = ?d]) (simp_all add: new_pool_def one_worker_def)
  have s3: "pool_step one_worker ?s2 ?s3" by (rule pool_step.Deadline) (simp add: new_pool_def)
  have s4: "pool_step one_worker ?s3 ?s4" by (rule pool_step.Drop) (simp_all add: new_pool_def one_worker_def)
  have steps: "(pool_step one_worker)\<^sup>*\<^sup>* ?s0 ?s4"
    using s1 s2 s3 s4 by (meson converse_rtranclp_into_rtranclp rtranclp.rtrancl_refl)
  have "pool_done ?s4" by (simp add: pool_done_def new_pool_def one_worker_def)
  from load_results_complete [OF steps this refl, of 0] steps show ?thesis
    by (intro exI [of _ ?s4]) (simp add: new_pool_def)
qed


subsection \<open>The pool can always end\<close>

fun worker_left :: "worker \<Rightarrow> nat" where
  "worker_left (Sending _) = 3"
| "worker_left (Holding _) = 2"
| "worker_left Ready = 1"
| "worker_left Ended = 0"

definition pool_left :: "pool \<Rightarrow> nat" where
  "pool_left s = sum_list (map worker_left (po_workers s)) + length (po_queue s)"

lemma worker_left_update:
  "i < length ws \<Longrightarrow> sum_list (map worker_left (ws[i := w])) + worker_left (ws ! i) =
     sum_list (map worker_left ws) + worker_left w"
proof (induction ws arbitrary: i)
  case (Cons v ws)
  then show ?case by (cases i) simp_all
qed simp

text \<open>After the deadline and the last tick every step of a worker brings the pool closer to its end.\<close>

lemma pool_progress:
  assumes "po_over s" "\<not> po_ticking s" "\<not> pool_done s"
  shows "\<exists>s'. pool_step cfg s s' \<and> po_over s' \<and> \<not> po_ticking s' \<and> pool_left s' < pool_left s"
proof (cases "po_queue s")
  case (Cons r q)
  then show ?thesis using assms(1,2) pool_step.Collect [OF Cons, of cfg]
    by (intro exI [of _ "s\<lparr>po_queue := q, po_results := po_results s @ [r]\<rparr>"]) (simp add: pool_left_def)
next
  case Nil
  with assms(3) obtain i where i: "i < length (po_workers s)" "po_workers s ! i \<noteq> Ended"
    by (auto simp: pool_done_def list_all_length)
  have left: "pool_left (s\<lparr>po_workers := (po_workers s)[i := w]\<rparr>) + worker_left (po_workers s ! i) = pool_left s + worker_left w"
    for w using worker_left_update [OF i(1)] by (simp add: pool_left_def)
  show ?thesis
  proof (cases "po_workers s ! i")
    case Ready
    then show ?thesis using assms(1,2) left [of Ended] pool_step.Leave [OF i(1) Ready, of cfg]
      by (intro exI [of _ "s\<lparr>po_workers := (po_workers s)[i := Ended]\<rparr>"]) simp
  next
    case (Sending d)
    let ?env = "\<lparr>le_pack = \<lambda>_. Inl [], le_encode = \<lambda>_. Inl [], le_new = \<lambda>_. None, le_do = \<lambda>_ _ _. Inl []\<rparr> :: load_env"
    let ?r = "\<lparr>lr_status = fst (send_load_request ?env cfg d), lr_latency = 0, lr_err = snd (send_load_request ?env cfg d)\<rparr>"
    show ?thesis using Sending assms(1,2) left [of "Holding ?r"] pool_step.Answer [OF i(1) Sending, of ?r ?env cfg]
      by (intro exI [of _ "s\<lparr>po_workers := (po_workers s)[i := Holding ?r], po_answered := po_answered s @ [?r]\<rparr>"])
         (simp add: pool_left_def)
  next
    case (Holding r)
    then show ?thesis using assms(1,2) left [of Ended] pool_step.Drop [OF i(1) Holding assms(1), of cfg]
      by (intro exI [of _ "s\<lparr>po_workers := (po_workers s)[i := Ended], po_lost := po_lost s @ [r]\<rparr>"])
         (simp add: pool_left_def)
  next
    case Ended
    with i(2) show ?thesis by simp
  qed
qed

lemma pool_runs_down:
  assumes "po_over s" "\<not> po_ticking s"
  shows "\<exists>s'. (pool_step cfg)\<^sup>*\<^sup>* s s' \<and> pool_done s'"
  using assms
proof (induction "pool_left s" arbitrary: s rule: less_induct)
  case less
  show ?case
  proof (cases "pool_done s")
    case False
    with pool_progress [OF less.prems] obtain s1 where
      "pool_step cfg s s1" "po_over s1" "\<not> po_ticking s1" "pool_left s1 < pool_left s" by blast
    with less.hyps show ?thesis by (meson converse_rtranclp_into_rtranclp)
  qed auto
qed

text \<open>Whatever the workers did so far, the run can end: the deadline, the end of the ticker, and then each worker.\<close>

lemma pool_can_end: "\<exists>s'. (pool_step cfg)\<^sup>*\<^sup>* s s' \<and> pool_done s'"
proof -
  obtain s1 where s1: "(pool_step cfg)\<^sup>*\<^sup>* s s1" "po_over s1"
  proof (cases "po_over s")
    case False
    from that [OF r_into_rtranclp [of "pool_step cfg", OF pool_step.Deadline [OF False]]] show thesis by simp
  qed (rule that [OF rtranclp.rtrancl_refl])
  obtain s2 where s2: "(pool_step cfg)\<^sup>*\<^sup>* s1 s2" "po_over s2" "\<not> po_ticking s2"
  proof (cases "po_ticking s1")
    case True
    from that [OF r_into_rtranclp [of "pool_step cfg", OF pool_step.Ticker_End [OF s1(2) True]]] s1(2) show thesis by simp
  qed (rule that [OF rtranclp.rtrancl_refl s1(2)])
  from pool_runs_down [OF s2(2,3)] obtain s3 where "(pool_step cfg)\<^sup>*\<^sup>* s2 s3" "pool_done s3" by blast
  with s1(1) s2(1) show ?thesis by (meson rtranclp_trans)
qed

subsection \<open>Names are in range\<close>

lemma bounded_index_value: "len < 2 ^ 64 \<Longrightarrow> bounded_index n len = unat n mod len"
  by (simp add: bounded_index_def unat_mod_distrib unat_of_nat)

lemma bounded_index_less: "0 < len \<Longrightarrow> len < 2 ^ 64 \<Longrightarrow> bounded_index n len < len"
  by (simp add: bounded_index_value)

text \<open>The picker goes through the names given in order, again and again, also when its counter wraps.\<close>

lemma picker_cycles:
  assumes "dp_custom p \<noteq> []" "length (dp_custom p) < 2 ^ 64" "picker_next now random p = (p', d)"
  shows "d = dp_custom p ! (unat (dp_count p) mod length (dp_custom p)) \<and> d \<in> set (dp_custom p) \<and>
    dp_count p' = dp_count p + 1 \<and> dp_custom p' = dp_custom p"
proof -
  have "0 < length (dp_custom p)" using assms(1) by simp
  from bounded_index_less [OF this assms(2), of "dp_count p"] show ?thesis
    using assms by (auto simp: picker_next_def Let_def bounded_index_value)
qed

text \<open>Settings that pass the checks can be run.\<close>

lemma parsed_config_runs:
  assumes "parse_load_config fl = Inr cfg"
  shows "0 < lc_concurrency cfg \<and> 0 < lc_duration cfg \<and> lc_type cfg \<in> {''doh'', ''api''} \<and> [] \<notin> set (lc_domains cfg) \<and>
    0 < pool_capacity cfg \<and> (case tick_interval (lc_rate cfg) of None \<Rightarrow> lc_rate cfg = 0 | Some i \<Rightarrow> 0 < i)"
  using assms by (auto simp: parse_load_config_def pool_capacity_def tick_interval_def Let_def split: if_splits)


end
